theory Spec2Isabelle
  imports Main
begin

section \<open>JavaScript strings\<close>

text \<open>
  A JavaScript string is a sequence of UTF-16 code units; \<open>length\<close>, \<open>includes\<close>,
  \<open>startsWith\<close>, \<open>slice\<close> and the regular expressions of the analyzer (none has the
  \<open>u\<close> flag) all work on code units. A code unit is a natural number here; ASCII literals
  of the source are written \<open>str ''...''\<close>, other literals as explicit code units.
  Flag identifiers and rule names only ever come from ASCII literals of the source and are
  kept as HOL strings.
\<close>

type_synonym jsstring = "nat list"

definition str :: "string \<Rightarrow> jsstring" where
  "str s = map of_char s"

fun startsWith :: "jsstring \<Rightarrow> jsstring \<Rightarrow> bool" where
  "startsWith s [] = True"
| "startsWith [] (p # ps) = False"
| "startsWith (c # cs) (p # ps) = (if c = p then startsWith cs ps else False)"

definition endsWith :: "jsstring \<Rightarrow> jsstring \<Rightarrow> bool" where
  "endsWith s p = startsWith (rev s) (rev p)"

fun str_includes :: "jsstring \<Rightarrow> jsstring \<Rightarrow> bool" where
  "str_includes [] p = (p = [])"
| "str_includes (c # cs) p = (if startsWith (c # cs) p then True else str_includes cs p)"

text \<open>\<open>s.split(sep)\<close> for a one-character separator: never empty, \<open>''.split('.')\<close> is \<open>['']\<close>.\<close>

fun split_on :: "nat \<Rightarrow> jsstring \<Rightarrow> jsstring list" where
  "split_on sep [] = [[]]"
| "split_on sep (c # cs) =
     (if c = sep then [] # split_on sep cs
      else (case split_on sep cs of
              [] \<Rightarrow> [[c]]
            | p # ps \<Rightarrow> (c # p) # ps))"

text \<open>\<open>s.slice(-n)\<close>: the last \<open>n\<close> code units, the whole string when it is shorter.\<close>

definition slice_last :: "nat \<Rightarrow> jsstring \<Rightarrow> jsstring" where
  "slice_last n s = drop (length s - n) s"

text \<open>
  White space as \<open>\s\<close> and \<open>trim\<close> see it (ECMAScript WhiteSpace and LineTerminator),
  the decimal digits of \<open>\d\<close>, and the word characters of \<open>\b\<close>.
\<close>

definition is_space :: "nat \<Rightarrow> bool" where
  "is_space c =
     ((9 \<le> c \<and> c \<le> 13) \<or> c = 32 \<or> c = 160 \<or> c = 5760 \<or> (8192 \<le> c \<and> c \<le> 8202)
      \<or> c = 8232 \<or> c = 8233 \<or> c = 8239 \<or> c = 8287 \<or> c = 12288 \<or> c = 65279)"

definition is_digit :: "nat \<Rightarrow> bool" where
  "is_digit c = (48 \<le> c \<and> c \<le> 57)"

definition is_word :: "nat \<Rightarrow> bool" where
  "is_word c = ((97 \<le> c \<and> c \<le> 122) \<or> (65 \<le> c \<and> c \<le> 90) \<or> is_digit c \<or> c = 95)"

definition trim :: "jsstring \<Rightarrow> jsstring" where
  "trim s = rev (dropWhile is_space (rev (dropWhile is_space s)))"

section \<open>Regular expressions\<close>

text \<open>
  The fragment of ECMAScript regular expressions the analyzer uses, as a backtracking
  matcher: a matcher maps a position to the list of positions it can end at, in the order
  in which backtracking tries them (first alternative first, greedy quantifiers longest
  first). A position is the code unit before it, if any, and the rest of the input.
  A class is a list of inclusive ranges, possibly negated. With the \<open>i\<close> flag (first
  argument of \<open>rx\<close>) a code unit is in a class when it or its ASCII case variant is: no
  class or literal of the analyzer has a non-ASCII member with a case mapping, and without
  the \<open>u\<close> flag no non-ASCII code unit is canonicalized to an ASCII one.
\<close>

type_synonym cset = "(nat \<times> nat) list"

datatype re =
    Cls bool cset
  | Dot
  | Eps
  | Seq re re
  | Alt re re
  | Rep nat "nat option" re
  | WordB
  | Bol
  | Eol

type_synonym mstate = "nat option \<times> jsstring"

definition in_cset :: "cset \<Rightarrow> nat \<Rightarrow> bool" where
  "in_cset rs c = list_ex (\<lambda>(lo, hi). lo \<le> c \<and> c \<le> hi) rs"

definition swap_case :: "nat \<Rightarrow> nat" where
  "swap_case c =
     (if 97 \<le> c \<and> c \<le> 122 then c - 32 else if 65 \<le> c \<and> c \<le> 90 then c + 32 else c)"

definition cls_match :: "bool \<Rightarrow> bool \<Rightarrow> cset \<Rightarrow> nat \<Rightarrow> bool" where
  "cls_match ci neg rs c =
     (let found = (if in_cset rs c then True else if ci then in_cset rs (swap_case c) else False)
      in if neg then \<not> found else found)"

definition line_terminator :: "nat \<Rightarrow> bool" where
  "line_terminator c = (c = 10 \<or> c = 13 \<or> c = 8232 \<or> c = 8233)"

definition word_before :: "mstate \<Rightarrow> bool" where
  "word_before st = (case fst st of None \<Rightarrow> False | Some c \<Rightarrow> is_word c)"

definition word_after :: "mstate \<Rightarrow> bool" where
  "word_after st = (case snd st of [] \<Rightarrow> False | c # _ \<Rightarrow> is_word c)"

text \<open>
  \<open>rx_rep ci r m n\<close> is the greedy quantifier \<open>r{m,m+n'}\<close> with \<open>n\<close> iterations left at
  most: one more iteration first, then stopping (when the minimum is reached). As in
  ECMAScript's RepeatMatcher an iteration that consumes nothing is refused once the minimum
  is reached, so an unbounded quantifier never needs more than the minimum plus one
  iteration per remaining code unit.
\<close>

function rx :: "bool \<Rightarrow> re \<Rightarrow> mstate \<Rightarrow> mstate list"
  and rx_rep :: "bool \<Rightarrow> re \<Rightarrow> nat \<Rightarrow> nat \<Rightarrow> mstate \<Rightarrow> mstate list" where
  "rx ci (Cls neg rs) st =
     (case snd st of [] \<Rightarrow> []
      | c # cs \<Rightarrow> if cls_match ci neg rs c then [(Some c, cs)] else [])"
| "rx ci Dot st =
     (case snd st of [] \<Rightarrow> []
      | c # cs \<Rightarrow> if line_terminator c then [] else [(Some c, cs)])"
| "rx ci Eps st = [st]"
| "rx ci (Seq a b) st = concat (map (rx ci b) (rx ci a st))"
| "rx ci (Alt a b) st = rx ci a st @ rx ci b st"
| "rx ci (Rep m mx r) st =
     rx_rep ci r m (case mx of None \<Rightarrow> m + length (snd st) | Some k \<Rightarrow> k) st"
| "rx ci WordB st = (if word_before st \<noteq> word_after st then [st] else [])"
| "rx ci Bol st = (if fst st = None then [st] else [])"
| "rx ci Eol st = (if snd st = [] then [st] else [])"
| "rx_rep ci r m 0 st = (if m = 0 then [st] else [])"
| "rx_rep ci r m (Suc n) st =
     concat (map (rx_rep ci r (m - 1) n)
       (filter (\<lambda>st'. 0 < m \<or> length (snd st') < length (snd st)) (rx ci r st)))
     @ (if m = 0 then [st] else [])"
  by pat_completeness auto
termination
  by (relation "inv_image (less_than <*lex*> less_than) (\<lambda>x. case x of
          Inl (ci, r, st) \<Rightarrow> (2 * size r, 0)
        | Inr (ci, r, m, n, st) \<Rightarrow> (2 * size r + 1, n))") auto

text \<open>\<open>re.test(s)\<close> for a regular expression without the \<open>g\<close> flag: a match from some start.\<close>

fun rx_search :: "bool \<Rightarrow> re \<Rightarrow> nat option \<Rightarrow> jsstring \<Rightarrow> bool" where
  "rx_search ci r p [] = (rx ci r (p, []) \<noteq> [])"
| "rx_search ci r p (c # cs) =
     (if rx ci r (p, c # cs) \<noteq> [] then True else rx_search ci r (Some c) cs)"

definition rx_test :: "bool \<Rightarrow> re \<Rightarrow> jsstring \<Rightarrow> bool" where
  "rx_test ci r s = rx_search ci r None s"

text \<open>
  \<open>s.match(re)\<close> for a regular expression with the \<open>g\<close> flag (\<open>|| []\<close> applied): every
  match, leftmost first, each search resuming where the last match ended (one code unit
  further after an empty match). \<open>skip\<close> counts the code units of the last match still to
  pass.
\<close>

fun rx_match_all :: "bool \<Rightarrow> re \<Rightarrow> nat option \<Rightarrow> nat \<Rightarrow> jsstring \<Rightarrow> jsstring list" where
  "rx_match_all ci r p skip [] =
     (if skip = 0 \<and> rx ci r (p, []) \<noteq> [] then [[]] else [])"
| "rx_match_all ci r p skip (c # cs) =
     (if 0 < skip then rx_match_all ci r (Some c) (skip - 1) cs
      else (case rx ci r (p, c # cs) of
              [] \<Rightarrow> rx_match_all ci r (Some c) 0 cs
            | e # _ \<Rightarrow>
                (let k = length (c # cs) - length (snd e)
                 in take k (c # cs) # rx_match_all ci r (Some c) (k - 1) cs)))"

text \<open>\<open>s.replace(re, '')\<close> for a \<open>g\<close>-flagged single class, and the count of its matches.\<close>

definition remove_all :: "(nat \<Rightarrow> bool) \<Rightarrow> jsstring \<Rightarrow> jsstring" where
  "remove_all P s = filter (\<lambda>c. \<not> P c) s"

text \<open>Builders for the patterns below.\<close>

definition lit :: "jsstring \<Rightarrow> re" where
  "lit s = foldr (\<lambda>c r. Seq (Cls False [(c, c)]) r) s Eps"

definition L :: "string \<Rightarrow> re" where
  "L s = lit (str s)"

definition seqs :: "re list \<Rightarrow> re" where
  "seqs rs = foldr Seq rs Eps"

fun alts :: "re list \<Rightarrow> re" where
  "alts [] = Cls False []"
| "alts [r] = r"
| "alts (r # rs) = Alt r (alts rs)"

definition words :: "string list \<Rightarrow> re" where
  "words ws = alts (map L ws)"

definition opt :: "re \<Rightarrow> re" where
  "opt r = Rep 0 (Some 1) r"

definition gap :: "nat \<Rightarrow> re" where
  "gap n = Rep 0 (Some n) Dot"

definition not_space :: re where
  "not_space = Cls True [(9, 13), (32, 32), (160, 160), (5760, 5760), (8192, 8202),
     (8232, 8233), (8239, 8239), (8287, 8287), (12288, 12288), (65279, 65279)]"

definition space :: re where
  "space = Cls False [(9, 13), (32, 32), (160, 160), (5760, 5760), (8192, 8202),
     (8232, 8233), (8239, 8239), (8287, 8287), (12288, 12288), (65279, 65279)]"

definition digit :: re where
  "digit = Cls False [(48, 57)]"

section \<open>The runtime\<close>

text \<open>
  Two library functions of the JavaScript runtime are not part of the repository and are
  parameters of the model: \<open>String.prototype.toLowerCase\<close>, and the \<open>URL\<close> constructor,
  which yields the \<open>hostname\<close>, \<open>pathname\<close> and \<open>search\<close> of a parsed URL, or \<open>None\<close> where
  it throws. Every theorem below that mentions \<open>rt\<close> holds for any such pair.
\<close>

record js_runtime =
  toLowerCase :: "jsstring \<Rightarrow> jsstring"
  URL_parse :: "jsstring \<Rightarrow> (jsstring \<times> jsstring \<times> jsstring) option"

section \<open>Types\<close>

datatype risk_level = safe | suspicious | high_risk

datatype language = english | hindi | hinglish

record Detail =
  rule :: string
  flag :: string
  points :: int

record AnalysisResult =
  riskScore :: int
  riskLevel :: risk_level
  flags :: "string list"
  details :: "Detail list"
  embeddedUrls :: "jsstring list option"
  embeddedPhones :: "jsstring list option"

record FullAnalysisResult = AnalysisResult +
  inputType :: jsstring
  language :: language
  explanation :: jsstring
  disclaimer :: jsstring

section \<open>Input handler\<close>

definition urlPattern_detect :: re where
  "urlPattern_detect = alts [
     seqs [Bol, L ''http'', opt (L ''s''), L ''://'', Rep 1 None not_space],
     seqs [Bol, L ''www.'', Rep 1 None not_space],
     seqs [Bol, Rep 1 None (Cls False [(97, 122), (65, 90), (48, 57), (45, 45)]), L ''.'',
       words [''com'', ''org'', ''net'', ''xyz'', ''top'', ''click'', ''info'', ''co'', ''in'',
         ''io'', ''ly'', ''tk'', ''ml'', ''ga'', ''cf'', ''gq'', ''bit.ly'', ''tinyurl'']]]"

definition phonePattern_detect :: re where
  "phonePattern_detect = seqs [Bol, opt (Cls False [(43, 43)]),
     Rep 10 None (Cls False [(48, 57), (9, 13), (32, 32), (160, 160), (5760, 5760),
       (8192, 8202), (8232, 8233), (8239, 8239), (8287, 8287), (12288, 12288),
       (65279, 65279), (45, 45), (40, 40), (41, 41)]), Eol]"

definition detectInputType :: "jsstring \<Rightarrow> jsstring" where
  "detectInputType text =
     (let trimmed = trim text in
      if rx_test True urlPattern_detect trimmed then str ''url''
      else if rx_test False phonePattern_detect (remove_all is_space trimmed) then str ''phone''
      else str ''message'')"

definition detectLanguage :: "jsstring \<Rightarrow> language" where
  "detectLanguage text =
     (let hindiChars = length (filter (\<lambda>c. 2304 \<le> c \<and> c \<le> 2431) text);
          englishChars = length (filter (\<lambda>c. (97 \<le> c \<and> c \<le> 122) \<or> (65 \<le> c \<and> c \<le> 90)) text);
          total = hindiChars + englishChars
      in if total = 0 then english
         else if hindiChars > englishChars then hindi
         else if hindiChars > 0 \<and> englishChars > 0 then hinglish
         else english)"

text \<open>
  \<open>replace(/\s+/g, ' ')\<close>: every maximal run of white space becomes one space; the
  first argument tells whether the code unit before was white space.
\<close>

fun collapse_spaces :: "bool \<Rightarrow> jsstring \<Rightarrow> jsstring" where
  "collapse_spaces in_run [] = []"
| "collapse_spaces in_run (c # cs) =
     (if is_space c then (if in_run then collapse_spaces True cs else 32 # collapse_spaces True cs)
      else c # collapse_spaces False cs)"

definition normalizeInput :: "jsstring \<Rightarrow> jsstring" where
  "normalizeInput text = collapse_spaces False (trim text)"

definition urlPattern_extract :: re where
  "urlPattern_extract = alts [
     seqs [L ''http'', opt (L ''s''), L ''://'', Rep 1 None not_space],
     seqs [L ''www.'', Rep 1 None not_space],
     seqs [L ''bit.ly/'', Rep 1 None not_space],
     seqs [L ''tinyurl.com/'', Rep 1 None not_space],
     seqs [WordB, Rep 1 None (Cls False [(97, 122), (48, 57), (46, 46), (45, 45)]), L ''.'',
       words [''com'', ''org'', ''net'', ''in'', ''io'', ''co'', ''xyz'', ''top'', ''click'',
         ''info'', ''ly'', ''tk'', ''ml'', ''ga'', ''cf'', ''gq''], WordB]]"

definition extractUrls :: "jsstring \<Rightarrow> jsstring list" where
  "extractUrls text = rx_match_all True urlPattern_extract None 0 text"

definition phonePattern_extract :: re where
  "phonePattern_extract = seqs [opt (Cls False [(43, 43)]), Rep 10 (Some 13) digit]"

definition extractPhones :: "jsstring \<Rightarrow> jsstring list" where
  "extractPhones text =
     (let cleaned = remove_all (\<lambda>c. is_space c \<or> c = 45) text
      in rx_match_all False phonePattern_extract None 0 cleaned)"

section \<open>Message analysis rules\<close>

text \<open>
  A rule: its patterns, each with its \<open>i\<close> flag, its weight and its flag. Devanagari
  literals and the rupee sign (8377) are given by their code units.
\<close>

record Rule =
  patterns :: "(bool \<times> re) list"
  weight :: int
  rule_flag :: string

definition rule_urgency :: Rule where
  "rule_urgency = \<lparr>patterns = [
     (True, seqs [WordB, alts [L ''urgent'', L ''immediately'', L ''right now'', L ''act now'',
        L ''hurry'', L ''last chance'', L ''limited time'', seqs [L ''expire'', opt (L ''s''),
        L '' today''], seqs [L ''don'', opt (lit [39]), L ''t delay''], L ''final notice'',
        L ''final warning'', seqs [L ''within 24 hour'', opt (L ''s'')],
        seqs [L ''within 2 hour'', opt (L ''s'')], L ''action required''], WordB]),
     (True, seqs [WordB, alts [lit [2340, 2369, 2352, 2306, 2340], lit [2309, 2349, 2368],
        lit [2332, 2354, 2381, 2342, 2368], seqs [lit [2310, 2326, 2367, 2352, 2368], L '' '',
        lit [2350, 2380, 2325, 2366]], seqs [lit [2309, 2306, 2340, 2367, 2350], L '' '',
        lit [2330, 2375, 2340, 2366, 2357, 2344, 2368]], seqs [L ''24 '', lit [2328, 2306,
        2335, 2375], L '' '', lit [2350, 2375, 2306]]], WordB]),
     (True, seqs [WordB, words [''jaldi'', ''abhi'', ''turant'', ''fauran''], WordB])
   ], weight = 18, rule_flag = ''urgency_pressure''\<rparr>"

definition rule_otp_kyc :: Rule where
  "rule_otp_kyc = \<lparr>patterns = [
     (True, seqs [WordB, alts [L ''otp'', L ''kyc'', L ''verify'', L ''verification'', L ''cvv'',
        L ''pin'', L ''password'', L ''atm pin'', L ''upi pin'', lit [2346, 2366, 2360, 2357,
        2352, 2381, 2337]], WordB]),
     (True, seqs [WordB, words [''share'', ''send'', ''provide'', ''enter'', ''batao'', ''bhejo''],
        gap 20, words [''otp'', ''code'', ''pin''], WordB]),
     (True, seqs [WordB, words [''update'', ''complete''], gap 15, words [''kyc'', ''pan'',
        ''aadhar'', ''aadhaar''], WordB]),
     (True, seqs [L ''otp'', gap 10, words [''hai'', ''is'', ''send'', ''bhej'']])
   ], weight = 25, rule_flag = ''otp_kyc_request''\<rparr>"

definition rule_account_threat :: Rule where
  "rule_account_threat = \<lparr>patterns = [
     (True, seqs [WordB, alts [L ''account'', lit [2326, 2366, 2340, 2366], L ''a/c''], gap 20,
        alts [L ''block'', L ''suspend'', L ''close'', L ''deactivat'', L ''freeze'',
        lit [2348, 2306, 2342], lit [2348, 2381, 2354, 2377, 2325], L ''hold''], WordB]),
     (True, seqs [WordB, words [''block'', ''suspend'', ''deactivat'', ''freeze''], gap 20,
        alts [L ''account'', lit [2326, 2366, 2340, 2366], L ''a/c''], WordB]),
     (True, seqs [WordB, words [''service'', ''card'', ''upi''], gap 15, words [''block'',
        ''suspend'', ''stop''], WordB]),
     (True, seqs [WordB, alts [L ''legal action'', seqs [lit [2325, 2366, 2344, 2370, 2344, 2368],
        L '' '', lit [2325, 2366, 2352, 2381, 2352, 2357, 2366, 2312]],
        L ''police complaint''], WordB])
   ], weight = 22, rule_flag = ''account_threat''\<rparr>"

definition rule_lottery_reward :: Rule where
  "rule_lottery_reward = \<lparr>patterns = [
     (True, seqs [WordB, alts [L ''congratulations'', L ''congrats'', L ''winner'', L ''won'',
        L ''lottery'', L ''prize'', L ''reward'', L ''gift'', L ''cash prize'', lit [2311,
        2344, 2366, 2350], lit [2332, 2368, 2340], L ''badhai'', L ''mubarak''], WordB]),
     (True, seqs [WordB, words [''claim'', ''collect'', ''receive''], gap 20, words [''prize'',
        ''reward'', ''money'', ''amount''], WordB]),
     (True, seqs [WordB, alts [L ''free'', lit [2350, 2369, 2347, 2381, 2340], L ''muft''], gap 10,
        words [''gift'', ''iphone'', ''laptop'', ''money'', ''car'', ''bike''], WordB]),
     (True, seqs [WordB, words [''lucky draw'', ''spin wheel'', ''scratch card''], WordB]),
     (True, seqs [WordB, words [''selected'', ''chosen''], gap 15, words [''winner'', ''prize''],
        WordB]),
     (True, seqs [lit [8377], Rep 0 None space, Rep 1 (Some 3) digit, Rep 0 None (seqs [L '','',
        Rep 3 (Some 3) digit]), Rep 0 None space, words [''lakh'', ''crore'', ''cr'', ''lac'']])
   ], weight = 25, rule_flag = ''lottery_reward_bait''\<rparr>"

definition rule_job_scam :: Rule where
  "rule_job_scam = \<lparr>patterns = [
     (True, seqs [WordB, words [''earn'', ''income'', ''salary'', ''kamai'', ''kamao''], gap 20,
        alts [seqs [L ''lakh'', opt (L ''s'')], seqs [L ''crore'', opt (L ''s'')],
        L ''per day'', L ''daily'', L ''weekly'', L ''monthly'', L ''ghar baithe''], WordB]),
     (True, seqs [WordB, words [''work from home'', ''wfh'', ''ghar se kaam''], gap 20,
        words [''earn'', ''income'', ''money'', ''kamai''], WordB]),
     (True, seqs [WordB, words [''no interview'', ''direct joining'', ''immediate joining'',
        ''part time job'', ''typing job''], WordB]),
     (True, seqs [WordB, words [''amazon'', ''flipkart'', ''meesho''], gap 15, words [''job'',
        ''work'', ''partner''], WordB]),
     (True, seqs [WordB, L ''data entry'', gap 10, words [''job'', ''work'', ''earn'']])
   ], weight = 22, rule_flag = ''suspicious_job_offer''\<rparr>"

definition rule_authority :: Rule where
  "rule_authority = \<lparr>patterns = [
     (True, seqs [WordB, words [''rbi'', ''reserve bank'', ''income tax'', ''it department'',
        ''police'', ''cyber cell'', ''customs'', ''ed'', ''cbi'', ''enforcement''], WordB]),
     (True, seqs [WordB, words [''sbi'', ''hdfc'', ''icici'', ''axis'', ''kotak'', ''pnb'',
        ''bob'', ''canara'', ''union bank'', ''paytm'', ''phonepe'', ''gpay'', ''google pay''],
        WordB]),
     (True, seqs [WordB, alts [L ''government'', lit [2360, 2352, 2325, 2366, 2352], lit [2348,
        2376, 2306, 2325], L ''ministry''], gap 20, words [''notice'', ''warning'', ''alert'',
        ''message''], WordB]),
     (True, seqs [WordB, words [''customer care'', ''helpline'', ''support''], gap 10,
        alts [L ''number'', seqs [L ''no'', opt (L ''.'')]], WordB])
   ], weight = 18, rule_flag = ''authority_impersonation''\<rparr>"

definition rule_money_request :: Rule where
  "rule_money_request = \<lparr>patterns = [
     (True, seqs [WordB, words [''transfer'', ''send'', ''pay'', ''bhejo'', ''de do''], gap 20,
        alts [L ''money'', L ''amount'', L ''rs'', lit [8377], L ''rupees'', L ''paisa'',
        L ''paise''], WordB]),
     (True, seqs [WordB, words [''processing fee'', ''registration fee'', ''advance payment'',
        ''token money'', ''booking amount''], WordB]),
     (True, seqs [WordB, words [''pay'', ''deposit''], gap 15, words [''first'', ''only'',
        ''just''], gap 10, alts [L ''rs'', lit [8377], digit]]),
     (True, seqs [WordB, words [''refund'', ''cashback''], gap 20, words [''pending'', ''stuck'',
        ''process''], WordB]),
     (True, seqs [L ''upi'', gap 10, words [''id'', ''address'', ''transfer'']])
   ], weight = 22, rule_flag = ''money_request''\<rparr>"

definition rule_poor_grammar :: Rule where
  "rule_poor_grammar = \<lparr>patterns = [
     (False, alts [L ''!!!'', L ''???'', seqs [L ''...'', Rep 1 None (L ''.'')]]),
     (True, seqs [WordB, words [''plz'', ''pls'', ''ur'', ''u r'', ''bcoz'', ''coz'', ''dis'',
        ''dat'', ''dnt'', ''2day'', ''2morrow'', ''4u'', ''asap''], WordB]),
     (True, seqs [L ''dear'', Rep 1 None space, words [''customer'', ''user'', ''sir'', ''madam'',
        ''member'']])
   ], weight = 10, rule_flag = ''poor_grammar''\<rparr>"

definition rule_embedded_link :: Rule where
  "rule_embedded_link = \<lparr>patterns = [
     (True, seqs [L ''http'', opt (L ''s''), L ''://'', Rep 1 None not_space]),
     (True, words [''bit.ly'', ''tinyurl'', ''short.link'', ''t.co'', ''goo.gl'']),
     (True, seqs [L ''click'', Rep 1 None space, words [''here'', ''now'', ''below'', ''link'']])
   ], weight = 12, rule_flag = ''contains_link''\<rparr>"

definition rule_delivery_scam :: Rule where
  "rule_delivery_scam = \<lparr>patterns = [
     (True, seqs [WordB, words [''delivery'', ''courier'', ''parcel'', ''package'', ''shipment''],
        gap 20, words [''failed'', ''pending'', ''hold'', ''stuck'', ''address''], WordB]),
     (True, seqs [WordB, words [''bluedart'', ''delhivery'', ''dtdc'', ''fedex'', ''ecom express'',
        ''india post''], gap 15, words [''track'', ''delivery''], WordB]),
     (True, seqs [L ''track'', gap 10, words [''order'', ''shipment'', ''parcel'']])
   ], weight = 18, rule_flag = ''delivery_scam''\<rparr>"

definition rule_loan_scam :: Rule where
  "rule_loan_scam = \<lparr>patterns = [
     (True, seqs [WordB, alts [L ''instant loan'', L ''personal loan'', L ''loan approved'',
        seqs [L ''pre'', gap 1, L ''approved loan'']], WordB]),
     (True, seqs [WordB, L ''loan'', gap 15, alts [lit [8377], L ''rs'', L ''lakh'', L ''crore''],
        WordB]),
     (True, seqs [WordB, words [''no document'', ''without document'', ''bina document''], WordB]),
     (True, seqs [WordB, words [''low interest'', ''0% interest'', ''zero interest''], WordB])
   ], weight = 20, rule_flag = ''loan_scam''\<rparr>"

definition rule_investment_scam :: Rule where
  "rule_investment_scam = \<lparr>patterns = [
     (True, seqs [WordB, words [''invest'', ''trading'', ''crypto'', ''bitcoin'', ''stock''],
        gap 15, words [''earn'', ''return'', ''profit'', ''double''], WordB]),
     (True, seqs [WordB, words [''double'', ''triple''], gap 10, words [''money'', ''investment'',
        ''amount''], WordB]),
     (True, seqs [WordB, words [''guaranteed'', ''100%'', ''assured''], gap 10, words [''return'',
        ''profit''], WordB]),
     (True, seqs [WordB, words [''forex'', ''binary option'', ''mlm'', ''network marketing''],
        WordB])
   ], weight = 25, rule_flag = ''investment_scam''\<rparr>"

definition rule_whatsapp_forward :: Rule where
  "rule_whatsapp_forward = \<lparr>patterns = [
     (True, seqs [WordB, words [''forward'', ''share''], gap 15, alts [L ''10'', L ''20'',
        L ''100'', seqs [L ''group'', opt (L ''s'')], seqs [L ''contact'', opt (L ''s'')],
        seqs [L ''friend'', opt (L ''s'')]], WordB]),
     (True, seqs [WordB, words [''whatsapp'', ''telegram''], gap 10, words [''forward'',
        ''share''], WordB]),
     (True, seqs [WordB, words [''viral'', ''trending'', ''breaking''], gap 10, words [''news'',
        ''alert''], WordB])
   ], weight = 12, rule_flag = ''chain_message''\<rparr>"

text \<open>\<open>Object.entries(MESSAGE_RULES)\<close>: the rules under their names, in insertion order.\<close>

definition MESSAGE_RULES :: "(string \<times> Rule) list" where
  "MESSAGE_RULES = [
     (''urgency'', rule_urgency),
     (''otp_kyc'', rule_otp_kyc),
     (''account_threat'', rule_account_threat),
     (''lottery_reward'', rule_lottery_reward),
     (''job_scam'', rule_job_scam),
     (''authority'', rule_authority),
     (''money_request'', rule_money_request),
     (''poor_grammar'', rule_poor_grammar),
     (''embedded_link'', rule_embedded_link),
     (''delivery_scam'', rule_delivery_scam),
     (''loan_scam'', rule_loan_scam),
     (''investment_scam'', rule_investment_scam),
     (''whatsapp_forward'', rule_whatsapp_forward)]"

section \<open>URL and phone rules\<close>

definition SUSPICIOUS_TLDS :: "jsstring list" where
  "SUSPICIOUS_TLDS = map str [''.xyz'', ''.top'', ''.click'', ''.info'', ''.tk'', ''.ml'', ''.ga'',
     ''.cf'', ''.gq'', ''.buzz'', ''.work'', ''.loan'']"

definition URL_SHORTENERS :: "jsstring list" where
  "URL_SHORTENERS = map str [''bit.ly'', ''tinyurl.com'', ''short.link'', ''goo.gl'', ''t.co'',
     ''ow.ly'', ''is.gd'', ''buff.ly'']"

definition KNOWN_BRANDS :: "jsstring list" where
  "KNOWN_BRANDS = map str [''google'', ''facebook'', ''amazon'', ''flipkart'', ''paytm'',
     ''phonepe'', ''gpay'', ''sbi'', ''hdfc'', ''icici'', ''axis'', ''netflix'', ''whatsapp'',
     ''instagram'']"

definition SUSPICIOUS_PATH_TOKENS :: "jsstring list" where
  "SUSPICIOUS_PATH_TOKENS = map str [''verify'', ''confirm'', ''login'', ''secure'', ''account'',
     ''update'', ''bank'', ''payment'', ''refund'', ''prize'', ''claim'', ''click'',
     ''authenticate'', ''signin'', ''token'']"

definition deleet_char :: "nat \<Rightarrow> nat" where
  "deleet_char c =
     (if c = 48 then 111 else if c = 49 then 108 else if c = 51 then 101
      else if c = 53 then 115 else if c = 52 then 97 else if c = 55 then 116
      else if c = 56 then 98 else c)"

definition deleet :: "jsstring \<Rightarrow> jsstring" where
  "deleet s = map deleet_char s"

definition FOREIGN_CODES :: "jsstring list" where
  "FOREIGN_CODES = map str [''+1'', ''+44'', ''+234'', ''+233'', ''+254'', ''+880'', ''+92'']"

section \<open>Risk level\<close>

definition calculateRiskLevel :: "int \<Rightarrow> risk_level" where
  "calculateRiskLevel score =
     (if score \<le> 30 then safe else if score \<le> 60 then suspicious else high_risk)"


section \<open>Analyzers\<close>

text \<open>
  The local variables \<open>riskScore\<close>, \<open>flags\<close> and \<open>details\<close> of an analyzer, threaded
  through its checks in source order.
\<close>

record acc =
  acc_score :: int
  acc_flags :: "string list"
  acc_details :: "Detail list"

definition acc0 :: acc where
  "acc0 = \<lparr>acc_score = 0, acc_flags = [], acc_details = []\<rparr>"

definition add_score :: "int \<Rightarrow> acc \<Rightarrow> acc" where
  "add_score n a = a\<lparr>acc_score := acc_score a + n\<rparr>"

definition push_flag :: "string \<Rightarrow> acc \<Rightarrow> acc" where
  "push_flag f a = a\<lparr>acc_flags := acc_flags a @ [f]\<rparr>"

definition push_detail :: "string \<Rightarrow> string \<Rightarrow> int \<Rightarrow> acc \<Rightarrow> acc" where
  "push_detail r f n a = a\<lparr>acc_details := acc_details a @ [\<lparr>rule = r, flag = f, points = n\<rparr>]\<rparr>"

text \<open>\<open>riskScore += n; flags.push(f); details.push({rule: r, flag: f, points: n})\<close>\<close>

definition hit :: "string \<Rightarrow> string \<Rightarrow> int \<Rightarrow> acc \<Rightarrow> acc" where
  "hit r f n a = push_detail r f n (push_flag f (add_score n a))"

text \<open>\<open>riskScore += n; if (!flags.includes(f)) { flags.push(f); details.push(...) }\<close>\<close>

definition hit_once :: "string \<Rightarrow> string \<Rightarrow> int \<Rightarrow> acc \<Rightarrow> acc" where
  "hit_once r f n a =
     (if f \<in> set (acc_flags a) then add_score n a
      else push_detail r f n (push_flag f (add_score n a)))"

text \<open>\<open>for (const flag of fs) if (!flags.includes(flag)) flags.push(flag)\<close>\<close>

fun merge_flags :: "string list \<Rightarrow> acc \<Rightarrow> acc" where
  "merge_flags [] a = a"
| "merge_flags (f # fs) a =
     merge_flags fs (if f \<in> set (acc_flags a) then a else push_flag f a)"

definition finish :: "acc \<Rightarrow> jsstring list option \<Rightarrow> jsstring list option \<Rightarrow> AnalysisResult" where
  "finish a urls phones =
     \<lparr>riskScore = min (acc_score a) 100,
      riskLevel = calculateRiskLevel (min (acc_score a) 100),
      flags = acc_flags a,
      details = acc_details a,
      embeddedUrls = urls,
      embeddedPhones = phones\<rparr>"

subsection \<open>analyzeUrl\<close>

definition url_parsed :: "js_runtime \<Rightarrow> jsstring \<Rightarrow> (jsstring \<times> jsstring \<times> jsstring) option" where
  "url_parsed rt url =
     URL_parse rt (if startsWith url (str ''http'') then url else str ''http://'' @ url)"

text \<open>\<open>domain\<close>: the parsed hostname, or \<open>url.split('/')[0]\<close> when the constructor throws.\<close>

definition url_domain :: "js_runtime \<Rightarrow> jsstring \<Rightarrow> jsstring" where
  "url_domain rt url =
     (case url_parsed rt url of
        Some (hostname, pathname, search) \<Rightarrow> hostname
      | None \<Rightarrow> takeWhile (\<lambda>c. c \<noteq> 47) url)"

definition url_pathname :: "js_runtime \<Rightarrow> jsstring \<Rightarrow> jsstring" where
  "url_pathname rt url =
     (case url_parsed rt url of
        Some (hostname, pathname, search) \<Rightarrow> pathname @ search
      | None \<Rightarrow> [])"

definition ip_pattern :: re where
  "ip_pattern = seqs [L ''http'', opt (L ''s''), L ''://'', Rep 1 (Some 3) digit, L ''.'',
     Rep 1 (Some 3) digit, L ''.'', Rep 1 (Some 3) digit, L ''.'', Rep 1 (Some 3) digit]"

definition check_ip :: "jsstring \<Rightarrow> acc \<Rightarrow> acc" where
  "check_ip urlLower a =
     (if rx_test False ip_pattern urlLower then hit ''ip_based'' ''ip_based_url'' 25 a else a)"

definition check_punycode :: "jsstring \<Rightarrow> acc \<Rightarrow> acc" where
  "check_punycode domain a =
     (if str_includes domain (str ''xn--'') then hit ''punycode'' ''punycode_domain'' 20 a else a)"

definition check_userinfo :: "jsstring \<Rightarrow> acc \<Rightarrow> acc" where
  "check_userinfo urlLower a =
     (if rx_test False (L ''@'') urlLower then hit ''userinfo'' ''userinfo_in_url'' 18 a else a)"

definition check_no_https :: "jsstring \<Rightarrow> acc \<Rightarrow> acc" where
  "check_no_https urlLower a =
     (if startsWith urlLower (str ''http://'') \<and> \<not> startsWith urlLower (str ''https://'')
      then hit ''no_https'' ''no_https'' 8 a else a)"

text \<open>The three loops that \<open>break\<close> at the first match fire once if any element matches.\<close>

definition check_tld :: "jsstring \<Rightarrow> acc \<Rightarrow> acc" where
  "check_tld domain a =
     (if list_ex (\<lambda>tld. endsWith domain tld) SUSPICIOUS_TLDS
      then hit ''suspicious_tld'' ''suspicious_tld'' 18 a else a)"

definition check_shortener :: "jsstring \<Rightarrow> acc \<Rightarrow> acc" where
  "check_shortener domain a =
     (if list_ex (\<lambda>shortener. str_includes domain shortener) URL_SHORTENERS
      then hit ''shortener'' ''url_shortener'' 15 a else a)"

definition officialDomains :: "jsstring \<Rightarrow> jsstring list" where
  "officialDomains brand =
     [brand @ str ''.com'', brand @ str ''.in'', brand @ str ''.co.in'', brand @ str ''.org'']"

definition isOfficial :: "jsstring \<Rightarrow> jsstring \<Rightarrow> bool" where
  "isOfficial domain brand =
     list_ex (\<lambda>od. endsWith domain od \<or> domain = od) (officialDomains brand)"

text \<open>The body of the brand loop: the brand occurs, plainly or de-leeted, and is not official.\<close>

definition spoofs :: "js_runtime \<Rightarrow> jsstring \<Rightarrow> jsstring \<Rightarrow> bool" where
  "spoofs rt domain brand =
     (let brandLower = toLowerCase rt brand in
      if str_includes domain brandLower \<or> str_includes (deleet domain) brandLower
      then \<not> isOfficial domain brand else False)"

definition check_brand :: "js_runtime \<Rightarrow> jsstring \<Rightarrow> acc \<Rightarrow> acc" where
  "check_brand rt domain a =
     (if list_ex (spoofs rt domain) KNOWN_BRANDS
      then hit ''brand_spoof'' ''brand_spoofing'' 22 a else a)"

definition path_token_step :: "jsstring \<Rightarrow> jsstring \<Rightarrow> acc \<Rightarrow> acc" where
  "path_token_step combinedPath token a =
     (if str_includes combinedPath token
      then hit_once ''suspicious_path'' ''suspicious_path_token'' 12 a else a)"

definition check_path_tokens :: "jsstring \<Rightarrow> acc \<Rightarrow> acc" where
  "check_path_tokens combinedPath a = fold (path_token_step combinedPath) SUSPICIOUS_PATH_TOKENS a"

definition subdomainCount :: "jsstring \<Rightarrow> int" where
  "subdomainCount domain = int (length (split_on 46 domain)) - 2"

definition check_subdomains :: "jsstring \<Rightarrow> acc \<Rightarrow> acc" where
  "check_subdomains domain a =
     (if subdomainCount domain \<ge> 3 then hit ''many_subdomains'' ''excessive_subdomains'' 12 a else a)"

definition check_long :: "jsstring \<Rightarrow> acc \<Rightarrow> acc" where
  "check_long url a =
     (if length url > 100 then hit ''long_url'' ''suspicious_long_url'' 10 a else a)"

definition random_pattern :: re where
  "random_pattern = Rep 15 None (Cls False [(97, 122), (48, 57)])"

definition check_random :: "jsstring \<Rightarrow> acc \<Rightarrow> acc" where
  "check_random urlLower a =
     (if rx_test False random_pattern urlLower then hit ''random_string'' ''random_string_url'' 12 a else a)"

definition weird_pattern :: re where
  "weird_pattern = Cls True [(97, 122), (48, 57), (46, 46), (45, 45)]"

definition check_weird :: "jsstring \<Rightarrow> acc \<Rightarrow> acc" where
  "check_weird domain a =
     (if acc_flags a = [] \<and> domain \<noteq> [] \<and> length (split_on 46 domain) \<ge> 2
      then (if rx_test True weird_pattern domain
            then hit ''weird_chars'' ''weird_domain_chars'' 6 a else a)
      else a)"

definition analyzeUrl_acc :: "js_runtime \<Rightarrow> jsstring \<Rightarrow> acc" where
  "analyzeUrl_acc rt url =
     (let urlLower = toLowerCase rt url;
          domain = url_domain rt url;
          pathname = url_pathname rt url;
          combinedPath = pathname @ str '' '' @ urlLower
      in (check_weird domain \<circ> check_random urlLower \<circ> check_long url \<circ> check_subdomains domain
          \<circ> check_path_tokens combinedPath \<circ> check_brand rt domain \<circ> check_shortener domain
          \<circ> check_tld domain \<circ> check_no_https urlLower \<circ> check_userinfo urlLower
          \<circ> check_punycode domain \<circ> check_ip urlLower) acc0)"

definition analyzeUrl :: "js_runtime \<Rightarrow> jsstring \<Rightarrow> AnalysisResult" where
  "analyzeUrl rt url = finish (analyzeUrl_acc rt url) None None"

subsection \<open>analyzePhone\<close>

definition cleanPhone :: "jsstring \<Rightarrow> jsstring" where
  "cleanPhone phone = remove_all (\<lambda>c. is_space c \<or> c = 45 \<or> c = 40 \<or> c = 41) phone"

definition digitsOnly :: "jsstring \<Rightarrow> jsstring" where
  "digitsOnly phone = remove_all (\<lambda>c. \<not> is_digit c) (cleanPhone phone)"

definition check_foreign :: "jsstring \<Rightarrow> acc \<Rightarrow> acc" where
  "check_foreign clean a =
     (if list_ex (\<lambda>code. startsWith clean code) FOREIGN_CODES
      then hit ''foreign_code'' ''foreign_country_code'' 15 a else a)"

definition check_length :: "jsstring \<Rightarrow> acc \<Rightarrow> acc" where
  "check_length digits a =
     (if length digits < 10 \<or> length digits > 15
      then hit ''length_issue'' ''suspicious_number_length'' 12 a else a)"

text \<open>\<open>digitsOnly[0]\<close> is only read when there are ten digits.\<close>

definition check_pattern :: "jsstring \<Rightarrow> acc \<Rightarrow> acc" where
  "check_pattern digits a =
     (if length digits = 10 \<and> (case digits of [] \<Rightarrow> True
          | d # _ \<Rightarrow> [d] \<notin> set (map str [''6'', ''7'', ''8'', ''9'']))
      then hit ''invalid_pattern'' ''invalid_number_pattern'' 20 a else a)"

text \<open>\<open>new Set(lastTen).size\<close>\<close>

definition distinct_count :: "jsstring \<Rightarrow> nat" where
  "distinct_count s = length (remdups s)"

definition check_repeated :: "jsstring \<Rightarrow> acc \<Rightarrow> acc" where
  "check_repeated digits a =
     (if distinct_count (slice_last 10 digits) \<le> 2
      then hit ''repeated_digits'' ''suspicious_repeated_digits'' 15 a else a)"

text \<open>
  The test of \<open>/(\d)\1{4,}/\<close>, the one pattern with a back reference: from some start, a
  digit followed by at least four more copies of itself.
\<close>

fun digit_run_test :: "jsstring \<Rightarrow> bool" where
  "digit_run_test [] = False"
| "digit_run_test (c # cs) =
     (if is_digit c \<and> startsWith cs (replicate 4 c) then True else digit_run_test cs)"

definition check_sequence :: "jsstring \<Rightarrow> acc \<Rightarrow> acc" where
  "check_sequence digits a =
     (if digit_run_test digits
      then (if ''suspicious_repeated_digits'' \<notin> set (acc_flags a)
            then hit ''repeated_sequence'' ''suspicious_repeated_digits'' 12 a else a)
      else a)"

definition analyzePhone_acc :: "jsstring \<Rightarrow> acc" where
  "analyzePhone_acc phone =
     (check_sequence (digitsOnly phone) \<circ> check_repeated (digitsOnly phone)
      \<circ> check_pattern (digitsOnly phone) \<circ> check_length (digitsOnly phone)
      \<circ> check_foreign (cleanPhone phone)) acc0"

definition analyzePhone :: "jsstring \<Rightarrow> AnalysisResult" where
  "analyzePhone phone = finish (analyzePhone_acc phone) None None"

subsection \<open>analyzeMessage\<close>

text \<open>The inner loop over a rule's patterns stops at the first that matches.\<close>

definition rule_matches :: "Rule \<Rightarrow> jsstring \<Rightarrow> bool" where
  "rule_matches r textLower = list_ex (\<lambda>(ci, pat). rx_test ci pat textLower) (patterns r)"

definition rule_step :: "jsstring \<Rightarrow> string \<times> Rule \<Rightarrow> acc \<Rightarrow> acc" where
  "rule_step textLower nr a =
     (if rule_matches (snd nr) textLower
      then hit_once (fst nr) (rule_flag (snd nr)) (weight (snd nr)) a else a)"

definition run_rules :: "jsstring \<Rightarrow> acc \<Rightarrow> acc" where
  "run_rules textLower a = fold (rule_step textLower) MESSAGE_RULES a"

definition embed_url :: "js_runtime \<Rightarrow> jsstring \<Rightarrow> acc \<Rightarrow> acc" where
  "embed_url rt url a =
     (let urlResult = analyzeUrl rt url
      in merge_flags (flags urlResult) (add_score (min (riskScore urlResult div 2) 30) a))"

definition embed_phone :: "jsstring \<Rightarrow> acc \<Rightarrow> acc" where
  "embed_phone phone a =
     (let phoneResult = analyzePhone phone
      in merge_flags (flags phoneResult) (add_score (min (riskScore phoneResult div 3) 15) a))"

definition analyzeMessage_acc :: "js_runtime \<Rightarrow> jsstring \<Rightarrow> acc" where
  "analyzeMessage_acc rt text =
     fold embed_phone (take 2 (extractPhones text))
       (fold (embed_url rt) (take 2 (extractUrls text))
          (run_rules (toLowerCase rt text) acc0))"

definition analyzeMessage :: "js_runtime \<Rightarrow> jsstring \<Rightarrow> AnalysisResult" where
  "analyzeMessage rt text =
     finish (analyzeMessage_acc rt text) (Some (extractUrls text)) (Some (extractPhones text))"


section \<open>Fallback explanation\<close>

definition FLAG_DESCRIPTIONS :: "(string \<times> string) list" where
  "FLAG_DESCRIPTIONS = [
     (''urgency_pressure'', ''Contains urgent language designed to pressure quick decisions''),
     (''otp_kyc_request'', ''Requests sensitive information like OTP or KYC details''),
     (''account_threat'', ''Threatens account suspension or blocking''),
     (''lottery_reward_bait'', ''Promises prizes, rewards, or lottery winnings''),
     (''suspicious_job_offer'', ''Offers suspicious job with unrealistic earnings''),
     (''authority_impersonation'', ''May be impersonating banks or government''),
     (''money_request'', ''Requests money transfer or payment''),
     (''poor_grammar'', ''Contains suspicious grammar patterns''),
     (''contains_link'', ''Contains links that need verification''),
     (''ip_based_url'', ''URL uses IP address instead of domain name''),
     (''suspicious_tld'', ''Uses suspicious domain extension''),
     (''url_shortener'', ''Uses URL shortener to hide actual destination''),
     (''brand_spoofing'', ''May be impersonating a known brand''),
     (''excessive_subdomains'', ''Has suspicious number of subdomains''),
     (''suspicious_long_url'', ''Unusually long URL''),
     (''random_string_url'', ''Contains random characters in URL''),
     (''foreign_country_code'', ''Phone number from foreign country''),
     (''invalid_number_pattern'', ''Invalid phone number pattern''),
     (''suspicious_number_length'', ''Suspicious phone number length''),
     (''suspicious_repeated_digits'', ''Phone has suspicious repeated digits'')]"

fun join :: "jsstring \<Rightarrow> jsstring list \<Rightarrow> jsstring" where
  "join sep [] = []"
| "join sep [x] = x"
| "join sep (x # y # ys) = x @ sep @ join sep (y # ys)"

text \<open>\<open>FLAG_DESCRIPTIONS[f] || f.replace(/_/g, ' ')\<close>\<close>

definition describe_flag :: "string \<Rightarrow> jsstring" where
  "describe_flag f =
     (case map_of FLAG_DESCRIPTIONS f of
        Some d \<Rightarrow> str d
      | None \<Rightarrow> map (\<lambda>c. if c = 95 then 32 else c) (str f))"

text \<open>The three headlines start with the signs U+26A0 U+FE0F, U+26A1 and U+2705.\<close>

definition generateFallbackExplanation :: "risk_level \<Rightarrow> string list \<Rightarrow> jsstring" where
  "generateFallbackExplanation level fs =
     join (str '' '')
       ([if level = high_risk
         then [9888, 65039] @ str '' HIGH RISK: This appears to be a potential scam.''
         else if level = suspicious
         then [9889] @ str '' SUSPICIOUS: This has some concerning patterns.''
         else [9989] @ str '' LOW RISK: No major red flags detected.'']
        @ (if length fs > 0
           then [str ''Detected issues: '' @ join (str ''; '') (map describe_flag (take 3 fs)) @ str ''.'']
           else [])
        @ (if level \<noteq> safe
           then [str ''Do NOT click links, share OTP, or send money. Verify through official channels.'']
           else []))"

section \<open>Main analyze function\<close>

text \<open>
  \<open>type\<close> is \<open>None\<close> when the argument is absent; at run time it can be any string, whatever
  the TypeScript annotation says. \<open>!type\<close> also holds for the empty string.
\<close>

definition resolve_type :: "jsstring option \<Rightarrow> jsstring \<Rightarrow> jsstring" where
  "resolve_type type normalized =
     (case type of
        None \<Rightarrow> detectInputType normalized
      | Some t \<Rightarrow> if t = str ''auto'' \<or> t = [] then detectInputType normalized else t)"

definition dispatch :: "js_runtime \<Rightarrow> jsstring \<Rightarrow> jsstring \<Rightarrow> AnalysisResult" where
  "dispatch rt type' normalized =
     (if type' = str ''url'' then analyzeUrl rt normalized
      else if type' = str ''phone'' then analyzePhone normalized
      else analyzeMessage rt normalized)"

definition analyze :: "js_runtime \<Rightarrow> jsstring \<Rightarrow> jsstring option \<Rightarrow> FullAnalysisResult" where
  "analyze rt input type =
     (let normalized = normalizeInput input;
          type' = resolve_type type normalized;
          analysis = dispatch rt type' normalized
      in \<lparr>riskScore = riskScore analysis,
          riskLevel = riskLevel analysis,
          flags = flags analysis,
          details = details analysis,
          embeddedUrls = embeddedUrls analysis,
          embeddedPhones = embeddedPhones analysis,
          inputType = type',
          language = detectLanguage normalized,
          explanation = generateFallbackExplanation (riskLevel analysis) (flags analysis),
          disclaimer = str ''This is a risk-based analysis, not a verification. Always verify through official channels.''\<rparr>)"

section \<open>The API route\<close>

text \<open>
  The \<open>POST\<close> handler from the parsed JSON body on, for bodies whose \<open>input\<close> and \<open>type\<close>
  are strings or absent. The explanation collaborator is a parameter: its answer for the
  analysis, \<open>None\<close> when it has none. The response is an error with its status, or the
  fields of the JSON answer.
\<close>

record request_body =
  body_input :: "jsstring option"
  body_type :: "jsstring option"

datatype http_response =
    Error_response nat string
  | Json_response FullAnalysisResult

type_synonym explainer = "jsstring \<Rightarrow> int \<Rightarrow> string list \<Rightarrow> language \<Rightarrow> jsstring \<Rightarrow> jsstring option"

definition or_else :: "jsstring option \<Rightarrow> jsstring \<Rightarrow> jsstring" where
  "or_else v d = (case v of None \<Rightarrow> d | Some x \<Rightarrow> if x = [] then d else x)"

definition POST :: "js_runtime \<Rightarrow> explainer \<Rightarrow> request_body \<Rightarrow> http_response" where
  "POST rt getGeminiExplanation body =
     (if or_else (body_input body) [] = [] then Error_response 400 ''No input provided''
      else
        (let input = trim (or_else (body_input body) []);
             type = or_else (body_type body) (str ''auto'')
         in if input = [] then Error_response 400 ''Empty input''
            else
              (let result = analyze rt input (Some type);
                   aiExplanation = getGeminiExplanation (inputType result) (riskScore result)
                     (flags result) (language result) input
               in Json_response (result
                    \<lparr>embeddedUrls := Some (case embeddedUrls result of None \<Rightarrow> [] | Some us \<Rightarrow> us),
                     embeddedPhones := Some (case embeddedPhones result of None \<Rightarrow> [] | Some ps \<Rightarrow> ps),
                     explanation := or_else aiExplanation (explanation result)\<rparr>))))"

section \<open>A concrete runtime\<close>

text \<open>
  A runtime to evaluate the analyzers on concrete inputs. Its \<open>toLowerCase\<close> maps the
  ASCII capitals and is the library's on every string without other cased letters. Its
  \<open>URL_parse\<close> accepts \<open>http://\<close> or \<open>https://\<close>, a host of non-empty labels over
  \<open>a-z\<close>, \<open>0-9\<close> and \<open>-\<close> (no \<open>xn--\<close>) whose last label is alphabetic, or a dotted
  quad of decimal numbers up to 255 without leading zeros, and an optional path over
  letters, digits, \<open>/\<close>, \<open>_\<close> and \<open>-\<close>; on these the WHATWG parser returns the host and the
  path unchanged (\<open>/\<close> for no path) and an empty search. Everything else is reported as a
  failure, so only accepted inputs (and inputs the library rejects) are evaluated with it.
\<close>

definition ascii_lower :: "nat \<Rightarrow> nat" where
  "ascii_lower c = (if 65 \<le> c \<and> c \<le> 90 then c + 32 else c)"

definition is_lower_alpha :: "nat \<Rightarrow> bool" where
  "is_lower_alpha c = (97 \<le> c \<and> c \<le> 122)"

definition dec_value :: "jsstring \<Rightarrow> nat" where
  "dec_value s = foldl (\<lambda>n c. 10 * n + (c - 48)) 0 s"

definition quad_part :: "jsstring \<Rightarrow> bool" where
  "quad_part l =
     (l \<noteq> [] \<and> length l \<le> 3 \<and> list_all is_digit l \<and> (length l = 1 \<or> hd l \<noteq> 48)
      \<and> dec_value l \<le> 255)"

definition basic_host :: "jsstring \<Rightarrow> bool" where
  "basic_host h =
     (let labels = split_on 46 h in
      list_all (\<lambda>l. l \<noteq> [] \<and> list_all (\<lambda>c. is_lower_alpha c \<or> is_digit c \<or> c = 45) l) labels
      \<and> \<not> str_includes h (str ''xn--'')
      \<and> (list_all is_lower_alpha (last labels)
          \<or> (length labels = 4 \<and> list_all quad_part labels)))"

definition basic_path :: "jsstring \<Rightarrow> bool" where
  "basic_path p =
     list_all (\<lambda>c. is_lower_alpha c \<or> (65 \<le> c \<and> c \<le> 90) \<or> is_digit c \<or> c = 47 \<or> c = 95 \<or> c = 45) p"

definition basic_URL_parse :: "jsstring \<Rightarrow> (jsstring \<times> jsstring \<times> jsstring) option" where
  "basic_URL_parse u =
     (let rest = (if startsWith u (str ''https://'') then Some (drop 8 u)
                  else if startsWith u (str ''http://'') then Some (drop 7 u) else None)
      in case rest of
           None \<Rightarrow> None
         | Some r \<Rightarrow>
             (let h = takeWhile (\<lambda>c. c \<noteq> 47) r; p = dropWhile (\<lambda>c. c \<noteq> 47) r
              in if basic_host h \<and> basic_path p
                 then Some (h, if p = [] then str ''/'' else p, [])
                 else None))"

definition basic_runtime :: js_runtime where
  "basic_runtime = \<lparr>toLowerCase = map ascii_lower, URL_parse = basic_URL_parse\<rparr>"


section \<open>Notions for the statements\<close>

text \<open>A check never lowers the score.\<close>

definition grows :: "(acc \<Rightarrow> acc) \<Rightarrow> bool" where
  "grows c = (\<forall>a. acc_score a \<le> acc_score (c a))"

text \<open>
  The values of a list in the order of their first occurrence, without those \<open>seen\<close>
  before: what pushing each value unless it is already there leaves.
\<close>

fun keep_first :: "'a set \<Rightarrow> 'a list \<Rightarrow> 'a list" where
  "keep_first seen [] = []"
| "keep_first seen (x # xs) =
     (if x \<in> seen then keep_first seen xs else x # keep_first (insert x seen) xs)"

text \<open>The rules of the catalog that fire on a text, in catalog order.\<close>

definition fired_rules :: "jsstring \<Rightarrow> (string \<times> Rule) list" where
  "fired_rules textLower = filter (\<lambda>nr. rule_matches (snd nr) textLower) MESSAGE_RULES"

text \<open>The damped contributions of an embedded URL and of an embedded phone number.\<close>

definition url_contribution :: "js_runtime \<Rightarrow> jsstring \<Rightarrow> int" where
  "url_contribution rt url = min (riskScore (analyzeUrl rt url) div 2) 30"

definition phone_contribution :: "jsstring \<Rightarrow> int" where
  "phone_contribution phone = min (riskScore (analyzePhone phone) div 3) 15"

text \<open>
  The flags of the URL analyzer and of the phone analyzer in the source order of the checks
  that raise them, the position of a flag in such a list, and what it means for a list of
  flags to follow that order.
\<close>

definition URL_FLAG_ORDER :: "string list" where
  "URL_FLAG_ORDER = [''ip_based_url'', ''punycode_domain'', ''userinfo_in_url'', ''no_https'',
     ''suspicious_tld'', ''url_shortener'', ''brand_spoofing'', ''suspicious_path_token'',
     ''excessive_subdomains'', ''suspicious_long_url'', ''random_string_url'',
     ''weird_domain_chars'']"

definition PHONE_FLAG_ORDER :: "string list" where
  "PHONE_FLAG_ORDER = [''foreign_country_code'', ''suspicious_number_length'',
     ''invalid_number_pattern'', ''suspicious_repeated_digits'']"

fun index_of :: "'a list \<Rightarrow> 'a \<Rightarrow> nat" where
  "index_of [] x = 0"
| "index_of (y # ys) x = (if x = y then 0 else Suc (index_of ys x))"

definition in_order :: "string list \<Rightarrow> string list \<Rightarrow> bool" where
  "in_order order fs =
     (sorted_wrt (\<lambda>f g. index_of order f < index_of order g) fs \<and> set fs \<subseteq> set order)"

text \<open>The flags so far follow the order and lie before position \<open>k\<close>.\<close>

definition below :: "string list \<Rightarrow> nat \<Rightarrow> acc \<Rightarrow> bool" where
  "below order k a =
     (in_order order (acc_flags a) \<and> list_all (\<lambda>f. index_of order f < k) (acc_flags a))"

text \<open>The details are parallel to the flags.\<close>

definition parallel :: "acc \<Rightarrow> bool" where
  "parallel a = (map flag (acc_details a) = acc_flags a)"

text \<open>No flag and no points, or a flag and at least \<open>m\<close> points.\<close>

definition scored :: "int \<Rightarrow> acc \<Rightarrow> bool" where
  "scored m a =
     (if acc_flags a = [] then acc_score a = 0 else m \<le> acc_score a)"

text \<open>Five equal digits in a row somewhere in a string.\<close>

definition has_digit_run :: "jsstring \<Rightarrow> bool" where
  "has_digit_run s =
     (\<exists>i c. is_digit c \<and> i + 5 \<le> length s \<and> (\<forall>j<5. s ! (i + j) = c))"

text \<open>A host that is an IP literal: four dot-separated groups of decimal digits.\<close>

definition ip_literal :: "jsstring \<Rightarrow> bool" where
  "ip_literal h =
     (length (split_on 46 h) = 4 \<and> list_all (\<lambda>g. g \<noteq> [] \<and> list_all is_digit g) (split_on 46 h))"

text \<open>
  The analysis a response carries, if it is not an error; and the explanation collaborator
  as it is without an API key: \<open>getGeminiExplanation\<close> then returns \<open>null\<close> at once.
\<close>

definition response_result :: "http_response \<Rightarrow> FullAnalysisResult option" where
  "response_result r = (case r of Error_response status msg \<Rightarrow> None | Json_response res \<Rightarrow> Some res)"

definition no_explainer :: explainer where
  "no_explainer ty score fs lang input = None"

definition SUPPORTED_TYPES :: "jsstring list" where
  "SUPPORTED_TYPES = map str [''message'', ''url'', ''phone'', ''auto'']"

section \<open>The accumulator: basic facts\<close>

lemma acc_add_score [simp]:
  "acc_score (add_score n a) = acc_score a + n"
  "acc_flags (add_score n a) = acc_flags a"
  "acc_details (add_score n a) = acc_details a"
  by (simp_all add: add_score_def)

lemma acc_push_flag [simp]:
  "acc_score (push_flag f a) = acc_score a"
  "acc_flags (push_flag f a) = acc_flags a @ [f]"
  "acc_details (push_flag f a) = acc_details a"
  by (simp_all add: push_flag_def)

lemma acc_push_detail [simp]:
  "acc_score (push_detail r f n a) = acc_score a"
  "acc_flags (push_detail r f n a) = acc_flags a"
  "acc_details (push_detail r f n a) = acc_details a @ [\<lparr>rule = r, flag = f, points = n\<rparr>]"
  by (simp_all add: push_detail_def)

lemma acc_hit [simp]:
  "acc_score (hit r f n a) = acc_score a + n"
  "acc_flags (hit r f n a) = acc_flags a @ [f]"
  "acc_details (hit r f n a) = acc_details a @ [\<lparr>rule = r, flag = f, points = n\<rparr>]"
  by (simp_all add: hit_def)

lemma acc_hit_once [simp]:
  "acc_score (hit_once r f n a) = acc_score a + n"
  "acc_flags (hit_once r f n a) = (if f \<in> set (acc_flags a) then acc_flags a else acc_flags a @ [f])"
  "acc_details (hit_once r f n a) =
     (if f \<in> set (acc_flags a) then acc_details a
      else acc_details a @ [\<lparr>rule = r, flag = f, points = n\<rparr>])"
  by (simp_all add: hit_once_def)

lemma acc_acc0 [simp]:
  "acc_score acc0 = 0" "acc_flags acc0 = []" "acc_details acc0 = []"
  by (simp_all add: acc0_def)

lemma finish_fields [simp]:
  "riskScore (finish a us ps) = min (acc_score a) 100"
  "riskLevel (finish a us ps) = calculateRiskLevel (min (acc_score a) 100)"
  "flags (finish a us ps) = acc_flags a"
  "details (finish a us ps) = acc_details a"
  "embeddedUrls (finish a us ps) = us"
  "embeddedPhones (finish a us ps) = ps"
  by (simp_all add: finish_def)

lemma acc_merge_flags [simp]:
  "acc_score (merge_flags fs a) = acc_score a"
  "acc_details (merge_flags fs a) = acc_details a"
  by (induction fs arbitrary: a) simp_all

text \<open>The checks of the URL and phone analyzers, and their folded loops, by name.\<close>

lemmas url_checks = check_ip_def check_punycode_def check_userinfo_def check_no_https_def
  check_tld_def check_shortener_def check_brand_def check_subdomains_def check_long_def
  check_random_def check_weird_def

lemmas phone_checks = check_foreign_def check_length_def check_pattern_def check_repeated_def
  check_sequence_def

subsection \<open>Scores only grow\<close>

lemma grows_comp: "grows f \<Longrightarrow> grows g \<Longrightarrow> grows (f \<circ> g)"
  unfolding grows_def by (metis comp_apply order_trans)

lemma grows_fold: "(\<And>x. x \<in> set xs \<Longrightarrow> grows (f x)) \<Longrightarrow> grows (fold f xs)"
proof (induction xs)
  case Nil
  show ?case by (simp add: grows_def)
next
  case (Cons x xs)
  have "grows (fold f xs \<circ> f x)"
    by (rule grows_comp) (simp_all add: Cons)
  then show ?case by (simp add: grows_def)
qed

lemma grows_path_token_step: "grows (path_token_step cp tok)"
  by (simp add: grows_def path_token_step_def)

lemma grows_url_checks:
  "grows (check_ip ul)" "grows (check_punycode d)" "grows (check_userinfo ul)"
  "grows (check_no_https ul)" "grows (check_tld d)" "grows (check_shortener d)"
  "grows (check_brand rt d)" "grows (check_path_tokens cp)" "grows (check_subdomains d)"
  "grows (check_long u)" "grows (check_random ul)" "grows (check_weird d)"
  by (simp_all add: grows_def url_checks)
     (simp add: check_path_tokens_def grows_fold grows_path_token_step flip: grows_def)

lemma grows_phone_checks:
  "grows (check_foreign c)" "grows (check_length d)" "grows (check_pattern d)"
  "grows (check_repeated d)" "grows (check_sequence d)"
  by (simp_all add: grows_def phone_checks)

lemma analyzeUrl_acc_nonneg: "0 \<le> acc_score (analyzeUrl_acc rt url)"
proof -
  have "grows (check_weird d \<circ> check_random ul \<circ> check_long u \<circ> check_subdomains d
          \<circ> check_path_tokens cp \<circ> check_brand rt d \<circ> check_shortener d
          \<circ> check_tld d \<circ> check_no_https ul \<circ> check_userinfo ul
          \<circ> check_punycode d \<circ> check_ip ul)" for d ul u cp
    by (intro grows_comp grows_url_checks)
  then show ?thesis
    unfolding analyzeUrl_acc_def Let_def grows_def by (metis acc_acc0(1))
qed

lemma analyzePhone_acc_nonneg: "0 \<le> acc_score (analyzePhone_acc phone)"
proof -
  have "grows (check_sequence d \<circ> check_repeated d \<circ> check_pattern d \<circ> check_length d
          \<circ> check_foreign c)" for d c
    by (intro grows_comp grows_phone_checks)
  then show ?thesis
    unfolding analyzePhone_acc_def grows_def by (metis acc_acc0(1))
qed


subsection \<open>Merging flags\<close>

lemma keep_first_append:
  "keep_first S (xs @ ys) = keep_first S xs @ keep_first (S \<union> set xs) ys"
  by (induction xs arbitrary: S) (simp_all add: insert_absorb)

lemma set_keep_first: "set (keep_first S xs) = set xs - S"
  by (induction xs arbitrary: S) auto

lemma distinct_keep_first: "distinct (keep_first S xs)"
  by (induction xs arbitrary: S) (simp_all add: set_keep_first)

lemma keep_first_distinct: "distinct xs \<Longrightarrow> set xs \<inter> S = {} \<Longrightarrow> keep_first S xs = xs"
  by (induction xs arbitrary: S) auto

lemma flags_merge_flags:
  "acc_flags (merge_flags fs a) = acc_flags a @ keep_first (set (acc_flags a)) fs"
proof (induction fs arbitrary: a)
  case Nil
  show ?case by simp
next
  case (Cons f fs)
  show ?case
  proof (cases "f \<in> set (acc_flags a)")
    case True
    then show ?thesis by (simp add: Cons)
  next
    case False
    have "insert f (set (acc_flags a)) = set (acc_flags a) \<union> {f}" by simp
    with False show ?thesis by (simp add: Cons)
  qed
qed

subsection \<open>The rule loop\<close>

lemma run_rules_fold:
  assumes "distinct (map (\<lambda>nr. rule_flag (snd nr)) rs)"
    and "set (acc_flags a) \<inter> set (map (\<lambda>nr. rule_flag (snd nr)) rs) = {}"
  shows "acc_flags (fold (rule_step tx) rs a) =
           acc_flags a @ map (\<lambda>nr. rule_flag (snd nr)) (filter (\<lambda>nr. rule_matches (snd nr) tx) rs)
       \<and> acc_details (fold (rule_step tx) rs a) =
           acc_details a @ map (\<lambda>nr. \<lparr>rule = fst nr, flag = rule_flag (snd nr), points = weight (snd nr)\<rparr>)
             (filter (\<lambda>nr. rule_matches (snd nr) tx) rs)
       \<and> acc_score (fold (rule_step tx) rs a) =
           acc_score a + sum_list (map (\<lambda>nr. weight (snd nr)) (filter (\<lambda>nr. rule_matches (snd nr) tx) rs))"
  using assms
proof (induction rs arbitrary: a)
  case Nil
  show ?case by simp
next
  case (Cons nr rs)
  let ?a = "rule_step tx nr a"
  have fl: "acc_flags ?a = acc_flags a @ (if rule_matches (snd nr) tx then [rule_flag (snd nr)] else [])"
    using Cons.prems(2) by (simp add: rule_step_def)
  have dt: "acc_details ?a = acc_details a @
      (if rule_matches (snd nr) tx
       then [\<lparr>rule = fst nr, flag = rule_flag (snd nr), points = weight (snd nr)\<rparr>] else [])"
    using Cons.prems(2) by (simp add: rule_step_def)
  have sc: "acc_score ?a = acc_score a + (if rule_matches (snd nr) tx then weight (snd nr) else 0)"
    by (simp add: rule_step_def)
  have d: "distinct (map (\<lambda>nr. rule_flag (snd nr)) rs)"
    using Cons.prems(1) by simp
  have i: "set (acc_flags ?a) \<inter> set (map (\<lambda>nr. rule_flag (snd nr)) rs) = {}"
  proof -
    have "rule_flag (snd nr) \<notin> set (map (\<lambda>nr. rule_flag (snd nr)) rs)"
      using Cons.prems(1) by simp
    moreover have "set (acc_flags a) \<inter> set (map (\<lambda>nr. rule_flag (snd nr)) rs) = {}"
      using Cons.prems(2) by auto
    ultimately show ?thesis
      unfolding fl by (cases "rule_matches (snd nr) tx") auto
  qed
  show ?case
    using Cons.IH [OF d i] by (simp add: fl dt sc)
qed


lemma rule_flags [simp]:
  "rule_flag rule_urgency = ''urgency_pressure''"
  "rule_flag rule_otp_kyc = ''otp_kyc_request''"
  "rule_flag rule_account_threat = ''account_threat''"
  "rule_flag rule_lottery_reward = ''lottery_reward_bait''"
  "rule_flag rule_job_scam = ''suspicious_job_offer''"
  "rule_flag rule_authority = ''authority_impersonation''"
  "rule_flag rule_money_request = ''money_request''"
  "rule_flag rule_poor_grammar = ''poor_grammar''"
  "rule_flag rule_embedded_link = ''contains_link''"
  "rule_flag rule_delivery_scam = ''delivery_scam''"
  "rule_flag rule_loan_scam = ''loan_scam''"
  "rule_flag rule_investment_scam = ''investment_scam''"
  "rule_flag rule_whatsapp_forward = ''chain_message''"
  by (simp_all add: rule_urgency_def rule_otp_kyc_def rule_account_threat_def rule_lottery_reward_def rule_job_scam_def rule_authority_def rule_money_request_def rule_poor_grammar_def rule_embedded_link_def rule_delivery_scam_def rule_loan_scam_def rule_investment_scam_def rule_whatsapp_forward_def)

lemma rule_weights [simp]:
  "weight rule_urgency = 18"
  "weight rule_otp_kyc = 25"
  "weight rule_account_threat = 22"
  "weight rule_lottery_reward = 25"
  "weight rule_job_scam = 22"
  "weight rule_authority = 18"
  "weight rule_money_request = 22"
  "weight rule_poor_grammar = 10"
  "weight rule_embedded_link = 12"
  "weight rule_delivery_scam = 18"
  "weight rule_loan_scam = 20"
  "weight rule_investment_scam = 25"
  "weight rule_whatsapp_forward = 12"
  by (simp_all add: rule_urgency_def rule_otp_kyc_def rule_account_threat_def rule_lottery_reward_def rule_job_scam_def rule_authority_def rule_money_request_def rule_poor_grammar_def rule_embedded_link_def rule_delivery_scam_def rule_loan_scam_def rule_investment_scam_def rule_whatsapp_forward_def)

lemma MESSAGE_RULES_flags:
  "map (\<lambda>nr. rule_flag (snd nr)) MESSAGE_RULES =
     [''urgency_pressure'', ''otp_kyc_request'', ''account_threat'', ''lottery_reward_bait'',
      ''suspicious_job_offer'', ''authority_impersonation'', ''money_request'', ''poor_grammar'',
      ''contains_link'', ''delivery_scam'', ''loan_scam'', ''investment_scam'', ''chain_message'']"
  by (simp add: MESSAGE_RULES_def)

lemma MESSAGE_RULES_weights:
  "map (\<lambda>nr. weight (snd nr)) MESSAGE_RULES = [18, 25, 22, 25, 22, 18, 22, 10, 12, 18, 20, 25, 12]"
  by (simp add: MESSAGE_RULES_def)

lemma MESSAGE_RULES_distinct: "distinct (map (\<lambda>nr. rule_flag (snd nr)) MESSAGE_RULES)"
  unfolding MESSAGE_RULES_flags by simp

lemma MESSAGE_RULES_weight_ge: "nr \<in> set MESSAGE_RULES \<Longrightarrow> 10 \<le> weight (snd nr)"
proof -
  assume "nr \<in> set MESSAGE_RULES"
  then have "weight (snd nr) \<in> set (map (\<lambda>nr. weight (snd nr)) MESSAGE_RULES)"
    by (simp add: image_iff) blast
  then show ?thesis unfolding MESSAGE_RULES_weights by auto
qed

lemma run_rules_acc0:
  "acc_flags (run_rules tx acc0) = map (\<lambda>nr. rule_flag (snd nr)) (fired_rules tx)"
  "acc_details (run_rules tx acc0) =
     map (\<lambda>nr. \<lparr>rule = fst nr, flag = rule_flag (snd nr), points = weight (snd nr)\<rparr>) (fired_rules tx)"
  "acc_score (run_rules tx acc0) = sum_list (map (\<lambda>nr. weight (snd nr)) (fired_rules tx))"
  using run_rules_fold [of MESSAGE_RULES acc0 tx] MESSAGE_RULES_distinct
  by (simp_all add: run_rules_def fired_rules_def)

lemma fired_rules_distinct: "distinct (map (\<lambda>nr. rule_flag (snd nr)) (fired_rules tx))"
  unfolding fired_rules_def using MESSAGE_RULES_distinct by (rule distinct_map_filter)

lemma fired_rules_weight_ge: "nr \<in> set (fired_rules tx) \<Longrightarrow> 10 \<le> weight (snd nr)"
  by (simp add: fired_rules_def MESSAGE_RULES_weight_ge)

lemma fired_rules_score_nonneg: "0 \<le> sum_list (map (\<lambda>nr. weight (snd nr)) (fired_rules tx))"
  by (rule sum_list_nonneg) (auto dest: fired_rules_weight_ge)

subsection \<open>The embedded entities\<close>

lemma acc_embed_url [simp]:
  "acc_score (embed_url rt u a) = acc_score a + url_contribution rt u"
  "acc_details (embed_url rt u a) = acc_details a"
  "acc_flags (embed_url rt u a) =
     acc_flags a @ keep_first (set (acc_flags a)) (flags (analyzeUrl rt u))"
  by (simp_all add: embed_url_def url_contribution_def Let_def flags_merge_flags)

lemma acc_embed_phone [simp]:
  "acc_score (embed_phone p a) = acc_score a + phone_contribution p"
  "acc_details (embed_phone p a) = acc_details a"
  "acc_flags (embed_phone p a) =
     acc_flags a @ keep_first (set (acc_flags a)) (flags (analyzePhone p))"
  by (simp_all add: embed_phone_def phone_contribution_def Let_def flags_merge_flags)

lemma fold_embed_url:
  "acc_score (fold (embed_url rt) us a) = acc_score a + sum_list (map (url_contribution rt) us)"
  "acc_details (fold (embed_url rt) us a) = acc_details a"
  "acc_flags (fold (embed_url rt) us a) =
     acc_flags a @ keep_first (set (acc_flags a)) (concat (map (\<lambda>u. flags (analyzeUrl rt u)) us))"
  by (induction us arbitrary: a)
     (simp_all add: keep_first_append set_keep_first)

lemma fold_embed_phone:
  "acc_score (fold embed_phone ps a) = acc_score a + sum_list (map phone_contribution ps)"
  "acc_details (fold embed_phone ps a) = acc_details a"
  "acc_flags (fold embed_phone ps a) =
     acc_flags a @ keep_first (set (acc_flags a)) (concat (map (\<lambda>p. flags (analyzePhone p)) ps))"
  by (induction ps arbitrary: a)
     (simp_all add: keep_first_append set_keep_first)

subsection \<open>analyzeMessage in closed form\<close>

lemma analyzeMessage_acc_score:
  "acc_score (analyzeMessage_acc rt text) =
     sum_list (map (\<lambda>nr. weight (snd nr)) (fired_rules (toLowerCase rt text)))
     + sum_list (map (url_contribution rt) (take 2 (extractUrls text)))
     + sum_list (map phone_contribution (take 2 (extractPhones text)))"
  by (simp add: analyzeMessage_acc_def fold_embed_url fold_embed_phone run_rules_acc0)

lemma analyzeMessage_acc_details:
  "acc_details (analyzeMessage_acc rt text) =
     map (\<lambda>nr. \<lparr>rule = fst nr, flag = rule_flag (snd nr), points = weight (snd nr)\<rparr>)
       (fired_rules (toLowerCase rt text))"
  by (simp add: analyzeMessage_acc_def fold_embed_url fold_embed_phone run_rules_acc0)

lemma analyzeMessage_acc_flags_split:
  "acc_flags (analyzeMessage_acc rt text) =
     map (\<lambda>nr. rule_flag (snd nr)) (fired_rules (toLowerCase rt text))
     @ keep_first (set (map (\<lambda>nr. rule_flag (snd nr)) (fired_rules (toLowerCase rt text))))
         (concat (map (\<lambda>u. flags (analyzeUrl rt u)) (take 2 (extractUrls text)))
          @ concat (map (\<lambda>p. flags (analyzePhone p)) (take 2 (extractPhones text))))"
  by (simp add: analyzeMessage_acc_def fold_embed_url fold_embed_phone run_rules_acc0
      keep_first_append set_keep_first)

lemma analyzeMessage_acc_flags:
  "acc_flags (analyzeMessage_acc rt text) =
     keep_first {}
       (map (\<lambda>nr. rule_flag (snd nr)) (fired_rules (toLowerCase rt text))
        @ concat (map (\<lambda>u. flags (analyzeUrl rt u)) (take 2 (extractUrls text)))
        @ concat (map (\<lambda>p. flags (analyzePhone p)) (take 2 (extractPhones text))))"
proof -
  have "keep_first {} (map (\<lambda>nr. rule_flag (snd nr)) (fired_rules (toLowerCase rt text)))
      = map (\<lambda>nr. rule_flag (snd nr)) (fired_rules (toLowerCase rt text))"
    by (rule keep_first_distinct) (simp_all add: fired_rules_distinct)
  then show ?thesis
    unfolding analyzeMessage_acc_flags_split keep_first_append [of "{}"] by simp
qed

lemma url_contribution_nonneg: "0 \<le> url_contribution rt u"
  using analyzeUrl_acc_nonneg [of rt u] by (simp add: url_contribution_def analyzeUrl_def)

lemma phone_contribution_nonneg: "0 \<le> phone_contribution p"
  using analyzePhone_acc_nonneg [of p] by (simp add: phone_contribution_def analyzePhone_def)

lemma analyzeMessage_acc_nonneg: "0 \<le> acc_score (analyzeMessage_acc rt text)"
proof -
  have "0 \<le> sum_list (map (url_contribution rt) (take 2 (extractUrls text)))"
    by (rule sum_list_nonneg) (auto simp: url_contribution_nonneg)
  moreover have "0 \<le> sum_list (map phone_contribution (take 2 (extractPhones text)))"
    by (rule sum_list_nonneg) (auto simp: phone_contribution_nonneg)
  ultimately show ?thesis
    unfolding analyzeMessage_acc_score
    using fired_rules_score_nonneg [of "toLowerCase rt text"] by linarith
qed

subsection \<open>The dispatcher\<close>

lemma dispatch_cases:
  "dispatch rt ty n = analyzeUrl rt n \<or> dispatch rt ty n = analyzePhone n
   \<or> dispatch rt ty n = analyzeMessage rt n"
  by (simp add: dispatch_def)

lemma analyze_fields [simp]:
  "riskScore (analyze rt input ty) =
     riskScore (dispatch rt (resolve_type ty (normalizeInput input)) (normalizeInput input))"
  "riskLevel (analyze rt input ty) =
     riskLevel (dispatch rt (resolve_type ty (normalizeInput input)) (normalizeInput input))"
  "flags (analyze rt input ty) =
     flags (dispatch rt (resolve_type ty (normalizeInput input)) (normalizeInput input))"
  "details (analyze rt input ty) =
     details (dispatch rt (resolve_type ty (normalizeInput input)) (normalizeInput input))"
  "embeddedUrls (analyze rt input ty) =
     embeddedUrls (dispatch rt (resolve_type ty (normalizeInput input)) (normalizeInput input))"
  "embeddedPhones (analyze rt input ty) =
     embeddedPhones (dispatch rt (resolve_type ty (normalizeInput input)) (normalizeInput input))"
  "inputType (analyze rt input ty) = resolve_type ty (normalizeInput input)"
  "language (analyze rt input ty) = detectLanguage (normalizeInput input)"
  by (simp_all add: analyze_def Let_def)

lemma riskScore_bounds:
  "0 \<le> riskScore (analyzeUrl rt u) \<and> riskScore (analyzeUrl rt u) \<le> 100"
  "0 \<le> riskScore (analyzePhone p) \<and> riskScore (analyzePhone p) \<le> 100"
  "0 \<le> riskScore (analyzeMessage rt t) \<and> riskScore (analyzeMessage rt t) \<le> 100"
  using analyzeUrl_acc_nonneg [of rt u] analyzePhone_acc_nonneg [of p]
    analyzeMessage_acc_nonneg [of rt t]
  by (simp_all add: analyzeUrl_def analyzePhone_def analyzeMessage_def)

lemma riskLevel_of_score:
  "riskLevel (analyzeUrl rt u) = calculateRiskLevel (riskScore (analyzeUrl rt u))"
  "riskLevel (analyzePhone p) = calculateRiskLevel (riskScore (analyzePhone p))"
  "riskLevel (analyzeMessage rt t) = calculateRiskLevel (riskScore (analyzeMessage rt t))"
  by (simp_all add: analyzeUrl_def analyzePhone_def analyzeMessage_def)

section \<open>Invariants of the URL and phone analyzers\<close>

lemma analyzeUrl_acc_unfold:
  "analyzeUrl_acc rt url =
     check_weird (url_domain rt url) (check_random (toLowerCase rt url) (check_long url
       (check_subdomains (url_domain rt url)
          (check_path_tokens (url_pathname rt url @ str '' '' @ toLowerCase rt url)
             (check_brand rt (url_domain rt url) (check_shortener (url_domain rt url)
                (check_tld (url_domain rt url) (check_no_https (toLowerCase rt url)
                   (check_userinfo (toLowerCase rt url) (check_punycode (url_domain rt url)
                      (check_ip (toLowerCase rt url) acc0)))))))))))"
  by (simp add: analyzeUrl_acc_def Let_def)

lemma analyzePhone_acc_unfold:
  "analyzePhone_acc phone =
     check_sequence (digitsOnly phone) (check_repeated (digitsOnly phone)
       (check_pattern (digitsOnly phone) (check_length (digitsOnly phone)
          (check_foreign (cleanPhone phone) acc0))))"
  by (simp add: analyzePhone_acc_def)

subsection \<open>Details parallel to flags\<close>

lemma parallel_acc0: "parallel acc0"
  by (simp add: parallel_def)

lemma parallel_hit: "parallel a \<Longrightarrow> parallel (hit r f n a)"
  by (simp add: parallel_def)

lemma parallel_hit_once: "parallel a \<Longrightarrow> parallel (hit_once r f n a)"
  by (simp add: parallel_def)

lemma parallel_fold:
  "(\<And>x a. parallel a \<Longrightarrow> parallel (f x a)) \<Longrightarrow> parallel a \<Longrightarrow> parallel (fold f xs a)"
  by (induction xs arbitrary: a) simp_all

lemma parallel_path_tokens: "parallel a \<Longrightarrow> parallel (check_path_tokens cp a)"
  unfolding check_path_tokens_def
  by (rule parallel_fold) (simp_all add: path_token_step_def parallel_hit_once)

lemma parallel_url_checks:
  "parallel a \<Longrightarrow> parallel (check_ip ul a)"
  "parallel a \<Longrightarrow> parallel (check_punycode d a)"
  "parallel a \<Longrightarrow> parallel (check_userinfo ul a)"
  "parallel a \<Longrightarrow> parallel (check_no_https ul a)"
  "parallel a \<Longrightarrow> parallel (check_tld d a)"
  "parallel a \<Longrightarrow> parallel (check_shortener d a)"
  "parallel a \<Longrightarrow> parallel (check_brand rt d a)"
  "parallel a \<Longrightarrow> parallel (check_subdomains d a)"
  "parallel a \<Longrightarrow> parallel (check_long u a)"
  "parallel a \<Longrightarrow> parallel (check_random ul a)"
  "parallel a \<Longrightarrow> parallel (check_weird d a)"
  by (simp_all add: url_checks parallel_hit)

lemma parallel_phone_checks:
  "parallel a \<Longrightarrow> parallel (check_foreign c a)"
  "parallel a \<Longrightarrow> parallel (check_length d a)"
  "parallel a \<Longrightarrow> parallel (check_pattern d a)"
  "parallel a \<Longrightarrow> parallel (check_repeated d a)"
  "parallel a \<Longrightarrow> parallel (check_sequence d a)"
  by (simp_all add: phone_checks parallel_hit)

lemma parallel_analyzeUrl_acc: "parallel (analyzeUrl_acc rt url)"
  unfolding analyzeUrl_acc_unfold
  by (intro parallel_url_checks parallel_path_tokens parallel_acc0)

lemma parallel_analyzePhone_acc: "parallel (analyzePhone_acc phone)"
  unfolding analyzePhone_acc_unfold
  by (intro parallel_phone_checks parallel_acc0)

subsection \<open>Flags in check order\<close>

lemma index_of_less: "x \<in> set xs \<Longrightarrow> index_of xs x < length xs"
  by (induction xs) auto

lemma index_of_nth: "x \<in> set xs \<Longrightarrow> xs ! index_of xs x = x"
  by (induction xs) auto

lemma index_of_inj: "x \<in> set xs \<Longrightarrow> y \<in> set xs \<Longrightarrow> index_of xs x = index_of xs y \<Longrightarrow> x = y"
  by (metis index_of_nth)

lemma in_order_distinct: "in_order order fs \<Longrightarrow> distinct fs"
  unfolding in_order_def
  by (induction fs) auto

lemma below_acc0: "below order 0 acc0"
  by (simp add: below_def in_order_def)

lemma below_mono: "below order k a \<Longrightarrow> k \<le> k' \<Longrightarrow> below order k' a"
  by (auto simp: below_def list_all_iff)

lemma below_hit:
  assumes "below order k a" and "f \<in> set order" and "k \<le> index_of order f"
  shows "below order (Suc (index_of order f)) (hit r f n a)"
  using assms
  by (auto simp: below_def in_order_def list_all_iff sorted_wrt_append)

lemma below_hit_once:
  assumes "below order (Suc (index_of order f)) a" and "f \<in> set order"
  shows "below order (Suc (index_of order f)) (hit_once r f n a)"
proof (cases "f \<in> set (acc_flags a)")
  case True
  with assms show ?thesis by (simp add: below_def)
next
  case False
  have "index_of order g < index_of order f" if "g \<in> set (acc_flags a)" for g
  proof -
    from that assms(1) have "index_of order g < Suc (index_of order f)" and "g \<in> set order"
      by (auto simp: below_def in_order_def list_all_iff)
    moreover from that False have "g \<noteq> f" by auto
    ultimately show ?thesis
      using index_of_inj [OF \<open>g \<in> set order\<close> assms(2)] by fastforce
  qed
  with False assms show ?thesis
    by (auto simp: below_def in_order_def list_all_iff sorted_wrt_append)
qed

lemma below_step:
  assumes "below order k a" and "f \<in> set order" and "index_of order f = k" and "k' = Suc k"
  shows "below order k' (if c then hit r f n a else a)"
proof (cases c)
  case True
  with below_hit [of order k a f r n] assms show ?thesis by simp
next
  case False
  with below_mono [of order k a "Suc k"] assms show ?thesis by simp
qed

lemma below_check_ip: "below URL_FLAG_ORDER 0 a \<Longrightarrow> below URL_FLAG_ORDER 1 (check_ip ul a)"
  unfolding check_ip_def by (rule below_step [where k = 0]) (simp_all add: URL_FLAG_ORDER_def)

lemma below_check_punycode: "below URL_FLAG_ORDER 1 a \<Longrightarrow> below URL_FLAG_ORDER 2 (check_punycode d a)"
  unfolding check_punycode_def by (rule below_step [where k = 1]) (simp_all add: URL_FLAG_ORDER_def)

lemma below_check_userinfo: "below URL_FLAG_ORDER 2 a \<Longrightarrow> below URL_FLAG_ORDER 3 (check_userinfo ul a)"
  unfolding check_userinfo_def by (rule below_step [where k = 2]) (simp_all add: URL_FLAG_ORDER_def)

lemma below_check_no_https: "below URL_FLAG_ORDER 3 a \<Longrightarrow> below URL_FLAG_ORDER 4 (check_no_https ul a)"
  unfolding check_no_https_def by (rule below_step [where k = 3]) (simp_all add: URL_FLAG_ORDER_def)

lemma below_check_tld: "below URL_FLAG_ORDER 4 a \<Longrightarrow> below URL_FLAG_ORDER 5 (check_tld d a)"
  unfolding check_tld_def by (rule below_step [where k = 4]) (simp_all add: URL_FLAG_ORDER_def)

lemma below_check_shortener: "below URL_FLAG_ORDER 5 a \<Longrightarrow> below URL_FLAG_ORDER 6 (check_shortener d a)"
  unfolding check_shortener_def by (rule below_step [where k = 5]) (simp_all add: URL_FLAG_ORDER_def)

lemma below_check_brand: "below URL_FLAG_ORDER 6 a \<Longrightarrow> below URL_FLAG_ORDER 7 (check_brand rt d a)"
  unfolding check_brand_def by (rule below_step [where k = 6]) (simp_all add: URL_FLAG_ORDER_def)

lemma below_check_subdomains: "below URL_FLAG_ORDER 8 a \<Longrightarrow> below URL_FLAG_ORDER 9 (check_subdomains d a)"
  unfolding check_subdomains_def by (rule below_step [where k = 8]) (simp_all add: URL_FLAG_ORDER_def)

lemma below_check_long: "below URL_FLAG_ORDER 9 a \<Longrightarrow> below URL_FLAG_ORDER 10 (check_long u a)"
  unfolding check_long_def by (rule below_step [where k = 9]) (simp_all add: URL_FLAG_ORDER_def)

lemma below_check_random: "below URL_FLAG_ORDER 10 a \<Longrightarrow> below URL_FLAG_ORDER 11 (check_random ul a)"
  unfolding check_random_def by (rule below_step [where k = 10]) (simp_all add: URL_FLAG_ORDER_def)

lemmas below_url_checks = below_check_ip below_check_punycode below_check_userinfo below_check_no_https below_check_tld below_check_shortener below_check_brand below_check_subdomains below_check_long below_check_random

lemma below_path_token_step:
  assumes "below URL_FLAG_ORDER 8 a"
  shows "below URL_FLAG_ORDER 8 (path_token_step cp tok a)"
proof -
  have idx: "Suc (index_of URL_FLAG_ORDER ''suspicious_path_token'') = 8"
    by (simp add: URL_FLAG_ORDER_def)
  have mem: "''suspicious_path_token'' \<in> set URL_FLAG_ORDER"
    by (simp add: URL_FLAG_ORDER_def)
  have "below URL_FLAG_ORDER 8 (hit_once ''suspicious_path'' ''suspicious_path_token'' 12 a)"
    using below_hit_once [of URL_FLAG_ORDER "''suspicious_path_token''" a "''suspicious_path''" 12]
      assms mem
    unfolding idx by simp
  with assms show ?thesis
    by (simp add: path_token_step_def)
qed

lemma below_fold:
  "(\<And>x a. P a \<Longrightarrow> P (f x a)) \<Longrightarrow> P a \<Longrightarrow> P (fold f xs a)"
  by (induction xs arbitrary: a) simp_all

lemma below_path_tokens:
  assumes "below URL_FLAG_ORDER 7 a"
  shows "below URL_FLAG_ORDER 8 (check_path_tokens cp a)"
proof -
  have "below URL_FLAG_ORDER 8 a"
    using assms by (rule below_mono) simp
  then show ?thesis
    unfolding check_path_tokens_def
    by (rule below_fold [where P = "below URL_FLAG_ORDER 8", rotated]) (rule below_path_token_step)
qed

lemma below_weird:
  assumes "below URL_FLAG_ORDER 11 a"
  shows "below URL_FLAG_ORDER 12 (check_weird d a)"
proof -
  have step: "below URL_FLAG_ORDER 12 (if c then hit ''weird_chars'' ''weird_domain_chars'' 6 a else a)" for c
    by (rule below_step [where k = 11, OF assms]) (simp_all add: URL_FLAG_ORDER_def)
  show ?thesis
  proof (cases "acc_flags a = [] \<and> d \<noteq> [] \<and> length (split_on 46 d) \<ge> 2 \<and> rx_test True weird_pattern d")
    case True
    then have "check_weird d a = hit ''weird_chars'' ''weird_domain_chars'' 6 a"
      by (simp add: check_weird_def)
    with step [of True] show ?thesis by simp
  next
    case False
    then have "check_weird d a = a"
      by (auto simp: check_weird_def)
    with step [of False] show ?thesis by simp
  qed
qed

lemma analyzeUrl_acc_below: "below URL_FLAG_ORDER 12 (analyzeUrl_acc rt url)"
  unfolding analyzeUrl_acc_unfold
  by (intro below_weird below_url_checks below_path_tokens below_acc0)

lemma below_check_foreign: "below PHONE_FLAG_ORDER 0 a \<Longrightarrow> below PHONE_FLAG_ORDER 1 (check_foreign c a)"
  unfolding check_foreign_def by (rule below_step [where k = 0]) (simp_all add: PHONE_FLAG_ORDER_def)

lemma below_check_length: "below PHONE_FLAG_ORDER 1 a \<Longrightarrow> below PHONE_FLAG_ORDER 2 (check_length d a)"
  unfolding check_length_def by (rule below_step [where k = 1]) (simp_all add: PHONE_FLAG_ORDER_def)

lemma below_check_pattern: "below PHONE_FLAG_ORDER 2 a \<Longrightarrow> below PHONE_FLAG_ORDER 3 (check_pattern d a)"
  unfolding check_pattern_def by (rule below_step [where k = 2]) (simp_all add: PHONE_FLAG_ORDER_def)

lemma below_check_repeated: "below PHONE_FLAG_ORDER 3 a \<Longrightarrow> below PHONE_FLAG_ORDER 4 (check_repeated d a)"
  unfolding check_repeated_def by (rule below_step [where k = 3]) (simp_all add: PHONE_FLAG_ORDER_def)

lemmas below_phone_checks = below_check_foreign below_check_length below_check_pattern below_check_repeated

lemma below_sequence:
  assumes "below PHONE_FLAG_ORDER 4 a"
  shows "below PHONE_FLAG_ORDER 4 (check_sequence d a)"
proof -
  have idx: "Suc (index_of PHONE_FLAG_ORDER ''suspicious_repeated_digits'') = 4"
    by (simp add: PHONE_FLAG_ORDER_def)
  have mem: "''suspicious_repeated_digits'' \<in> set PHONE_FLAG_ORDER"
    by (simp add: PHONE_FLAG_ORDER_def)
  have once: "below PHONE_FLAG_ORDER 4
      (hit_once ''repeated_sequence'' ''suspicious_repeated_digits'' 12 a)"
    using below_hit_once [of PHONE_FLAG_ORDER "''suspicious_repeated_digits''" a
        "''repeated_sequence''" 12] assms mem
    unfolding idx by simp
  show ?thesis
  proof (cases "''suspicious_repeated_digits'' \<in> set (acc_flags a)")
    case True
    then have "check_sequence d a = a"
      by (simp add: check_sequence_def)
    with assms show ?thesis by simp
  next
    case False
    then have "check_sequence d a =
        (if digit_run_test d
         then hit_once ''repeated_sequence'' ''suspicious_repeated_digits'' 12 a else a)"
      by (simp add: check_sequence_def hit_def hit_once_def)
    with once assms show ?thesis by simp
  qed
qed

lemma analyzePhone_acc_below: "below PHONE_FLAG_ORDER 4 (analyzePhone_acc phone)"
  unfolding analyzePhone_acc_unfold
  by (intro below_sequence below_phone_checks below_acc0)

subsection \<open>No points without a flag, no flag without points\<close>

lemma scored_acc0: "scored m acc0"
  by (simp add: scored_def)

lemma scored_hit: "0 < m \<Longrightarrow> m \<le> n \<Longrightarrow> scored m a \<Longrightarrow> scored m (hit r f n a)"
  by (auto simp: scored_def split: if_splits)

lemma scored_hit_once: "0 < m \<Longrightarrow> m \<le> n \<Longrightarrow> scored m a \<Longrightarrow> scored m (hit_once r f n a)"
  by (auto simp: scored_def split: if_splits)

lemma scored_path_tokens: "scored 6 a \<Longrightarrow> scored 6 (check_path_tokens cp a)"
  unfolding check_path_tokens_def
  by (rule below_fold [where P = "scored 6", rotated])
     (simp_all add: path_token_step_def scored_hit_once)

lemma scored_url_checks:
  "scored 6 a \<Longrightarrow> scored 6 (check_ip ul a)"
  "scored 6 a \<Longrightarrow> scored 6 (check_punycode d a)"
  "scored 6 a \<Longrightarrow> scored 6 (check_userinfo ul a)"
  "scored 6 a \<Longrightarrow> scored 6 (check_no_https ul a)"
  "scored 6 a \<Longrightarrow> scored 6 (check_tld d a)"
  "scored 6 a \<Longrightarrow> scored 6 (check_shortener d a)"
  "scored 6 a \<Longrightarrow> scored 6 (check_brand rt d a)"
  "scored 6 a \<Longrightarrow> scored 6 (check_subdomains d a)"
  "scored 6 a \<Longrightarrow> scored 6 (check_long u a)"
  "scored 6 a \<Longrightarrow> scored 6 (check_random ul a)"
  "scored 6 a \<Longrightarrow> scored 6 (check_weird d a)"
  by (simp_all add: url_checks scored_hit)

lemma scored_phone_checks:
  "scored 12 a \<Longrightarrow> scored 12 (check_foreign c a)"
  "scored 12 a \<Longrightarrow> scored 12 (check_length d a)"
  "scored 12 a \<Longrightarrow> scored 12 (check_pattern d a)"
  "scored 12 a \<Longrightarrow> scored 12 (check_repeated d a)"
  "scored 12 a \<Longrightarrow> scored 12 (check_sequence d a)"
  by (simp_all add: phone_checks scored_hit)

lemma analyzeUrl_acc_scored: "scored 6 (analyzeUrl_acc rt url)"
  unfolding analyzeUrl_acc_unfold
  by (intro scored_url_checks scored_path_tokens scored_acc0)

lemma analyzePhone_acc_scored: "scored 12 (analyzePhone_acc phone)"
  unfolding analyzePhone_acc_unfold
  by (intro scored_phone_checks scored_acc0)

subsection \<open>Consequences for the results\<close>

lemma analyzeUrl_parallel: "map flag (details (analyzeUrl rt url)) = flags (analyzeUrl rt url)"
  using parallel_analyzeUrl_acc [of rt url] by (simp add: parallel_def analyzeUrl_def)

lemma analyzePhone_parallel: "map flag (details (analyzePhone phone)) = flags (analyzePhone phone)"
  using parallel_analyzePhone_acc [of phone] by (simp add: parallel_def analyzePhone_def)

lemma analyzeUrl_in_order: "in_order URL_FLAG_ORDER (flags (analyzeUrl rt url))"
  using analyzeUrl_acc_below [of rt url] by (simp add: below_def analyzeUrl_def)

lemma analyzePhone_in_order: "in_order PHONE_FLAG_ORDER (flags (analyzePhone phone))"
  using analyzePhone_acc_below [of phone] by (simp add: below_def analyzePhone_def)

lemma analyzeMessage_flags:
  "flags (analyzeMessage rt text) =
     keep_first {}
       (map (\<lambda>nr. rule_flag (snd nr)) (fired_rules (toLowerCase rt text))
        @ concat (map (\<lambda>u. flags (analyzeUrl rt u)) (take 2 (extractUrls text)))
        @ concat (map (\<lambda>p. flags (analyzePhone p)) (take 2 (extractPhones text))))"
  by (simp add: analyzeMessage_def analyzeMessage_acc_flags)

lemma flags_distinct:
  "distinct (flags (analyzeUrl rt u))"
  "distinct (flags (analyzePhone p))"
  "distinct (flags (analyzeMessage rt t))"
proof -
  show "distinct (flags (analyzeUrl rt u))"
    by (rule in_order_distinct [OF analyzeUrl_in_order])
  show "distinct (flags (analyzePhone p))"
    by (rule in_order_distinct [OF analyzePhone_in_order])
  show "distinct (flags (analyzeMessage rt t))"
    by (simp add: analyzeMessage_flags distinct_keep_first)
qed

lemma url_score_zero_iff: "riskScore (analyzeUrl rt u) = 0 \<longleftrightarrow> flags (analyzeUrl rt u) = []"
  using analyzeUrl_acc_scored [of rt u]
  by (auto simp: scored_def analyzeUrl_def split: if_splits)

lemma phone_score_zero_iff: "riskScore (analyzePhone p) = 0 \<longleftrightarrow> flags (analyzePhone p) = []"
  using analyzePhone_acc_scored [of p]
  by (auto simp: scored_def analyzePhone_def split: if_splits)

lemma url_contribution_zero_iff: "url_contribution rt u = 0 \<longleftrightarrow> flags (analyzeUrl rt u) = []"
proof (cases "flags (analyzeUrl rt u) = []")
  case True
  then show ?thesis
    using url_score_zero_iff [of rt u] by (simp add: url_contribution_def)
next
  case False
  with analyzeUrl_acc_scored [of rt u] have "6 \<le> riskScore (analyzeUrl rt u)"
    by (simp add: scored_def analyzeUrl_def)
  then have "3 \<le> riskScore (analyzeUrl rt u) div 2" by linarith
  with False show ?thesis by (simp add: url_contribution_def)
qed

lemma phone_contribution_zero_iff: "phone_contribution p = 0 \<longleftrightarrow> flags (analyzePhone p) = []"
proof (cases "flags (analyzePhone p) = []")
  case True
  then show ?thesis
    using phone_score_zero_iff [of p] by (simp add: phone_contribution_def)
next
  case False
  with analyzePhone_acc_scored [of p] have "12 \<le> riskScore (analyzePhone p)"
    by (simp add: scored_def analyzePhone_def)
  then have "4 \<le> riskScore (analyzePhone p) div 3" by linarith
  with False show ?thesis by (simp add: phone_contribution_def)
qed

lemma sum_map_zero_iff:
  fixes f :: "'a \<Rightarrow> int"
  assumes "\<And>x. x \<in> set xs \<Longrightarrow> 0 \<le> f x"
  shows "sum_list (map f xs) = 0 \<longleftrightarrow> (\<forall>x\<in>set xs. f x = 0)"
  using assms
proof (induction xs)
  case Nil
  show ?case by simp
next
  case (Cons x xs)
  have "0 \<le> f x"
    using Cons.prems by simp
  moreover have "0 \<le> sum_list (map f xs)"
    by (rule sum_list_nonneg) (use Cons.prems in auto)
  ultimately have "f x + sum_list (map f xs) = 0 \<longleftrightarrow> f x = 0 \<and> sum_list (map f xs) = 0"
    by linarith
  with Cons show ?case by simp
qed

lemma message_score_zero_iff:
  "riskScore (analyzeMessage rt text) = 0 \<longleftrightarrow> flags (analyzeMessage rt text) = []"
proof -
  let ?R = "fired_rules (toLowerCase rt text)"
  let ?us = "take 2 (extractUrls text)"
  let ?ps = "take 2 (extractPhones text)"
  let ?w = "sum_list (map (\<lambda>nr. weight (snd nr)) ?R)"
  let ?cu = "sum_list (map (url_contribution rt) ?us)"
  let ?cp = "sum_list (map phone_contribution ?ps)"
  have pos: "0 \<le> weight (snd nr)" if "nr \<in> set ?R" for nr
    using fired_rules_weight_ge [OF that] by simp
  have "?w = 0 \<longleftrightarrow> (\<forall>nr\<in>set ?R. weight (snd nr) = 0)"
    by (rule sum_map_zero_iff) (rule pos)
  also have "\<dots> \<longleftrightarrow> ?R = []"
  proof
    assume zero: "\<forall>nr\<in>set ?R. weight (snd nr) = 0"
    show "?R = []"
    proof (rule ccontr)
      assume "?R \<noteq> []"
      then obtain nr where nr: "nr \<in> set ?R" by (cases ?R) auto
      with zero have "weight (snd nr) = 0" by simp
      with fired_rules_weight_ge [OF nr] show False by simp
    qed
  qed simp
  finally have w: "?w = 0 \<longleftrightarrow> ?R = []" .
  have cu: "?cu = 0 \<longleftrightarrow> (\<forall>u\<in>set ?us. flags (analyzeUrl rt u) = [])"
    unfolding url_contribution_zero_iff [symmetric]
    by (rule sum_map_zero_iff) (rule url_contribution_nonneg)
  have cp: "?cp = 0 \<longleftrightarrow> (\<forall>p\<in>set ?ps. flags (analyzePhone p) = [])"
    unfolding phone_contribution_zero_iff [symmetric]
    by (rule sum_map_zero_iff) (rule phone_contribution_nonneg)
  have nn: "0 \<le> ?w" "0 \<le> ?cu" "0 \<le> ?cp"
    by (auto intro!: sum_list_nonneg fired_rules_score_nonneg
        simp: url_contribution_nonneg phone_contribution_nonneg)
  have "riskScore (analyzeMessage rt text) = 0 \<longleftrightarrow> ?w + ?cu + ?cp = 0"
    using nn by (simp add: analyzeMessage_def analyzeMessage_acc_score min_def)
  also have "\<dots> \<longleftrightarrow> ?w = 0 \<and> ?cu = 0 \<and> ?cp = 0"
    using nn by linarith
  also have "\<dots> \<longleftrightarrow> flags (analyzeMessage rt text) = []"
  proof -
    have "flags (analyzeMessage rt text) = [] \<longleftrightarrow>
        set (map (\<lambda>nr. rule_flag (snd nr)) ?R
          @ concat (map (\<lambda>u. flags (analyzeUrl rt u)) ?us)
          @ concat (map (\<lambda>p. flags (analyzePhone p)) ?ps)) = {}"
      unfolding analyzeMessage_flags
      by (metis Diff_empty set_empty set_keep_first)
    then show ?thesis
      unfolding w cu cp by auto
  qed
  finally show ?thesis .
qed

subsection \<open>Which check raises which flag\<close>

lemma flag_mem_path_tokens:
  "g \<in> set (acc_flags (fold (path_token_step cp) toks a)) \<longleftrightarrow>
     g \<in> set (acc_flags a) \<or> (list_ex (str_includes cp) toks \<and> g = ''suspicious_path_token'')"
  by (induction toks arbitrary: a) (auto simp: path_token_step_def)

lemma url_flag_mem:
  "g \<in> set (acc_flags (check_ip ul a)) \<longleftrightarrow>
     g \<in> set (acc_flags a) \<or> (rx_test False ip_pattern ul \<and> g = ''ip_based_url'')"
  "g \<in> set (acc_flags (check_punycode d a)) \<longleftrightarrow>
     g \<in> set (acc_flags a) \<or> (str_includes d (str ''xn--'') \<and> g = ''punycode_domain'')"
  "g \<in> set (acc_flags (check_userinfo ul a)) \<longleftrightarrow>
     g \<in> set (acc_flags a) \<or> (rx_test False (L ''@'') ul \<and> g = ''userinfo_in_url'')"
  "g \<in> set (acc_flags (check_no_https ul a)) \<longleftrightarrow>
     g \<in> set (acc_flags a)
     \<or> ((startsWith ul (str ''http://'') \<and> \<not> startsWith ul (str ''https://'')) \<and> g = ''no_https'')"
  "g \<in> set (acc_flags (check_tld d a)) \<longleftrightarrow>
     g \<in> set (acc_flags a) \<or> (list_ex (\<lambda>tld. endsWith d tld) SUSPICIOUS_TLDS \<and> g = ''suspicious_tld'')"
  "g \<in> set (acc_flags (check_shortener d a)) \<longleftrightarrow>
     g \<in> set (acc_flags a)
     \<or> (list_ex (\<lambda>shortener. str_includes d shortener) URL_SHORTENERS \<and> g = ''url_shortener'')"
  "g \<in> set (acc_flags (check_brand rt d a)) \<longleftrightarrow>
     g \<in> set (acc_flags a) \<or> (list_ex (spoofs rt d) KNOWN_BRANDS \<and> g = ''brand_spoofing'')"
  "g \<in> set (acc_flags (check_path_tokens cp a)) \<longleftrightarrow>
     g \<in> set (acc_flags a)
     \<or> (list_ex (str_includes cp) SUSPICIOUS_PATH_TOKENS \<and> g = ''suspicious_path_token'')"
  "g \<in> set (acc_flags (check_subdomains d a)) \<longleftrightarrow>
     g \<in> set (acc_flags a) \<or> (subdomainCount d \<ge> 3 \<and> g = ''excessive_subdomains'')"
  "g \<in> set (acc_flags (check_long u a)) \<longleftrightarrow>
     g \<in> set (acc_flags a) \<or> (length u > 100 \<and> g = ''suspicious_long_url'')"
  "g \<in> set (acc_flags (check_random ul a)) \<longleftrightarrow>
     g \<in> set (acc_flags a) \<or> (rx_test False random_pattern ul \<and> g = ''random_string_url'')"
  "g \<in> set (acc_flags (check_weird d a)) \<longleftrightarrow>
     g \<in> set (acc_flags a)
     \<or> ((acc_flags a = [] \<and> d \<noteq> [] \<and> length (split_on 46 d) \<ge> 2 \<and> rx_test True weird_pattern d)
         \<and> g = ''weird_domain_chars'')"
  by (auto simp: url_checks check_path_tokens_def flag_mem_path_tokens)

lemma detail_mem_path_tokens:
  "x \<in> set (acc_details (fold (path_token_step cp) toks a)) \<longleftrightarrow>
     x \<in> set (acc_details a)
     \<or> ((list_ex (str_includes cp) toks \<and> ''suspicious_path_token'' \<notin> set (acc_flags a))
         \<and> x = \<lparr>rule = ''suspicious_path'', flag = ''suspicious_path_token'', points = 12\<rparr>)"
  by (induction toks arbitrary: a) (auto simp: path_token_step_def)

lemma url_detail_mem:
  "x \<in> set (acc_details (check_ip ul a)) \<longleftrightarrow>
     x \<in> set (acc_details a)
     \<or> (rx_test False ip_pattern ul \<and> x = \<lparr>rule = ''ip_based'', flag = ''ip_based_url'', points = 25\<rparr>)"
  "x \<in> set (acc_details (check_punycode d a)) \<longleftrightarrow>
     x \<in> set (acc_details a)
     \<or> (str_includes d (str ''xn--'') \<and> x = \<lparr>rule = ''punycode'', flag = ''punycode_domain'', points = 20\<rparr>)"
  "x \<in> set (acc_details (check_userinfo ul a)) \<longleftrightarrow>
     x \<in> set (acc_details a)
     \<or> (rx_test False (L ''@'') ul \<and> x = \<lparr>rule = ''userinfo'', flag = ''userinfo_in_url'', points = 18\<rparr>)"
  "x \<in> set (acc_details (check_no_https ul a)) \<longleftrightarrow>
     x \<in> set (acc_details a)
     \<or> ((startsWith ul (str ''http://'') \<and> \<not> startsWith ul (str ''https://''))
         \<and> x = \<lparr>rule = ''no_https'', flag = ''no_https'', points = 8\<rparr>)"
  "x \<in> set (acc_details (check_tld d a)) \<longleftrightarrow>
     x \<in> set (acc_details a)
     \<or> (list_ex (\<lambda>tld. endsWith d tld) SUSPICIOUS_TLDS
         \<and> x = \<lparr>rule = ''suspicious_tld'', flag = ''suspicious_tld'', points = 18\<rparr>)"
  "x \<in> set (acc_details (check_shortener d a)) \<longleftrightarrow>
     x \<in> set (acc_details a)
     \<or> (list_ex (\<lambda>shortener. str_includes d shortener) URL_SHORTENERS
         \<and> x = \<lparr>rule = ''shortener'', flag = ''url_shortener'', points = 15\<rparr>)"
  "x \<in> set (acc_details (check_brand rt d a)) \<longleftrightarrow>
     x \<in> set (acc_details a)
     \<or> (list_ex (spoofs rt d) KNOWN_BRANDS
         \<and> x = \<lparr>rule = ''brand_spoof'', flag = ''brand_spoofing'', points = 22\<rparr>)"
  "x \<in> set (acc_details (check_path_tokens cp a)) \<longleftrightarrow>
     x \<in> set (acc_details a)
     \<or> ((list_ex (str_includes cp) SUSPICIOUS_PATH_TOKENS \<and> ''suspicious_path_token'' \<notin> set (acc_flags a))
         \<and> x = \<lparr>rule = ''suspicious_path'', flag = ''suspicious_path_token'', points = 12\<rparr>)"
  "x \<in> set (acc_details (check_subdomains d a)) \<longleftrightarrow>
     x \<in> set (acc_details a)
     \<or> (subdomainCount d \<ge> 3
         \<and> x = \<lparr>rule = ''many_subdomains'', flag = ''excessive_subdomains'', points = 12\<rparr>)"
  "x \<in> set (acc_details (check_long u a)) \<longleftrightarrow>
     x \<in> set (acc_details a)
     \<or> (length u > 100 \<and> x = \<lparr>rule = ''long_url'', flag = ''suspicious_long_url'', points = 10\<rparr>)"
  "x \<in> set (acc_details (check_random ul a)) \<longleftrightarrow>
     x \<in> set (acc_details a)
     \<or> (rx_test False random_pattern ul
         \<and> x = \<lparr>rule = ''random_string'', flag = ''random_string_url'', points = 12\<rparr>)"
  "x \<in> set (acc_details (check_weird d a)) \<longleftrightarrow>
     x \<in> set (acc_details a)
     \<or> ((acc_flags a = [] \<and> d \<noteq> [] \<and> length (split_on 46 d) \<ge> 2 \<and> rx_test True weird_pattern d)
         \<and> x = \<lparr>rule = ''weird_chars'', flag = ''weird_domain_chars'', points = 6\<rparr>)"
  by (auto simp: url_checks check_path_tokens_def detail_mem_path_tokens)

lemma phone_flag_mem:
  "g \<in> set (acc_flags (check_foreign c a)) \<longleftrightarrow>
     g \<in> set (acc_flags a)
     \<or> (list_ex (\<lambda>code. startsWith c code) FOREIGN_CODES \<and> g = ''foreign_country_code'')"
  "g \<in> set (acc_flags (check_length d a)) \<longleftrightarrow>
     g \<in> set (acc_flags a)
     \<or> ((length d < 10 \<or> length d > 15) \<and> g = ''suspicious_number_length'')"
  "g \<in> set (acc_flags (check_pattern d a)) \<longleftrightarrow>
     g \<in> set (acc_flags a)
     \<or> ((length d = 10 \<and> (case d of [] \<Rightarrow> True
            | x # _ \<Rightarrow> [x] \<notin> set (map str [''6'', ''7'', ''8'', ''9''])))
         \<and> g = ''invalid_number_pattern'')"
  "g \<in> set (acc_flags (check_repeated d a)) \<longleftrightarrow>
     g \<in> set (acc_flags a)
     \<or> (distinct_count (slice_last 10 d) \<le> 2 \<and> g = ''suspicious_repeated_digits'')"
  "g \<in> set (acc_flags (check_sequence d a)) \<longleftrightarrow>
     g \<in> set (acc_flags a) \<or> (digit_run_test d \<and> g = ''suspicious_repeated_digits'')"
  by (auto simp: phone_checks)

lemma phone_detail_mem:
  "x \<in> set (acc_details (check_foreign c a)) \<longleftrightarrow>
     x \<in> set (acc_details a)
     \<or> (list_ex (\<lambda>code. startsWith c code) FOREIGN_CODES
         \<and> x = \<lparr>rule = ''foreign_code'', flag = ''foreign_country_code'', points = 15\<rparr>)"
  "x \<in> set (acc_details (check_length d a)) \<longleftrightarrow>
     x \<in> set (acc_details a)
     \<or> ((length d < 10 \<or> length d > 15)
         \<and> x = \<lparr>rule = ''length_issue'', flag = ''suspicious_number_length'', points = 12\<rparr>)"
  "x \<in> set (acc_details (check_pattern d a)) \<longleftrightarrow>
     x \<in> set (acc_details a)
     \<or> ((length d = 10 \<and> (case d of [] \<Rightarrow> True
            | y # _ \<Rightarrow> [y] \<notin> set (map str [''6'', ''7'', ''8'', ''9''])))
         \<and> x = \<lparr>rule = ''invalid_pattern'', flag = ''invalid_number_pattern'', points = 20\<rparr>)"
  "x \<in> set (acc_details (check_repeated d a)) \<longleftrightarrow>
     x \<in> set (acc_details a)
     \<or> (distinct_count (slice_last 10 d) \<le> 2
         \<and> x = \<lparr>rule = ''repeated_digits'', flag = ''suspicious_repeated_digits'', points = 15\<rparr>)"
  "x \<in> set (acc_details (check_sequence d a)) \<longleftrightarrow>
     x \<in> set (acc_details a)
     \<or> ((digit_run_test d \<and> ''suspicious_repeated_digits'' \<notin> set (acc_flags a))
         \<and> x = \<lparr>rule = ''repeated_sequence'', flag = ''suspicious_repeated_digits'', points = 12\<rparr>)"
  by (auto simp: phone_checks)

subsection \<open>The run of five equal digits\<close>

lemma startsWith_iff: "startsWith s p \<longleftrightarrow> take (length p) s = p"
  by (induction s p rule: startsWith.induct) auto

lemma endsWith_refl: "endsWith s s"
  by (simp add: endsWith_def startsWith_iff)

lemma str_includes_iff: "str_includes s p \<longleftrightarrow> (\<exists>i\<le>length s. take (length p) (drop i s) = p)"
proof (induction s)
  case Nil
  show ?case by auto
next
  case (Cons c cs)
  have "(\<exists>i\<le>length (c # cs). take (length p) (drop i (c # cs)) = p) \<longleftrightarrow>
      take (length p) (c # cs) = p \<or> (\<exists>i\<le>length cs. take (length p) (drop i cs) = p)"
    (is "?L \<longleftrightarrow> ?R")
  proof
    assume ?L
    then obtain i where i: "i \<le> length (c # cs)" "take (length p) (drop i (c # cs)) = p" by blast
    show ?R
    proof (cases i)
      case 0
      with i show ?thesis by simp
    next
      case (Suc j)
      with i show ?thesis by auto
    qed
  next
    assume ?R
    then show ?L
    proof
      assume "take (length p) (c # cs) = p"
      then have "take (length p) (drop 0 (c # cs)) = p" by simp
      then show ?L by blast
    next
      assume "\<exists>i\<le>length cs. take (length p) (drop i cs) = p"
      then obtain i where "i \<le> length cs" "take (length p) (drop i cs) = p" by blast
      then have "Suc i \<le> length (c # cs)" "take (length p) (drop (Suc i) (c # cs)) = p" by simp_all
      then show ?L by blast
    qed
  qed
  with Cons show ?case by (simp add: startsWith_iff)
qed

lemma digit_run_here:
  "(is_digit c \<and> startsWith cs (replicate 4 c)) \<longleftrightarrow>
     (is_digit c \<and> 5 \<le> length (c # cs) \<and> (\<forall>j<5. (c # cs) ! j = c))"
proof -
  have "take 4 cs = replicate 4 c \<longleftrightarrow> 4 \<le> length cs \<and> (\<forall>j<4. cs ! j = c)"
  proof
    assume eq: "take 4 cs = replicate 4 c"
    then have "length (take 4 cs) = 4" by simp
    then have len: "4 \<le> length cs" by simp
    moreover have "cs ! j = c" if "j < 4" for j
    proof -
      have "cs ! j = take 4 cs ! j" using that by simp
      also have "\<dots> = c" using that unfolding eq by simp
      finally show ?thesis .
    qed
    ultimately show "4 \<le> length cs \<and> (\<forall>j<4. cs ! j = c)" by blast
  next
    assume "4 \<le> length cs \<and> (\<forall>j<4. cs ! j = c)"
    then show "take 4 cs = replicate 4 c"
      by (intro nth_equalityI) auto
  qed
  moreover have "(\<forall>j<5. (c # cs) ! j = c) \<longleftrightarrow> (\<forall>j<4. cs ! j = c)"
  proof
    assume a: "\<forall>j<5. (c # cs) ! j = c"
    show "\<forall>j<4. cs ! j = c"
    proof (intro allI impI)
      fix j :: nat
      assume "j < 4"
      then have "Suc j < 5" by simp
      with a have "(c # cs) ! Suc j = c" by blast
      then show "cs ! j = c" by simp
    qed
  next
    assume a: "\<forall>j<4. cs ! j = c"
    show "\<forall>j<5. (c # cs) ! j = c"
    proof (intro allI impI)
      fix j :: nat
      assume "j < 5"
      then show "(c # cs) ! j = c" using a by (cases j) auto
    qed
  qed
  ultimately show ?thesis
    by (auto simp: startsWith_iff)
qed

lemma digit_run_test_iff: "digit_run_test s \<longleftrightarrow> has_digit_run s"
proof (induction s)
  case Nil
  show ?case by (simp add: has_digit_run_def)
next
  case (Cons c cs)
  have split: "has_digit_run (c # cs) \<longleftrightarrow>
      (is_digit c \<and> 5 \<le> length (c # cs) \<and> (\<forall>j<5. (c # cs) ! j = c)) \<or> has_digit_run cs"
    (is "?L \<longleftrightarrow> ?H \<or> ?T")
  proof
    assume ?L
    then obtain i d where d: "is_digit d" "i + 5 \<le> length (c # cs)"
        "\<forall>j<5. (c # cs) ! (i + j) = d"
      unfolding has_digit_run_def by blast
    show "?H \<or> ?T"
    proof (cases i)
      case 0
      with d have "(c # cs) ! (0 + 0) = d" by (metis zero_less_numeral)
      then have "d = c" by simp
      with 0 d show ?thesis by simp
    next
      case (Suc k)
      with d have "k + 5 \<le> length cs" "\<forall>j<5. cs ! (k + j) = d" by simp_all
      with d(1) have ?T unfolding has_digit_run_def by blast
      then show ?thesis ..
    qed
  next
    assume "?H \<or> ?T"
    then show ?L
    proof
      assume ?H
      then have "is_digit c \<and> 0 + 5 \<le> length (c # cs) \<and> (\<forall>j<5. (c # cs) ! (0 + j) = c)"
        by simp
      then show ?L unfolding has_digit_run_def by blast
    next
      assume ?T
      then obtain i d where "is_digit d" "i + 5 \<le> length cs" "\<forall>j<5. cs ! (i + j) = d"
        unfolding has_digit_run_def by blast
      then have "is_digit d \<and> Suc i + 5 \<le> length (c # cs) \<and> (\<forall>j<5. (c # cs) ! (Suc i + j) = d)"
        by simp
      then show ?L unfolding has_digit_run_def by blast
    qed
  qed
  have "digit_run_test (c # cs) \<longleftrightarrow>
      (is_digit c \<and> startsWith cs (replicate 4 c)) \<or> digit_run_test cs"
    by auto
  then show ?case
    unfolding digit_run_here Cons.IH using split by blast
qed

subsection \<open>The brand, IP and repetition checks in the results\<close>

lemma spoofed_iff:
  "list_ex (spoofs rt d) KNOWN_BRANDS \<longleftrightarrow>
     (\<exists>brand\<in>set KNOWN_BRANDS.
        (str_includes d (toLowerCase rt brand) \<or> str_includes (deleet d) (toLowerCase rt brand))
        \<and> \<not> (\<exists>od\<in>set (officialDomains brand). endsWith d od))"
proof -
  have "isOfficial d brand \<longleftrightarrow> (\<exists>od\<in>set (officialDomains brand). endsWith d od)" for brand
    unfolding isOfficial_def list_ex_iff using endsWith_refl by blast
  then show ?thesis
    by (simp add: list_ex_iff spoofs_def Let_def) blast
qed

lemma analyzeUrl_brand_flag:
  "''brand_spoofing'' \<in> set (flags (analyzeUrl rt url)) \<longleftrightarrow>
     list_ex (spoofs rt (url_domain rt url)) KNOWN_BRANDS"
  by (simp add: analyzeUrl_def analyzeUrl_acc_unfold url_flag_mem)

lemma analyzeUrl_brand_detail:
  "\<lparr>rule = ''brand_spoof'', flag = ''brand_spoofing'', points = 22\<rparr> \<in> set (details (analyzeUrl rt url)) \<longleftrightarrow>
     list_ex (spoofs rt (url_domain rt url)) KNOWN_BRANDS"
  by (simp add: analyzeUrl_def analyzeUrl_acc_unfold url_detail_mem)

lemma analyzeUrl_ip_flag:
  "''ip_based_url'' \<in> set (flags (analyzeUrl rt url)) \<longleftrightarrow>
     rx_test False ip_pattern (toLowerCase rt url)"
  by (simp add: analyzeUrl_def analyzeUrl_acc_unfold url_flag_mem)

lemma analyzeUrl_ip_detail:
  "\<lparr>rule = ''ip_based'', flag = ''ip_based_url'', points = 25\<rparr> \<in> set (details (analyzeUrl rt url)) \<longleftrightarrow>
     rx_test False ip_pattern (toLowerCase rt url)"
  by (simp add: analyzeUrl_def analyzeUrl_acc_unfold url_detail_mem)

lemma analyzeUrl_ip_score:
  assumes "rx_test False ip_pattern (toLowerCase rt url)"
  shows "25 \<le> riskScore (analyzeUrl rt url)"
proof -
  have "grows (check_weird d \<circ> check_random ul \<circ> check_long u \<circ> check_subdomains d
          \<circ> check_path_tokens cp \<circ> check_brand rt d \<circ> check_shortener d
          \<circ> check_tld d \<circ> check_no_https ul \<circ> check_userinfo ul
          \<circ> check_punycode d)" for d ul u cp
    by (intro grows_comp grows_url_checks)
  then have "acc_score (check_ip (toLowerCase rt url) acc0) \<le> acc_score (analyzeUrl_acc rt url)"
    unfolding analyzeUrl_acc_def Let_def grows_def by (metis comp_apply)
  with assms have "25 \<le> acc_score (analyzeUrl_acc rt url)"
    by (simp add: check_ip_def)
  then show ?thesis by (simp add: analyzeUrl_def)
qed

lemma filter_flag_le_one:
  "distinct (map f xs) \<Longrightarrow> length (filter (\<lambda>x. f x = v) xs) \<le> Suc 0"
proof (induction xs)
  case Nil
  show ?case by simp
next
  case (Cons x xs)
  show ?case
  proof (cases "f x = v")
    case True
    with Cons.prems have "filter (\<lambda>y. f y = v) xs = []"
      by (auto simp: filter_empty_conv image_iff)
    with True show ?thesis by simp
  next
    case False
    with Cons show ?thesis by simp
  qed
qed

lemma distinct_count_card: "distinct_count s = card (set s)"
  by (simp add: distinct_count_def length_remdups_card_conv)

lemma analyzePhone_repeated_flag:
  "''suspicious_repeated_digits'' \<in> set (flags (analyzePhone phone)) \<longleftrightarrow>
     card (set (slice_last 10 (digitsOnly phone))) \<le> 2 \<or> has_digit_run (digitsOnly phone)"
  by (simp add: analyzePhone_def analyzePhone_acc_unfold phone_flag_mem distinct_count_card
      digit_run_test_iff)

lemma analyzePhone_repeated_detail:
  "\<lparr>rule = ''repeated_digits'', flag = ''suspicious_repeated_digits'', points = 15\<rparr>
       \<in> set (details (analyzePhone phone)) \<longleftrightarrow>
     card (set (slice_last 10 (digitsOnly phone))) \<le> 2"
  by (simp add: analyzePhone_def analyzePhone_acc_unfold phone_detail_mem distinct_count_card)

lemma analyzePhone_sequence_detail:
  "\<lparr>rule = ''repeated_sequence'', flag = ''suspicious_repeated_digits'', points = 12\<rparr>
       \<in> set (details (analyzePhone phone)) \<longleftrightarrow>
     has_digit_run (digitsOnly phone) \<and> \<not> card (set (slice_last 10 (digitsOnly phone))) \<le> 2"
  by (simp add: analyzePhone_def analyzePhone_acc_unfold phone_detail_mem phone_flag_mem
      distinct_count_card digit_run_test_iff)

lemma analyzePhone_repetition_score:
  "acc_score (analyzePhone_acc phone) =
     acc_score (check_pattern (digitsOnly phone) (check_length (digitsOnly phone)
       (check_foreign (cleanPhone phone) acc0)))
     + (if card (set (slice_last 10 (digitsOnly phone))) \<le> 2 then 15
        else if has_digit_run (digitsOnly phone) then 12 else 0)"
proof -
  let ?a = "check_pattern (digitsOnly phone) (check_length (digitsOnly phone)
      (check_foreign (cleanPhone phone) acc0))"
  have "''suspicious_repeated_digits'' \<notin> set (acc_flags ?a)"
    by (simp add: phone_flag_mem)
  then show ?thesis
    unfolding analyzePhone_acc_unfold
    by (simp add: check_sequence_def check_repeated_def distinct_count_card digit_run_test_iff)
qed

lemma digitsOnly_filter: "digitsOnly phone = filter is_digit phone"
proof -
  have "is_digit c \<Longrightarrow> \<not> (is_space c \<or> c = 45 \<or> c = 40 \<or> c = 41)" for c
    by (auto simp: is_digit_def is_space_def)
  then have "filter is_digit (filter (\<lambda>c. \<not> (is_space c \<or> c = 45 \<or> c = 40 \<or> c = 41)) phone)
      = filter is_digit phone"
    unfolding filter_filter by (intro filter_cong) auto
  then show ?thesis
    by (simp add: digitsOnly_def cleanPhone_def remove_all_def)
qed

lemma last_ten_digits:
  "slice_last 10 (digitsOnly phone)
     = drop (length (filter is_digit phone) - 10) (filter is_digit phone)"
  by (simp add: slice_last_def digitsOnly_filter)

section \<open>Evaluation on concrete inputs\<close>

text \<open>
  The quantifier loop by the number of iterations left, for evaluation on numerals, and
  the definitions that evaluation unfolds.
\<close>

lemma rx_rep_if:
  "rx_rep ci r m n st =
     (if n = 0 then (if m = 0 then [st] else [])
      else concat (map (rx_rep ci r (m - 1) (n - 1))
             (filter (\<lambda>st'. 0 < m \<or> length (snd st') < length (snd st)) (rx ci r st)))
           @ (if m = 0 then [st] else []))"
  by (cases n) simp_all

lemmas rx_build = L_def lit_def seqs_def words_def opt_def gap_def space_def not_space_def
  digit_def str_def

lemmas rx_run = rx_test_def cls_match_def in_cset_def swap_case_def Let_def line_terminator_def
  word_before_def word_after_def is_word_def is_digit_def is_space_def rx_rep_if

lemmas acc_eval = finish_def hit_def hit_once_def add_score_def push_flag_def push_detail_def
  acc0_def calculateRiskLevel_def

lemmas url_eval = analyzeUrl_def analyzeUrl_acc_unfold url_checks check_path_tokens_def
  path_token_step_def url_domain_def url_pathname_def url_parsed_def basic_runtime_def
  basic_URL_parse_def basic_host_def basic_path_def quad_part_def dec_value_def
  is_lower_alpha_def ascii_lower_def ip_pattern_def random_pattern_def weird_pattern_def
  SUSPICIOUS_TLDS_def URL_SHORTENERS_def KNOWN_BRANDS_def SUSPICIOUS_PATH_TOKENS_def
  spoofs_def isOfficial_def officialDomains_def deleet_def deleet_char_def endsWith_def
  subdomainCount_def acc_eval

lemma replicate_four: "replicate 4 c = [c, c, c, c]"
  by (simp add: numeral_eq_Suc)

lemmas phone_eval = replicate_four analyzePhone_def analyzePhone_acc_unfold phone_checks cleanPhone_def
  digitsOnly_def remove_all_def FOREIGN_CODES_def distinct_count_def slice_last_def acc_eval

lemma eval_url_atk:
  "analyzeUrl basic_runtime (str ''a.tk'') =
     \<lparr>riskScore = 18, riskLevel = safe,
      flags = [''suspicious_tld''],
      details = [\<lparr>rule = ''suspicious_tld'', flag = ''suspicious_tld'', points = 18\<rparr>],
      embeddedUrls = None, embeddedPhones = None\<rparr>"
  by (simp add: url_eval rx_build rx_run)

lemma eval_url_btk:
  "analyzeUrl basic_runtime (str ''b.tk'') =
     \<lparr>riskScore = 18, riskLevel = safe,
      flags = [''suspicious_tld''],
      details = [\<lparr>rule = ''suspicious_tld'', flag = ''suspicious_tld'', points = 18\<rparr>],
      embeddedUrls = None, embeddedPhones = None\<rparr>"
  by (simp add: url_eval rx_build rx_run)

lemma eval_url_amazon_in:
  "analyzeUrl basic_runtime (str ''https://amazon.in'') =
     \<lparr>riskScore = 0, riskLevel = safe,
      flags = [],
      details = [],
      embeddedUrls = None, embeddedPhones = None\<rparr>"
  by (simp add: url_eval rx_build rx_run)

lemma eval_url_amaz0n:
  "analyzeUrl basic_runtime (str ''http://amaz0n-secure.xyz/login'') =
     \<lparr>riskScore = 72, riskLevel = high_risk,
      flags = [''no_https'', ''suspicious_tld'', ''brand_spoofing'', ''suspicious_path_token''],
      details = [\<lparr>rule = ''no_https'', flag = ''no_https'', points = 8\<rparr>, \<lparr>rule = ''suspicious_tld'', flag = ''suspicious_tld'', points = 18\<rparr>, \<lparr>rule = ''brand_spoof'', flag = ''brand_spoofing'', points = 22\<rparr>, \<lparr>rule = ''suspicious_path'', flag = ''suspicious_path_token'', points = 12\<rparr>],
      embeddedUrls = None, embeddedPhones = None\<rparr>"
  by (simp add: url_eval rx_build rx_run)

lemma eval_url_ip_verify:
  "analyzeUrl basic_runtime (str ''http://192.168.0.1/verify'') =
     \<lparr>riskScore = 45, riskLevel = suspicious,
      flags = [''ip_based_url'', ''no_https'', ''suspicious_path_token''],
      details = [\<lparr>rule = ''ip_based'', flag = ''ip_based_url'', points = 25\<rparr>, \<lparr>rule = ''no_https'', flag = ''no_https'', points = 8\<rparr>, \<lparr>rule = ''suspicious_path'', flag = ''suspicious_path_token'', points = 12\<rparr>],
      embeddedUrls = None, embeddedPhones = None\<rparr>"
  by (simp add: url_eval rx_build rx_run)

lemma eval_url_bare_ip:
  "analyzeUrl basic_runtime (str ''192.168.0.1/verify'') =
     \<lparr>riskScore = 12, riskLevel = safe,
      flags = [''suspicious_path_token''],
      details = [\<lparr>rule = ''suspicious_path'', flag = ''suspicious_path_token'', points = 12\<rparr>],
      embeddedUrls = None, embeddedPhones = None\<rparr>"
  by (simp add: url_eval rx_build rx_run)

lemma eval_url_many_tokens:
  "analyzeUrl basic_runtime (str ''http://1.2.3.4/bank-login-token-claim-prize-click'') =
     \<lparr>riskScore = 100, riskLevel = high_risk,
      flags = [''ip_based_url'', ''no_https'', ''suspicious_path_token''],
      details = [\<lparr>rule = ''ip_based'', flag = ''ip_based_url'', points = 25\<rparr>, \<lparr>rule = ''no_https'', flag = ''no_https'', points = 8\<rparr>, \<lparr>rule = ''suspicious_path'', flag = ''suspicious_path_token'', points = 12\<rparr>],
      embeddedUrls = None, embeddedPhones = None\<rparr>"
  by (simp add: url_eval rx_build rx_run)

lemma eval_url_many_tokens_raw:
  "acc_score (analyzeUrl_acc basic_runtime (str ''http://1.2.3.4/bank-login-token-claim-prize-click'')) = 105"
  by (simp add: url_eval rx_build rx_run)

lemma eval_domain_bare_ip:
  "url_domain basic_runtime (str ''192.168.0.1/verify'') = str ''192.168.0.1''"
  by (simp add: url_eval rx_build rx_run)

lemma eval_phone_nines:
  "analyzePhone (str ''9999999999'') =
     \<lparr>riskScore = 15, riskLevel = safe,
      flags = [''suspicious_repeated_digits''],
      details = [\<lparr>rule = ''repeated_digits'', flag = ''suspicious_repeated_digits'', points = 15\<rparr>],
      embeddedUrls = None, embeddedPhones = None\<rparr>"
  by (simp add: phone_eval rx_build rx_run)

lemma eval_phone_run:
  "analyzePhone (str ''9876511111'') =
     \<lparr>riskScore = 12, riskLevel = safe,
      flags = [''suspicious_repeated_digits''],
      details = [\<lparr>rule = ''repeated_sequence'', flag = ''suspicious_repeated_digits'', points = 12\<rparr>],
      embeddedUrls = None, embeddedPhones = None\<rparr>"
  by (simp add: phone_eval rx_build rx_run)

lemma eval_ip_literal: "ip_literal (str ''192.168.0.1'')"
  by (simp add: ip_literal_def str_def is_digit_def)

lemma eval_deleet: "deleet (str ''0135478'') = str ''olesatb''"
  by (simp add: deleet_def deleet_char_def str_def)

lemma eval_ip_test:
  "rx_test False ip_pattern (toLowerCase basic_runtime (str ''http://192.168.0.1/verify''))"
  by (simp add: analyzeUrl_ip_flag [symmetric] eval_url_ip_verify)

lemma eval_phone_country:
  "analyzePhone (str ''+91 8999999999'') =
     \<lparr>riskScore = 15, riskLevel = safe,
      flags = [''suspicious_repeated_digits''],
      details = [\<lparr>rule = ''repeated_digits'', flag = ''suspicious_repeated_digits'', points = 15\<rparr>],
      embeddedUrls = None, embeddedPhones = None\<rparr>"
  by (simp add: phone_eval rx_build rx_run)

lemma eval_phone_ext:
  "analyzePhone (str ''89999-99999 ext.1'') =
     \<lparr>riskScore = 15, riskLevel = safe,
      flags = [''suspicious_repeated_digits''],
      details = [\<lparr>rule = ''repeated_digits'', flag = ''suspicious_repeated_digits'', points = 15\<rparr>],
      embeddedUrls = None, embeddedPhones = None\<rparr>"
  by (simp add: phone_eval rx_build rx_run)

lemma eval_digits_country: "filter is_digit (str ''+91 8999999999'') = str ''918999999999''"
  by (simp add: str_def is_digit_def)

lemma eval_digits_ext: "filter is_digit (str ''89999-99999 ext.1'') = str ''89999999991''"
  by (simp add: str_def is_digit_def)

lemma eval_distinct_country: "\<not> card (set (str ''918999999999'')) \<le> 2"
  by (simp add: str_def card_insert_if)

lemma eval_url_normal:
  "normalizeInput (str ''http://amaz0n-secure.xyz/login'') = str ''http://amaz0n-secure.xyz/login''"
  by (simp add: normalizeInput_def trim_def str_def is_space_def)

lemma url_type_explicit: "resolve_type (Some (str ''url'')) n = str ''url''"
  by (simp add: resolve_type_def str_def)

lemma phone_type_explicit: "resolve_type (Some (str ''phone'')) n = str ''phone''"
  by (simp add: resolve_type_def str_def)

lemma message_type_explicit: "resolve_type (Some (str ''message'')) n = str ''message''"
  by (simp add: resolve_type_def str_def)

lemma eval_nines_normal: "normalizeInput (str ''9999999999'') = str ''9999999999''"
  by (simp add: normalizeInput_def trim_def str_def is_space_def)

lemma type_names_differ:
  "str ''phone'' \<noteq> str ''url''" "str ''message'' \<noteq> str ''url''" "str ''message'' \<noteq> str ''phone''"
  by (simp_all add: str_def)

text \<open>Three messages: the rules that fire on them and what is extracted from them.\<close>

lemma msg_otp_lower: "toLowerCase basic_runtime (str ''otp a.tk'') = str ''otp a.tk''"
  by (simp add: basic_runtime_def str_def ascii_lower_def)

lemma msg_otp_urls: "extractUrls (str ''otp a.tk'') = [str ''a.tk'']"
  by (simp add: extractUrls_def urlPattern_extract_def rx_build rx_run)

lemma msg_otp_phones: "extractPhones (str ''otp a.tk'') = []"
  by (simp add: extractPhones_def phonePattern_extract_def remove_all_def rx_build rx_run)

lemma msg_otp_rule_urgency: "rule_matches rule_urgency (str ''otp a.tk'') = False"
  by (simp add: rule_matches_def rule_urgency_def rx_build rx_run)

lemma msg_otp_rule_otp_kyc: "rule_matches rule_otp_kyc (str ''otp a.tk'') = True"
  by (simp add: rule_matches_def rule_otp_kyc_def rx_build rx_run)

lemma msg_otp_rule_account_threat: "rule_matches rule_account_threat (str ''otp a.tk'') = False"
  by (simp add: rule_matches_def rule_account_threat_def rx_build rx_run)

lemma msg_otp_rule_lottery_reward: "rule_matches rule_lottery_reward (str ''otp a.tk'') = False"
  by (simp add: rule_matches_def rule_lottery_reward_def rx_build rx_run)

lemma msg_otp_rule_job_scam: "rule_matches rule_job_scam (str ''otp a.tk'') = False"
  by (simp add: rule_matches_def rule_job_scam_def rx_build rx_run)

lemma msg_otp_rule_authority: "rule_matches rule_authority (str ''otp a.tk'') = False"
  by (simp add: rule_matches_def rule_authority_def rx_build rx_run)

lemma msg_otp_rule_money_request: "rule_matches rule_money_request (str ''otp a.tk'') = False"
  by (simp add: rule_matches_def rule_money_request_def rx_build rx_run)

lemma msg_otp_rule_poor_grammar: "rule_matches rule_poor_grammar (str ''otp a.tk'') = False"
  by (simp add: rule_matches_def rule_poor_grammar_def rx_build rx_run)

lemma msg_otp_rule_embedded_link: "rule_matches rule_embedded_link (str ''otp a.tk'') = False"
  by (simp add: rule_matches_def rule_embedded_link_def rx_build rx_run)

lemma msg_otp_rule_delivery_scam: "rule_matches rule_delivery_scam (str ''otp a.tk'') = False"
  by (simp add: rule_matches_def rule_delivery_scam_def rx_build rx_run)

lemma msg_otp_rule_loan_scam: "rule_matches rule_loan_scam (str ''otp a.tk'') = False"
  by (simp add: rule_matches_def rule_loan_scam_def rx_build rx_run)

lemma msg_otp_rule_investment_scam: "rule_matches rule_investment_scam (str ''otp a.tk'') = False"
  by (simp add: rule_matches_def rule_investment_scam_def rx_build rx_run)

lemma msg_otp_rule_whatsapp_forward: "rule_matches rule_whatsapp_forward (str ''otp a.tk'') = False"
  by (simp add: rule_matches_def rule_whatsapp_forward_def rx_build rx_run)

lemmas msg_otp_rules = msg_otp_rule_urgency msg_otp_rule_otp_kyc msg_otp_rule_account_threat msg_otp_rule_lottery_reward msg_otp_rule_job_scam msg_otp_rule_authority msg_otp_rule_money_request msg_otp_rule_poor_grammar msg_otp_rule_embedded_link msg_otp_rule_delivery_scam msg_otp_rule_loan_scam msg_otp_rule_investment_scam msg_otp_rule_whatsapp_forward

lemma msg_otp_fired: "fired_rules (str ''otp a.tk'') = [(''otp_kyc'', rule_otp_kyc)]"
  by (simp add: fired_rules_def MESSAGE_RULES_def msg_otp_rules)

lemma msg_three_lower: "toLowerCase basic_runtime (str ''a.tk b.tk c.tk'') = str ''a.tk b.tk c.tk''"
  by (simp add: basic_runtime_def str_def ascii_lower_def)

lemma msg_three_urls: "extractUrls (str ''a.tk b.tk c.tk'') = [str ''a.tk'', str ''b.tk'', str ''c.tk'']"
  by (simp add: extractUrls_def urlPattern_extract_def rx_build rx_run)

lemma msg_three_phones: "extractPhones (str ''a.tk b.tk c.tk'') = []"
  by (simp add: extractPhones_def phonePattern_extract_def remove_all_def rx_build rx_run)

lemma msg_three_rule_urgency: "rule_matches rule_urgency (str ''a.tk b.tk c.tk'') = False"
  by (simp add: rule_matches_def rule_urgency_def rx_build rx_run)

lemma msg_three_rule_otp_kyc: "rule_matches rule_otp_kyc (str ''a.tk b.tk c.tk'') = False"
  by (simp add: rule_matches_def rule_otp_kyc_def rx_build rx_run)

lemma msg_three_rule_account_threat: "rule_matches rule_account_threat (str ''a.tk b.tk c.tk'') = False"
  by (simp add: rule_matches_def rule_account_threat_def rx_build rx_run)

lemma msg_three_rule_lottery_reward: "rule_matches rule_lottery_reward (str ''a.tk b.tk c.tk'') = False"
  by (simp add: rule_matches_def rule_lottery_reward_def rx_build rx_run)

lemma msg_three_rule_job_scam: "rule_matches rule_job_scam (str ''a.tk b.tk c.tk'') = False"
  by (simp add: rule_matches_def rule_job_scam_def rx_build rx_run)

lemma msg_three_rule_authority: "rule_matches rule_authority (str ''a.tk b.tk c.tk'') = False"
  by (simp add: rule_matches_def rule_authority_def rx_build rx_run)

lemma msg_three_rule_money_request: "rule_matches rule_money_request (str ''a.tk b.tk c.tk'') = False"
  by (simp add: rule_matches_def rule_money_request_def rx_build rx_run)

lemma msg_three_rule_poor_grammar: "rule_matches rule_poor_grammar (str ''a.tk b.tk c.tk'') = False"
  by (simp add: rule_matches_def rule_poor_grammar_def rx_build rx_run)

lemma msg_three_rule_embedded_link: "rule_matches rule_embedded_link (str ''a.tk b.tk c.tk'') = False"
  by (simp add: rule_matches_def rule_embedded_link_def rx_build rx_run)

lemma msg_three_rule_delivery_scam: "rule_matches rule_delivery_scam (str ''a.tk b.tk c.tk'') = False"
  by (simp add: rule_matches_def rule_delivery_scam_def rx_build rx_run)

lemma msg_three_rule_loan_scam: "rule_matches rule_loan_scam (str ''a.tk b.tk c.tk'') = False"
  by (simp add: rule_matches_def rule_loan_scam_def rx_build rx_run)

lemma msg_three_rule_investment_scam: "rule_matches rule_investment_scam (str ''a.tk b.tk c.tk'') = False"
  by (simp add: rule_matches_def rule_investment_scam_def rx_build rx_run)

lemma msg_three_rule_whatsapp_forward: "rule_matches rule_whatsapp_forward (str ''a.tk b.tk c.tk'') = False"
  by (simp add: rule_matches_def rule_whatsapp_forward_def rx_build rx_run)

lemmas msg_three_rules = msg_three_rule_urgency msg_three_rule_otp_kyc msg_three_rule_account_threat msg_three_rule_lottery_reward msg_three_rule_job_scam msg_three_rule_authority msg_three_rule_money_request msg_three_rule_poor_grammar msg_three_rule_embedded_link msg_three_rule_delivery_scam msg_three_rule_loan_scam msg_three_rule_investment_scam msg_three_rule_whatsapp_forward

lemma msg_three_fired: "fired_rules (str ''a.tk b.tk c.tk'') = []"
  by (simp add: fired_rules_def MESSAGE_RULES_def msg_three_rules)

lemma msg_nines_lower: "toLowerCase basic_runtime (str ''9999999999'') = str ''9999999999''"
  by (simp add: basic_runtime_def str_def ascii_lower_def)

lemma msg_nines_urls: "extractUrls (str ''9999999999'') = []"
  by (simp add: extractUrls_def urlPattern_extract_def rx_build rx_run)

lemma msg_nines_phones: "extractPhones (str ''9999999999'') = [str ''9999999999'']"
  by (simp add: extractPhones_def phonePattern_extract_def remove_all_def rx_build rx_run)

lemma msg_nines_rule_urgency: "rule_matches rule_urgency (str ''9999999999'') = False"
  by (simp add: rule_matches_def rule_urgency_def rx_build rx_run)

lemma msg_nines_rule_otp_kyc: "rule_matches rule_otp_kyc (str ''9999999999'') = False"
  by (simp add: rule_matches_def rule_otp_kyc_def rx_build rx_run)

lemma msg_nines_rule_account_threat: "rule_matches rule_account_threat (str ''9999999999'') = False"
  by (simp add: rule_matches_def rule_account_threat_def rx_build rx_run)

lemma msg_nines_rule_lottery_reward: "rule_matches rule_lottery_reward (str ''9999999999'') = False"
  by (simp add: rule_matches_def rule_lottery_reward_def rx_build rx_run)

lemma msg_nines_rule_job_scam: "rule_matches rule_job_scam (str ''9999999999'') = False"
  by (simp add: rule_matches_def rule_job_scam_def rx_build rx_run)

lemma msg_nines_rule_authority: "rule_matches rule_authority (str ''9999999999'') = False"
  by (simp add: rule_matches_def rule_authority_def rx_build rx_run)

lemma msg_nines_rule_money_request: "rule_matches rule_money_request (str ''9999999999'') = False"
  by (simp add: rule_matches_def rule_money_request_def rx_build rx_run)

lemma msg_nines_rule_poor_grammar: "rule_matches rule_poor_grammar (str ''9999999999'') = False"
  by (simp add: rule_matches_def rule_poor_grammar_def rx_build rx_run)

lemma msg_nines_rule_embedded_link: "rule_matches rule_embedded_link (str ''9999999999'') = False"
  by (simp add: rule_matches_def rule_embedded_link_def rx_build rx_run)

lemma msg_nines_rule_delivery_scam: "rule_matches rule_delivery_scam (str ''9999999999'') = False"
  by (simp add: rule_matches_def rule_delivery_scam_def rx_build rx_run)

lemma msg_nines_rule_loan_scam: "rule_matches rule_loan_scam (str ''9999999999'') = False"
  by (simp add: rule_matches_def rule_loan_scam_def rx_build rx_run)

lemma msg_nines_rule_investment_scam: "rule_matches rule_investment_scam (str ''9999999999'') = False"
  by (simp add: rule_matches_def rule_investment_scam_def rx_build rx_run)

lemma msg_nines_rule_whatsapp_forward: "rule_matches rule_whatsapp_forward (str ''9999999999'') = False"
  by (simp add: rule_matches_def rule_whatsapp_forward_def rx_build rx_run)

lemmas msg_nines_rules = msg_nines_rule_urgency msg_nines_rule_otp_kyc msg_nines_rule_account_threat msg_nines_rule_lottery_reward msg_nines_rule_job_scam msg_nines_rule_authority msg_nines_rule_money_request msg_nines_rule_poor_grammar msg_nines_rule_embedded_link msg_nines_rule_delivery_scam msg_nines_rule_loan_scam msg_nines_rule_investment_scam msg_nines_rule_whatsapp_forward

lemma msg_nines_fired: "fired_rules (str ''9999999999'') = []"
  by (simp add: fired_rules_def MESSAGE_RULES_def msg_nines_rules)

lemma msg_otp_result:
  "riskScore (analyzeMessage basic_runtime (str ''otp a.tk'')) = 34
   \<and> riskLevel (analyzeMessage basic_runtime (str ''otp a.tk'')) = suspicious
   \<and> flags (analyzeMessage basic_runtime (str ''otp a.tk'')) = [''otp_kyc_request'', ''suspicious_tld'']
   \<and> details (analyzeMessage basic_runtime (str ''otp a.tk''))
       = [\<lparr>rule = ''otp_kyc'', flag = ''otp_kyc_request'', points = 25\<rparr>]
   \<and> embeddedUrls (analyzeMessage basic_runtime (str ''otp a.tk'')) = Some [str ''a.tk'']
   \<and> embeddedPhones (analyzeMessage basic_runtime (str ''otp a.tk'')) = Some []"
  by (simp add: analyzeMessage_def analyzeMessage_acc_score analyzeMessage_acc_details
      analyzeMessage_acc_flags msg_otp_lower msg_otp_fired msg_otp_urls msg_otp_phones
      url_contribution_def eval_url_atk calculateRiskLevel_def)

lemma msg_three_result:
  "riskScore (analyzeMessage basic_runtime (str ''a.tk b.tk c.tk'')) = 18
   \<and> riskLevel (analyzeMessage basic_runtime (str ''a.tk b.tk c.tk'')) = safe
   \<and> flags (analyzeMessage basic_runtime (str ''a.tk b.tk c.tk'')) = [''suspicious_tld'']
   \<and> details (analyzeMessage basic_runtime (str ''a.tk b.tk c.tk'')) = []
   \<and> embeddedUrls (analyzeMessage basic_runtime (str ''a.tk b.tk c.tk''))
       = Some [str ''a.tk'', str ''b.tk'', str ''c.tk'']
   \<and> embeddedPhones (analyzeMessage basic_runtime (str ''a.tk b.tk c.tk'')) = Some []"
  by (simp add: analyzeMessage_def analyzeMessage_acc_score analyzeMessage_acc_details
      analyzeMessage_acc_flags msg_three_lower msg_three_fired msg_three_urls msg_three_phones
      url_contribution_def eval_url_atk eval_url_btk calculateRiskLevel_def)

lemma msg_nines_result:
  "riskScore (analyzeMessage basic_runtime (str ''9999999999'')) = 5
   \<and> riskLevel (analyzeMessage basic_runtime (str ''9999999999'')) = safe
   \<and> flags (analyzeMessage basic_runtime (str ''9999999999'')) = [''suspicious_repeated_digits'']
   \<and> details (analyzeMessage basic_runtime (str ''9999999999'')) = []
   \<and> embeddedUrls (analyzeMessage basic_runtime (str ''9999999999'')) = Some []
   \<and> embeddedPhones (analyzeMessage basic_runtime (str ''9999999999'')) = Some [str ''9999999999'']"
  by (simp add: analyzeMessage_def analyzeMessage_acc_score analyzeMessage_acc_details
      analyzeMessage_acc_flags msg_nines_lower msg_nines_fired msg_nines_urls msg_nines_phones
      phone_contribution_def eval_phone_nines calculateRiskLevel_def)

lemma msg_otp_normal: "normalizeInput (str ''otp a.tk'') = str ''otp a.tk''"
  by (simp add: normalizeInput_def trim_def str_def is_space_def)

lemma msg_otp_trim: "trim (str ''otp a.tk'') = str ''otp a.tk''"
  by (simp add: trim_def str_def is_space_def)

subsection \<open>An explicit type outside the supported ones\<close>

lemma dispatch_other:
  "ty \<noteq> str ''url'' \<Longrightarrow> ty \<noteq> str ''phone'' \<Longrightarrow> dispatch rt ty n = analyzeMessage rt n"
  by (simp add: dispatch_def)

lemma resolve_explicit: "t \<noteq> str ''auto'' \<Longrightarrow> t \<noteq> [] \<Longrightarrow> resolve_type (Some t) n = t"
  by (simp add: resolve_type_def)

lemma SUPPORTED_TYPES_mem:
  "t \<in> set SUPPORTED_TYPES \<longleftrightarrow>
     t = str ''message'' \<or> t = str ''url'' \<or> t = str ''phone'' \<or> t = str ''auto''"
  by (simp add: SUPPORTED_TYPES_def)

lemma analyze_unsupported:
  assumes "t \<notin> set SUPPORTED_TYPES" and "t \<noteq> []"
  shows "inputType (analyze rt input (Some t)) = t"
    and "riskScore (analyze rt input (Some t)) = riskScore (analyzeMessage rt (normalizeInput input))"
    and "riskLevel (analyze rt input (Some t)) = riskLevel (analyzeMessage rt (normalizeInput input))"
    and "flags (analyze rt input (Some t)) = flags (analyzeMessage rt (normalizeInput input))"
    and "details (analyze rt input (Some t)) = details (analyzeMessage rt (normalizeInput input))"
  using assms by (simp_all add: SUPPORTED_TYPES_mem resolve_explicit dispatch_other)

lemma POST_unsupported:
  assumes "t \<notin> set SUPPORTED_TYPES" and "t \<noteq> []" and "trim raw \<noteq> []"
  shows "map_option inputType (response_result (POST rt g \<lparr>body_input = Some raw, body_type = Some t\<rparr>))
           = Some t"
    and "map_option riskScore (response_result (POST rt g \<lparr>body_input = Some raw, body_type = Some t\<rparr>))
           = Some (riskScore (analyzeMessage rt (normalizeInput (trim raw))))"
    and "map_option flags (response_result (POST rt g \<lparr>body_input = Some raw, body_type = Some t\<rparr>))
           = Some (flags (analyzeMessage rt (normalizeInput (trim raw))))"
proof -
  have raw: "raw \<noteq> []"
    using assms(3) by (auto simp: trim_def)
  have res: "response_result (POST rt g \<lparr>body_input = Some raw, body_type = Some t\<rparr>) =
      Some ((analyze rt (trim raw) (Some t))
        \<lparr>embeddedUrls := Some (case embeddedUrls (analyze rt (trim raw) (Some t)) of
             None \<Rightarrow> [] | Some us \<Rightarrow> us),
         embeddedPhones := Some (case embeddedPhones (analyze rt (trim raw) (Some t)) of
             None \<Rightarrow> [] | Some ps \<Rightarrow> ps),
         explanation := or_else (g (inputType (analyze rt (trim raw) (Some t)))
             (riskScore (analyze rt (trim raw) (Some t))) (flags (analyze rt (trim raw) (Some t)))
             (language (analyze rt (trim raw) (Some t))) (trim raw))
           (explanation (analyze rt (trim raw) (Some t)))\<rparr>)"
    using raw assms(2,3) by (simp add: POST_def or_else_def response_result_def Let_def)
  show "map_option inputType (response_result (POST rt g \<lparr>body_input = Some raw, body_type = Some t\<rparr>))
           = Some t"
    unfolding res using analyze_unsupported(1) [OF assms(1,2)] by simp
  show "map_option riskScore (response_result (POST rt g \<lparr>body_input = Some raw, body_type = Some t\<rparr>))
           = Some (riskScore (analyzeMessage rt (normalizeInput (trim raw))))"
    unfolding res using analyze_unsupported(2) [OF assms(1,2)] by simp
  show "map_option flags (response_result (POST rt g \<lparr>body_input = Some raw, body_type = Some t\<rparr>))
           = Some (flags (analyzeMessage rt (normalizeInput (trim raw))))"
    unfolding res using analyze_unsupported(4) [OF assms(1,2)] by simp
qed

lemma email_unsupported: "str ''email'' \<notin> set SUPPORTED_TYPES" "str ''email'' \<noteq> []"
  by (simp_all add: SUPPORTED_TYPES_def str_def)

lemma sms_unsupported: "str ''sms'' \<notin> set SUPPORTED_TYPES" "str ''sms'' \<noteq> []"
  by (simp_all add: SUPPORTED_TYPES_def str_def)

section \<open>The claims\<close>

text \<open>
  C1. The risk level is a total function of the score alone: a score of at most 30 is
  safe, 31 to 60 is suspicious, 61 or more is high risk; the six boundary values of the
  specification come out as listed; and the level of every result of the three analyzers
  and of \<open>analyze\<close> is \<open>calculateRiskLevel\<close> of that result's score.
\<close>

theorem C1_risk_level_of_score:
  "(score \<le> 30 \<longrightarrow> calculateRiskLevel score = safe)
   \<and> (31 \<le> score \<and> score \<le> 60 \<longrightarrow> calculateRiskLevel score = suspicious)
   \<and> (61 \<le> score \<longrightarrow> calculateRiskLevel score = high_risk)
   \<and> calculateRiskLevel 29 = safe \<and> calculateRiskLevel 30 = safe
   \<and> calculateRiskLevel 31 = suspicious \<and> calculateRiskLevel 60 = suspicious
   \<and> calculateRiskLevel 61 = high_risk \<and> calculateRiskLevel 100 = high_risk
   \<and> riskLevel (analyzeMessage rt text) = calculateRiskLevel (riskScore (analyzeMessage rt text))
   \<and> riskLevel (analyzeUrl rt text) = calculateRiskLevel (riskScore (analyzeUrl rt text))
   \<and> riskLevel (analyzePhone text) = calculateRiskLevel (riskScore (analyzePhone text))
   \<and> riskLevel (analyze rt text ty) = calculateRiskLevel (riskScore (analyze rt text ty))"
proof -
  have tiers: "(score \<le> 30 \<longrightarrow> calculateRiskLevel score = safe)
      \<and> (31 \<le> score \<and> score \<le> 60 \<longrightarrow> calculateRiskLevel score = suspicious)
      \<and> (61 \<le> score \<longrightarrow> calculateRiskLevel score = high_risk)"
    by (simp add: calculateRiskLevel_def)
  have boundary: "calculateRiskLevel 29 = safe \<and> calculateRiskLevel 30 = safe
      \<and> calculateRiskLevel 31 = suspicious \<and> calculateRiskLevel 60 = suspicious
      \<and> calculateRiskLevel 61 = high_risk \<and> calculateRiskLevel 100 = high_risk"
    by (simp add: calculateRiskLevel_def)
  have "riskLevel (analyze rt text ty) = calculateRiskLevel (riskScore (analyze rt text ty))"
    using dispatch_cases [of rt "resolve_type ty (normalizeInput text)" "normalizeInput text"]
    by (auto simp: riskLevel_of_score)
  with tiers boundary show ?thesis
    by (simp only: riskLevel_of_score simp_thms)
qed

theorem C1_witness:
  "calculateRiskLevel 12 = safe \<and> calculateRiskLevel 45 = suspicious
   \<and> calculateRiskLevel 75 = high_risk"
  using C1_risk_level_of_score [of 12] C1_risk_level_of_score [of 45]
    C1_risk_level_of_score [of 75]
  by simp

text \<open>
  C2. The score of every result of the three analyzers and of \<open>analyze\<close> lies between 0
  and 100: it is the accumulated sum cut off at 100, \<open>min\<close> of the sum and 100 and not
  the sum modulo anything, and the accumulated sum is never negative.
\<close>

theorem C2_score_bounds:
  "0 \<le> riskScore (analyzeMessage rt text) \<and> riskScore (analyzeMessage rt text) \<le> 100
   \<and> 0 \<le> riskScore (analyzeUrl rt text) \<and> riskScore (analyzeUrl rt text) \<le> 100
   \<and> 0 \<le> riskScore (analyzePhone text) \<and> riskScore (analyzePhone text) \<le> 100
   \<and> 0 \<le> riskScore (analyze rt text ty) \<and> riskScore (analyze rt text ty) \<le> 100
   \<and> riskScore (analyzeMessage rt text) = min (acc_score (analyzeMessage_acc rt text)) 100
   \<and> riskScore (analyzeUrl rt text) = min (acc_score (analyzeUrl_acc rt text)) 100
   \<and> riskScore (analyzePhone text) = min (acc_score (analyzePhone_acc text)) 100
   \<and> 0 \<le> acc_score (analyzeMessage_acc rt text)
   \<and> 0 \<le> acc_score (analyzeUrl_acc rt text)
   \<and> 0 \<le> acc_score (analyzePhone_acc text)"
proof -
  have "0 \<le> riskScore (analyze rt text ty) \<and> riskScore (analyze rt text ty) \<le> 100"
    using dispatch_cases [of rt "resolve_type ty (normalizeInput text)" "normalizeInput text"]
    by (auto simp: riskScore_bounds)
  then show ?thesis
    using riskScore_bounds(1) [of rt "text"] riskScore_bounds(2) [of "text"]
      riskScore_bounds(3) [of rt "text"]
      analyzeMessage_acc_nonneg [of rt "text"] analyzeUrl_acc_nonneg [of rt "text"]
      analyzePhone_acc_nonneg [of "text"]
    by (simp add: analyzeMessage_def analyzeUrl_def analyzePhone_def)
qed

theorem C2_witness:
  "acc_score (analyzeUrl_acc basic_runtime
      (str ''http://1.2.3.4/bank-login-token-claim-prize-click'')) = 105
   \<and> riskScore (analyzeUrl basic_runtime
      (str ''http://1.2.3.4/bank-login-token-claim-prize-click'')) = 100"
  using C2_score_bounds [of basic_runtime "str ''http://1.2.3.4/bank-login-token-claim-prize-click''"]
    eval_url_many_tokens_raw
  by simp

text \<open>
  C3, as the code has it. The URL and the phone analyzer push a detail with every flag, so
  their details and flags are parallel and of equal length. The message analyzer pushes a
  detail only for its own rules: its details are exactly the entries of the rules that
  fire, in catalog order, each with the rule's name, flag and weight; they are parallel to
  the leading flags, and the flags merged in from embedded URLs and phone numbers follow
  without details, so the details are at most as many as the flags. In all results no flag
  and no detail flag occurs twice.
\<close>

theorem C3_details_parallel_to_flags:
  "map flag (details (analyzeUrl rt text)) = flags (analyzeUrl rt text)
   \<and> length (details (analyzeUrl rt text)) = length (flags (analyzeUrl rt text))
   \<and> map flag (details (analyzePhone text)) = flags (analyzePhone text)
   \<and> length (details (analyzePhone text)) = length (flags (analyzePhone text))
   \<and> flags (analyzeMessage rt text) =
        map flag (details (analyzeMessage rt text))
        @ keep_first (set (map flag (details (analyzeMessage rt text))))
            (concat (map (\<lambda>u. flags (analyzeUrl rt u)) (take 2 (extractUrls text)))
             @ concat (map (\<lambda>p. flags (analyzePhone p)) (take 2 (extractPhones text))))
   \<and> length (details (analyzeMessage rt text)) \<le> length (flags (analyzeMessage rt text))
   \<and> length (details (analyze rt text ty)) \<le> length (flags (analyze rt text ty))
   \<and> map flag (details (analyze rt text ty))
        = take (length (details (analyze rt text ty))) (flags (analyze rt text ty))
   \<and> distinct (map flag (details (analyzeUrl rt text)))
   \<and> distinct (map flag (details (analyzePhone text)))
   \<and> distinct (map flag (details (analyzeMessage rt text)))
   \<and> distinct (map flag (details (analyze rt text ty)))
   \<and> details (analyzeMessage rt text) =
        map (\<lambda>nr. \<lparr>rule = fst nr, flag = rule_flag (snd nr), points = weight (snd nr)\<rparr>)
          (fired_rules (toLowerCase rt text))
   \<and> length (details (analyzeMessage rt text)) = length (fired_rules (toLowerCase rt text))"
proof -
  let ?emb = "concat (map (\<lambda>u. flags (analyzeUrl rt u)) (take 2 (extractUrls text)))
      @ concat (map (\<lambda>p. flags (analyzePhone p)) (take 2 (extractPhones text)))"
  have md: "map flag (details (analyzeMessage rt t)) =
      map (\<lambda>nr. rule_flag (snd nr)) (fired_rules (toLowerCase rt t))" for t
    by (simp add: analyzeMessage_def analyzeMessage_acc_details comp_def)
  have mf: "flags (analyzeMessage rt t) =
      map flag (details (analyzeMessage rt t))
      @ keep_first (set (map flag (details (analyzeMessage rt t))))
          (concat (map (\<lambda>u. flags (analyzeUrl rt u)) (take 2 (extractUrls t)))
           @ concat (map (\<lambda>p. flags (analyzePhone p)) (take 2 (extractPhones t))))" for t
    unfolding md by (simp add: analyzeMessage_def analyzeMessage_acc_flags_split)
  have ml: "length (details (analyzeMessage rt t)) \<le> length (flags (analyzeMessage rt t))" for t
    using arg_cong [OF mf [of t], of length] by simp
  have mt: "map flag (details (analyzeMessage rt t))
      = take (length (details (analyzeMessage rt t))) (flags (analyzeMessage rt t))" for t
    using arg_cong [OF mf [of t], of "take (length (details (analyzeMessage rt t)))"] by simp
  have mdist: "distinct (map flag (details (analyzeMessage rt t)))" for t
    unfolding md by (rule fired_rules_distinct)
  have ul: "length (details (analyzeUrl rt u)) = length (flags (analyzeUrl rt u))" for u
    using arg_cong [OF analyzeUrl_parallel [of rt u], of length] by simp
  have pl: "length (details (analyzePhone p)) = length (flags (analyzePhone p))" for p
    using arg_cong [OF analyzePhone_parallel [of p], of length] by simp
  have ud: "distinct (map flag (details (analyzeUrl rt u)))" for u
    unfolding analyzeUrl_parallel by (rule flags_distinct)
  have pd: "distinct (map flag (details (analyzePhone p)))" for p
    unfolding analyzePhone_parallel by (rule flags_distinct)
  have ut: "map flag (details (analyzeUrl rt u))
      = take (length (details (analyzeUrl rt u))) (flags (analyzeUrl rt u))" for u
    by (simp add: ul analyzeUrl_parallel)
  have pt: "map flag (details (analyzePhone p))
      = take (length (details (analyzePhone p))) (flags (analyzePhone p))" for p
    by (simp add: pl analyzePhone_parallel)
  let ?n = "normalizeInput text"
  let ?d = "dispatch rt (resolve_type ty ?n) ?n"
  have dl: "length (details ?d) \<le> length (flags ?d)"
    using dispatch_cases [of rt "resolve_type ty ?n" ?n] ml [of ?n] ul [of ?n] pl [of ?n]
    by auto
  have dt: "map flag (details ?d) = take (length (details ?d)) (flags ?d)"
    using dispatch_cases [of rt "resolve_type ty ?n" ?n] mt [of ?n] ut [of ?n] pt [of ?n]
    by auto
  have dd: "distinct (map flag (details ?d))"
    using dispatch_cases [of rt "resolve_type ty ?n" ?n] mdist [of ?n] ud [of ?n] pd [of ?n]
    by auto
  have al: "length (details (analyze rt text ty)) \<le> length (flags (analyze rt text ty))"
    using dl by simp
  have at: "map flag (details (analyze rt text ty))
      = take (length (details (analyze rt text ty))) (flags (analyze rt text ty))"
    using dt by simp
  have ad: "distinct (map flag (details (analyze rt text ty)))"
    using dd by simp
  have own: "details (analyzeMessage rt text) =
      map (\<lambda>nr. \<lparr>rule = fst nr, flag = rule_flag (snd nr), points = weight (snd nr)\<rparr>)
        (fired_rules (toLowerCase rt text))"
    by (simp add: analyzeMessage_def analyzeMessage_acc_details)
  have own_length: "length (details (analyzeMessage rt text)) = length (fired_rules (toLowerCase rt text))"
    unfolding own by simp
  note facts = analyzeUrl_parallel [of rt "text"] ul [of "text"] analyzePhone_parallel [of "text"]
    pl [of "text"] mf [of "text"] ml [of "text"] al at ud [of "text"] pd [of "text"]
    mdist [of "text"] ad own own_length
  show ?thesis
    by (intro conjI) (rule facts)+
qed

theorem C3_witness:
  "details (analyzeMessage basic_runtime (str ''otp a.tk''))
     = [\<lparr>rule = ''otp_kyc'', flag = ''otp_kyc_request'', points = 25\<rparr>]
   \<and> flags (analyzeMessage basic_runtime (str ''otp a.tk''))
     = [''otp_kyc_request''] @ keep_first {''otp_kyc_request''} [''suspicious_tld'']
   \<and> length (details (analyzeMessage basic_runtime (str ''otp a.tk'')))
     \<le> length (flags (analyzeMessage basic_runtime (str ''otp a.tk'')))
   \<and> map flag (details (analyzeUrl basic_runtime (str ''http://amaz0n-secure.xyz/login'')))
     = [''no_https'', ''suspicious_tld'', ''brand_spoofing'', ''suspicious_path_token'']"
proof -
  note msg = C3_details_parallel_to_flags [of basic_runtime "str ''otp a.tk''" None]
  note url = C3_details_parallel_to_flags [of basic_runtime "str ''http://amaz0n-secure.xyz/login''" None]
  from msg have "details (analyzeMessage basic_runtime (str ''otp a.tk'')) =
      map (\<lambda>nr. \<lparr>rule = fst nr, flag = rule_flag (snd nr), points = weight (snd nr)\<rparr>)
        (fired_rules (toLowerCase basic_runtime (str ''otp a.tk'')))"
    by blast
  then have d: "details (analyzeMessage basic_runtime (str ''otp a.tk''))
      = [\<lparr>rule = ''otp_kyc'', flag = ''otp_kyc_request'', points = 25\<rparr>]"
    by (simp add: msg_otp_lower msg_otp_fired)
  from msg have "flags (analyzeMessage basic_runtime (str ''otp a.tk'')) =
      map flag (details (analyzeMessage basic_runtime (str ''otp a.tk'')))
      @ keep_first (set (map flag (details (analyzeMessage basic_runtime (str ''otp a.tk'')))))
          (concat (map (\<lambda>u. flags (analyzeUrl basic_runtime u)) (take 2 (extractUrls (str ''otp a.tk''))))
           @ concat (map (\<lambda>p. flags (analyzePhone p)) (take 2 (extractPhones (str ''otp a.tk'')))))"
    by blast
  then have f: "flags (analyzeMessage basic_runtime (str ''otp a.tk''))
      = [''otp_kyc_request''] @ keep_first {''otp_kyc_request''} [''suspicious_tld'']"
    unfolding d by (simp add: msg_otp_urls msg_otp_phones eval_url_atk)
  from msg have l: "length (details (analyzeMessage basic_runtime (str ''otp a.tk'')))
      \<le> length (flags (analyzeMessage basic_runtime (str ''otp a.tk'')))"
    by blast
  from url have "map flag (details (analyzeUrl basic_runtime (str ''http://amaz0n-secure.xyz/login'')))
      = flags (analyzeUrl basic_runtime (str ''http://amaz0n-secure.xyz/login''))"
    by blast
  then have u: "map flag (details (analyzeUrl basic_runtime (str ''http://amaz0n-secure.xyz/login'')))
      = [''no_https'', ''suspicious_tld'', ''brand_spoofing'', ''suspicious_path_token'']"
    by (simp add: eval_url_amaz0n)
  show ?thesis
    using d f l u by blast
qed

theorem C3_counterexample:
  "length (details (analyzeMessage basic_runtime (str ''otp a.tk''))) = 1
   \<and> length (flags (analyzeMessage basic_runtime (str ''otp a.tk''))) = 2"
  using msg_otp_result by simp

text \<open>
  C4. The message score is the sum of the weights of the rules that fire, plus for each of
  the first two extracted URLs half its URL score (rounded down, at most 30), plus for each
  of the first two extracted phone numbers a third of its phone score (rounded down, at
  most 15), cut off at 100. The flags are those of the rules, then those of the two URLs,
  then those of the two phone numbers, each kept where it first occurs. The embedded URLs
  and phone numbers returned are everything extracted.
\<close>

theorem C4_embedded_entities:
  "riskScore (analyzeMessage rt text) =
     min (sum_list (map (\<lambda>nr. weight (snd nr)) (fired_rules (toLowerCase rt text)))
          + sum_list (map (\<lambda>u. min (riskScore (analyzeUrl rt u) div 2) 30) (take 2 (extractUrls text)))
          + sum_list (map (\<lambda>p. min (riskScore (analyzePhone p) div 3) 15) (take 2 (extractPhones text))))
         100
   \<and> flags (analyzeMessage rt text) =
       keep_first {}
         (map (\<lambda>nr. rule_flag (snd nr)) (fired_rules (toLowerCase rt text))
          @ concat (map (\<lambda>u. flags (analyzeUrl rt u)) (take 2 (extractUrls text)))
          @ concat (map (\<lambda>p. flags (analyzePhone p)) (take 2 (extractPhones text))))
   \<and> embeddedUrls (analyzeMessage rt text) = Some (extractUrls text)
   \<and> embeddedPhones (analyzeMessage rt text) = Some (extractPhones text)"
proof -
  have "url_contribution rt = (\<lambda>u. min (riskScore (analyzeUrl rt u) div 2) 30)"
    by (rule ext) (simp add: url_contribution_def)
  moreover have "phone_contribution = (\<lambda>p. min (riskScore (analyzePhone p) div 3) 15)"
    by (rule ext) (simp add: phone_contribution_def)
  ultimately show ?thesis
    using analyzeMessage_acc_score [of rt "text"] analyzeMessage_flags [of rt "text"]
    by (simp add: analyzeMessage_def)
qed

theorem C4_witness:
  "riskScore (analyzeMessage basic_runtime (str ''a.tk b.tk c.tk'')) = min (0 + (9 + 9) + 0) 100
   \<and> embeddedUrls (analyzeMessage basic_runtime (str ''a.tk b.tk c.tk''))
       = Some [str ''a.tk'', str ''b.tk'', str ''c.tk'']
   \<and> riskScore (analyzeMessage basic_runtime (str ''9999999999'')) = min (0 + 0 + 5) 100"
  using C4_embedded_entities [of basic_runtime "str ''a.tk b.tk c.tk''"]
    C4_embedded_entities [of basic_runtime "str ''9999999999''"]
    msg_three_lower msg_three_fired msg_three_urls msg_three_phones eval_url_atk eval_url_btk
    msg_nines_lower msg_nines_fired msg_nines_urls msg_nines_phones eval_phone_nines
  by simp

text \<open>
  C5. The URL analyzer raises \<open>brand_spoofing\<close> exactly when some known brand occurs in
  the host name, as it stands or after undoing the substitutions 0 to o, 1 to l, 3 to e,
  5 to s, 4 to a, 7 to t and 8 to b, and the host name ends with none of that brand's
  official domains. The detail carries 22 points and is recorded once, and the check adds
  22 points once however many brands are spoofed. \<open>https://amazon.in\<close> is not flagged;
  \<open>http://amaz0n-secure.xyz/login\<close> gets \<open>brand_spoofing\<close> and \<open>suspicious_tld\<close>.
\<close>

theorem C5_brand_spoofing:
  "(''brand_spoofing'' \<in> set (flags (analyzeUrl rt url))) =
     (\<exists>brand\<in>set KNOWN_BRANDS.
        (str_includes (url_domain rt url) (toLowerCase rt brand)
         \<or> str_includes (deleet (url_domain rt url)) (toLowerCase rt brand))
        \<and> \<not> (\<exists>od\<in>set (officialDomains brand). endsWith (url_domain rt url) od))
   \<and> (\<lparr>rule = ''brand_spoof'', flag = ''brand_spoofing'', points = 22\<rparr>
         \<in> set (details (analyzeUrl rt url)))
      = (''brand_spoofing'' \<in> set (flags (analyzeUrl rt url)))
   \<and> length (filter (\<lambda>x. flag x = ''brand_spoofing'') (details (analyzeUrl rt url))) \<le> 1
   \<and> acc_score (check_brand rt (url_domain rt url) a) =
       acc_score a + (if ''brand_spoofing'' \<in> set (flags (analyzeUrl rt url)) then 22 else 0)
   \<and> deleet (str ''0135478'') = str ''olesatb''
   \<and> ''brand_spoofing'' \<notin> set (flags (analyzeUrl basic_runtime (str ''https://amazon.in'')))
   \<and> ''brand_spoofing'' \<in> set (flags (analyzeUrl basic_runtime (str ''http://amaz0n-secure.xyz/login'')))
   \<and> ''suspicious_tld'' \<in> set (flags (analyzeUrl basic_runtime (str ''http://amaz0n-secure.xyz/login'')))"
proof -
  have once: "length (filter (\<lambda>x. flag x = ''brand_spoofing'') (details (analyzeUrl rt url))) \<le> 1"
  proof -
    have "distinct (map flag (details (analyzeUrl rt url)))"
      unfolding analyzeUrl_parallel by (rule flags_distinct)
    from filter_flag_le_one [OF this] show ?thesis by simp
  qed
  have score: "acc_score (check_brand rt (url_domain rt url) a) =
      acc_score a + (if ''brand_spoofing'' \<in> set (flags (analyzeUrl rt url)) then 22 else 0)"
    unfolding analyzeUrl_brand_flag by (simp add: check_brand_def)
  have scen: "''brand_spoofing'' \<notin> set (flags (analyzeUrl basic_runtime (str ''https://amazon.in'')))
      \<and> ''brand_spoofing'' \<in> set (flags (analyzeUrl basic_runtime (str ''http://amaz0n-secure.xyz/login'')))
      \<and> ''suspicious_tld'' \<in> set (flags (analyzeUrl basic_runtime (str ''http://amaz0n-secure.xyz/login'')))"
    by (simp add: eval_url_amazon_in eval_url_amaz0n)
  show ?thesis
    using once score scen eval_deleet
    by (simp only: analyzeUrl_brand_detail analyzeUrl_brand_flag spoofed_iff simp_thms)
qed

theorem C5_witness:
  "(\<exists>brand\<in>set KNOWN_BRANDS.
        (str_includes (url_domain basic_runtime (str ''http://amaz0n-secure.xyz/login''))
           (toLowerCase basic_runtime brand)
         \<or> str_includes (deleet (url_domain basic_runtime (str ''http://amaz0n-secure.xyz/login'')))
           (toLowerCase basic_runtime brand))
        \<and> \<not> (\<exists>od\<in>set (officialDomains brand).
              endsWith (url_domain basic_runtime (str ''http://amaz0n-secure.xyz/login'')) od))
   \<and> \<lparr>rule = ''brand_spoof'', flag = ''brand_spoofing'', points = 22\<rparr>
       \<in> set (details (analyzeUrl basic_runtime (str ''http://amaz0n-secure.xyz/login'')))"
  using C5_brand_spoofing [where rt = basic_runtime
      and url = "str ''http://amaz0n-secure.xyz/login''" and a = acc0]
  by blast

text \<open>
  C6, as the code has it. The check reads the lower-cased text of the URL, not the parsed
  host: whenever that text contains \<open>http://\<close> or \<open>https://\<close> directly followed by
  four dot-separated groups of one to three digits, \<open>ip_based_url\<close> is raised with a
  detail of 25 points, the check adds 25 points, and the score is at least 25.
  \<open>http://192.168.0.1/verify\<close> is flagged, with a score of at least 25.
\<close>

theorem C6_ip_based_url:
  assumes "rx_test False ip_pattern (toLowerCase rt url)"
  shows "''ip_based_url'' \<in> set (flags (analyzeUrl rt url))
   \<and> \<lparr>rule = ''ip_based'', flag = ''ip_based_url'', points = 25\<rparr> \<in> set (details (analyzeUrl rt url))
   \<and> 25 \<le> riskScore (analyzeUrl rt url)
   \<and> acc_score (check_ip (toLowerCase rt url) a) = acc_score a + 25
   \<and> ''ip_based_url'' \<in> set (flags (analyzeUrl basic_runtime (str ''http://192.168.0.1/verify'')))
   \<and> 25 \<le> riskScore (analyzeUrl basic_runtime (str ''http://192.168.0.1/verify''))"
proof -
  have "acc_score (check_ip (toLowerCase rt url) a) = acc_score a + 25"
    using assms by (simp add: check_ip_def)
  moreover have "''ip_based_url'' \<in> set (flags (analyzeUrl basic_runtime (str ''http://192.168.0.1/verify'')))
      \<and> 25 \<le> riskScore (analyzeUrl basic_runtime (str ''http://192.168.0.1/verify''))"
    by (simp add: eval_url_ip_verify)
  ultimately show ?thesis
    using assms analyzeUrl_ip_score [OF assms]
    by (simp only: analyzeUrl_ip_flag analyzeUrl_ip_detail simp_thms)
qed

theorem C6_witness:
  "rx_test False ip_pattern (toLowerCase basic_runtime (str ''http://192.168.0.1/verify''))
   \<and> \<lparr>rule = ''ip_based'', flag = ''ip_based_url'', points = 25\<rparr>
       \<in> set (details (analyzeUrl basic_runtime (str ''http://192.168.0.1/verify'')))
   \<and> acc_score (check_ip (toLowerCase basic_runtime (str ''http://192.168.0.1/verify'')) acc0) = 0 + 25"
  using C6_ip_based_url [OF eval_ip_test, of acc0] eval_ip_test
  by simp

theorem C6_counterexample:
  "url_domain basic_runtime (str ''192.168.0.1/verify'') = str ''192.168.0.1''
   \<and> ip_literal (url_domain basic_runtime (str ''192.168.0.1/verify''))
   \<and> ''ip_based_url'' \<notin> set (flags (analyzeUrl basic_runtime (str ''192.168.0.1/verify'')))
   \<and> riskScore (analyzeUrl basic_runtime (str ''192.168.0.1/verify'')) = 12"
  by (simp add: eval_domain_bare_ip eval_ip_literal eval_url_bare_ip)

text \<open>
  C7. In the phone analyzer, the digits of the cleaned number are the decimal digits of
  the input in their order, and the last ten of them are what remains after dropping all
  but ten. The detail \<open>repeated_digits\<close> with 15 points is recorded exactly when these
  last ten digits have at most two distinct values; the detail \<open>repeated_sequence\<close>
  with 12 points exactly when some digit occurs five times in a row among the digits and
  the first check did not fire; the flag \<open>suspicious_repeated_digits\<close> is raised exactly
  when one of the two holds; and the two checks together add 15, or else 12, or nothing,
  never both. \<open>9999999999\<close> is flagged; \<open>+91 8999999999\<close> has three distinct digits but
  two among its last ten, and \<open>89999-99999 ext.1\<close> has letters and a dot between its
  digits: both get the 15 points.
\<close>

theorem C7_repeated_digits:
  "(\<lparr>rule = ''repeated_digits'', flag = ''suspicious_repeated_digits'', points = 15\<rparr>
       \<in> set (details (analyzePhone phone)))
     = (card (set (drop (length (filter is_digit phone) - 10) (filter is_digit phone))) \<le> 2)
   \<and> (\<lparr>rule = ''repeated_sequence'', flag = ''suspicious_repeated_digits'', points = 12\<rparr>
       \<in> set (details (analyzePhone phone)))
     = (has_digit_run (filter is_digit phone)
        \<and> \<not> card (set (drop (length (filter is_digit phone) - 10) (filter is_digit phone))) \<le> 2)
   \<and> (''suspicious_repeated_digits'' \<in> set (flags (analyzePhone phone)))
     = (card (set (drop (length (filter is_digit phone) - 10) (filter is_digit phone))) \<le> 2
        \<or> has_digit_run (filter is_digit phone))
   \<and> acc_score (analyzePhone_acc phone) =
       acc_score (check_pattern (digitsOnly phone) (check_length (digitsOnly phone)
         (check_foreign (cleanPhone phone) acc0)))
       + (if card (set (drop (length (filter is_digit phone) - 10) (filter is_digit phone))) \<le> 2
          then 15
          else if has_digit_run (filter is_digit phone) then 12 else 0)
   \<and> digitsOnly phone = filter is_digit phone
   \<and> slice_last 10 (digitsOnly phone)
       = drop (length (filter is_digit phone) - 10) (filter is_digit phone)
   \<and> length (slice_last 10 (digitsOnly phone)) = min 10 (length (filter is_digit phone))
   \<and> ''suspicious_repeated_digits'' \<in> set (flags (analyzePhone (str ''9999999999'')))
   \<and> details (analyzePhone (str ''+91 8999999999''))
       = [\<lparr>rule = ''repeated_digits'', flag = ''suspicious_repeated_digits'', points = 15\<rparr>]
   \<and> details (analyzePhone (str ''89999-99999 ext.1''))
       = [\<lparr>rule = ''repeated_digits'', flag = ''suspicious_repeated_digits'', points = 15\<rparr>]"
proof -
  let ?ds = "filter is_digit phone"
  let ?last = "drop (length ?ds - 10) ?ds"
  have c1: "(\<lparr>rule = ''repeated_digits'', flag = ''suspicious_repeated_digits'', points = 15\<rparr>
        \<in> set (details (analyzePhone phone))) = (card (set ?last) \<le> 2)"
    using analyzePhone_repeated_detail [of phone] unfolding digitsOnly_filter slice_last_def .
  have c2: "(\<lparr>rule = ''repeated_sequence'', flag = ''suspicious_repeated_digits'', points = 12\<rparr>
        \<in> set (details (analyzePhone phone))) = (has_digit_run ?ds \<and> \<not> card (set ?last) \<le> 2)"
    using analyzePhone_sequence_detail [of phone] unfolding digitsOnly_filter slice_last_def .
  have c3: "(''suspicious_repeated_digits'' \<in> set (flags (analyzePhone phone)))
      = (card (set ?last) \<le> 2 \<or> has_digit_run ?ds)"
    using analyzePhone_repeated_flag [of phone] unfolding digitsOnly_filter slice_last_def .
  have c4: "acc_score (analyzePhone_acc phone) =
      acc_score (check_pattern (digitsOnly phone) (check_length (digitsOnly phone)
        (check_foreign (cleanPhone phone) acc0)))
      + (if card (set ?last) \<le> 2 then 15 else if has_digit_run ?ds then 12 else 0)"
  proof -
    have "(if card (set (slice_last 10 (digitsOnly phone))) \<le> 2 then 15
           else if has_digit_run (digitsOnly phone) then 12 else (0::int))
        = (if card (set ?last) \<le> 2 then 15 else if has_digit_run ?ds then 12 else 0)"
      by (simp add: digitsOnly_filter slice_last_def)
    with analyzePhone_repetition_score [of phone] show ?thesis by simp
  qed
  have c5: "digitsOnly phone = ?ds"
    by (rule digitsOnly_filter)
  have c6: "slice_last 10 (digitsOnly phone) = ?last"
    by (rule last_ten_digits)
  have c7: "length (slice_last 10 (digitsOnly phone)) = min 10 (length ?ds)"
    unfolding c6 by simp
  have c8: "''suspicious_repeated_digits'' \<in> set (flags (analyzePhone (str ''9999999999'')))"
    by (simp add: eval_phone_nines)
  have c9: "details (analyzePhone (str ''+91 8999999999''))
      = [\<lparr>rule = ''repeated_digits'', flag = ''suspicious_repeated_digits'', points = 15\<rparr>]"
    by (simp add: eval_phone_country)
  have c10: "details (analyzePhone (str ''89999-99999 ext.1''))
      = [\<lparr>rule = ''repeated_digits'', flag = ''suspicious_repeated_digits'', points = 15\<rparr>]"
    by (simp add: eval_phone_ext)
  note facts = c1 c2 c3 c4 c5 c6 c7 c8 c9 c10
  show ?thesis
    by (intro conjI) (rule facts)+
qed

theorem C7_witness:
  "card (set (drop (length (filter is_digit (str ''+91 8999999999'')) - 10)
       (filter is_digit (str ''+91 8999999999'')))) \<le> 2
   \<and> \<not> card (set (filter is_digit (str ''+91 8999999999''))) \<le> 2
   \<and> card (set (drop (length (filter is_digit (str ''89999-99999 ext.1'')) - 10)
       (filter is_digit (str ''89999-99999 ext.1'')))) \<le> 2
   \<and> filter is_digit (str ''89999-99999 ext.1'') = str ''89999999991''
   \<and> has_digit_run (filter is_digit (str ''9876511111''))
   \<and> \<not> card (set (drop (length (filter is_digit (str ''9876511111'')) - 10)
       (filter is_digit (str ''9876511111'')))) \<le> 2
   \<and> riskScore (analyzePhone (str ''9876511111'')) = 12"
proof -
  let ?d15 = "\<lparr>rule = ''repeated_digits'', flag = ''suspicious_repeated_digits'', points = 15\<rparr>"
  let ?d12 = "\<lparr>rule = ''repeated_sequence'', flag = ''suspicious_repeated_digits'', points = 12\<rparr>"
  note country = C7_repeated_digits [of "str ''+91 8999999999''"]
  note ext = C7_repeated_digits [of "str ''89999-99999 ext.1''"]
  note run = C7_repeated_digits [of "str ''9876511111''"]
  have "?d15 \<in> set (details (analyzePhone (str ''+91 8999999999'')))"
    by (simp add: eval_phone_country)
  with country have w1: "card (set (drop (length (filter is_digit (str ''+91 8999999999'')) - 10)
       (filter is_digit (str ''+91 8999999999'')))) \<le> 2"
    by blast
  have w2: "\<not> card (set (filter is_digit (str ''+91 8999999999''))) \<le> 2"
    unfolding eval_digits_country by (rule eval_distinct_country)
  have "?d15 \<in> set (details (analyzePhone (str ''89999-99999 ext.1'')))"
    by (simp add: eval_phone_ext)
  with ext have w3: "card (set (drop (length (filter is_digit (str ''89999-99999 ext.1'')) - 10)
       (filter is_digit (str ''89999-99999 ext.1'')))) \<le> 2"
    by blast
  have "?d12 \<in> set (details (analyzePhone (str ''9876511111'')))"
    by (simp add: eval_phone_run)
  with run have w4: "has_digit_run (filter is_digit (str ''9876511111''))
      \<and> \<not> card (set (drop (length (filter is_digit (str ''9876511111'')) - 10)
          (filter is_digit (str ''9876511111'')))) \<le> 2"
    by blast
  have w5: "riskScore (analyzePhone (str ''9876511111'')) = 12"
    by (simp add: eval_phone_run)
  show ?thesis
    using w1 w2 w3 eval_digits_ext w4 w5 by blast
qed

text \<open>
  C8, as the code has it. An explicit type that is none of message, url, phone and auto,
  and not empty, is no error: \<open>analyze\<close> runs the message analyzer on the normalized
  input and returns the given type as \<open>inputType\<close>, and the route answers a non-blank
  input with that analysis.
\<close>

theorem C8_unsupported_type_is_message:
  assumes "t \<notin> set SUPPORTED_TYPES" and "t \<noteq> []"
  shows "inputType (analyze rt input (Some t)) = t
   \<and> riskScore (analyze rt input (Some t)) = riskScore (analyzeMessage rt (normalizeInput input))
   \<and> riskLevel (analyze rt input (Some t)) = riskLevel (analyzeMessage rt (normalizeInput input))
   \<and> flags (analyze rt input (Some t)) = flags (analyzeMessage rt (normalizeInput input))
   \<and> details (analyze rt input (Some t)) = details (analyzeMessage rt (normalizeInput input))
   \<and> (trim raw \<noteq> [] \<longrightarrow>
        map_option inputType (response_result (POST rt g \<lparr>body_input = Some raw, body_type = Some t\<rparr>))
          = Some t
        \<and> map_option riskScore (response_result (POST rt g \<lparr>body_input = Some raw, body_type = Some t\<rparr>))
          = Some (riskScore (analyzeMessage rt (normalizeInput (trim raw))))
        \<and> map_option flags (response_result (POST rt g \<lparr>body_input = Some raw, body_type = Some t\<rparr>))
          = Some (flags (analyzeMessage rt (normalizeInput (trim raw)))))"
  using analyze_unsupported [OF assms, of rt input] POST_unsupported [OF assms, of raw rt g]
  by blast

theorem C8_witness:
  "str ''sms'' \<notin> set SUPPORTED_TYPES \<and> str ''sms'' \<noteq> [] \<and> trim (str ''otp a.tk'') \<noteq> []
   \<and> inputType (analyze basic_runtime (str ''otp a.tk'') (Some (str ''sms''))) = str ''sms''
   \<and> riskScore (analyze basic_runtime (str ''otp a.tk'') (Some (str ''sms''))) = 34
   \<and> map_option riskScore (response_result (POST basic_runtime no_explainer
        \<lparr>body_input = Some (str ''otp a.tk''), body_type = Some (str ''sms'')\<rparr>)) = Some 34"
proof -
  have nonblank: "trim (str ''otp a.tk'') \<noteq> []"
    unfolding msg_otp_trim by (simp add: str_def)
  note inst = C8_unsupported_type_is_message [OF sms_unsupported, of basic_runtime
      "str ''otp a.tk''" "str ''otp a.tk''" no_explainer]
  have v: "riskScore (analyzeMessage basic_runtime (str ''otp a.tk'')) = 34"
    using msg_otp_result by blast
  from inst have a1: "inputType (analyze basic_runtime (str ''otp a.tk'') (Some (str ''sms''))) = str ''sms''"
    by blast
  from inst have "riskScore (analyze basic_runtime (str ''otp a.tk'') (Some (str ''sms'')))
      = riskScore (analyzeMessage basic_runtime (normalizeInput (str ''otp a.tk'')))"
    by blast
  then have a2: "riskScore (analyze basic_runtime (str ''otp a.tk'') (Some (str ''sms''))) = 34"
    by (simp only: msg_otp_normal v)
  from inst nonblank have "map_option riskScore (response_result (POST basic_runtime no_explainer
        \<lparr>body_input = Some (str ''otp a.tk''), body_type = Some (str ''sms'')\<rparr>))
      = Some (riskScore (analyzeMessage basic_runtime (normalizeInput (trim (str ''otp a.tk'')))))"
    by blast
  then have a3: "map_option riskScore (response_result (POST basic_runtime no_explainer
        \<lparr>body_input = Some (str ''otp a.tk''), body_type = Some (str ''sms'')\<rparr>)) = Some 34"
    by (simp only: msg_otp_trim msg_otp_normal v)
  show ?thesis
    using sms_unsupported nonblank a1 a2 a3 by blast
qed

theorem C8_counterexample:
  "map_option inputType (response_result (POST basic_runtime no_explainer
        \<lparr>body_input = Some (str ''otp a.tk''), body_type = Some (str ''email'')\<rparr>))
     = Some (str ''email'')
   \<and> map_option riskScore (response_result (POST basic_runtime no_explainer
        \<lparr>body_input = Some (str ''otp a.tk''), body_type = Some (str ''email'')\<rparr>)) = Some 34
   \<and> map_option flags (response_result (POST basic_runtime no_explainer
        \<lparr>body_input = Some (str ''otp a.tk''), body_type = Some (str ''email'')\<rparr>))
     = Some [''otp_kyc_request'', ''suspicious_tld'']"
proof -
  have nonblank: "trim (str ''otp a.tk'') \<noteq> []"
    unfolding msg_otp_trim by (simp add: str_def)
  show ?thesis
    using POST_unsupported [OF email_unsupported nonblank, of basic_runtime no_explainer]
      msg_otp_result
    by (simp add: msg_otp_normal msg_otp_trim)
qed

text \<open>
  C9. No flag occurs twice in the flags of a result of the three analyzers or of
  \<open>analyze\<close>. The flags of the URL and of the phone analyzer stand in the order of the
  checks that raise them. The flags of the message analyzer are those of the rules that
  fire, in catalog order, then those of the first two embedded URLs and of the first two
  embedded phone numbers, each flag where it first occurs. The flags of \<open>analyze\<close> are
  those of the analyzer its input type selects, run on the normalized input, and so
  stand in that analyzer's order.
\<close>

theorem C9_flags_distinct_in_order:
  "distinct (flags (analyzeMessage rt text))
   \<and> distinct (flags (analyzeUrl rt text))
   \<and> distinct (flags (analyzePhone text))
   \<and> distinct (flags (analyze rt text ty))
   \<and> in_order URL_FLAG_ORDER (flags (analyzeUrl rt text))
   \<and> in_order PHONE_FLAG_ORDER (flags (analyzePhone text))
   \<and> flags (analyzeMessage rt text) =
       keep_first {}
         (map (\<lambda>nr. rule_flag (snd nr)) (fired_rules (toLowerCase rt text))
          @ concat (map (\<lambda>u. flags (analyzeUrl rt u)) (take 2 (extractUrls text)))
          @ concat (map (\<lambda>p. flags (analyzePhone p)) (take 2 (extractPhones text))))
   \<and> (inputType (analyze rt text ty) = str ''url'' \<longrightarrow>
        flags (analyze rt text ty) = flags (analyzeUrl rt (normalizeInput text))
        \<and> in_order URL_FLAG_ORDER (flags (analyze rt text ty)))
   \<and> (inputType (analyze rt text ty) \<noteq> str ''url'' \<and> inputType (analyze rt text ty) = str ''phone'' \<longrightarrow>
        flags (analyze rt text ty) = flags (analyzePhone (normalizeInput text))
        \<and> in_order PHONE_FLAG_ORDER (flags (analyze rt text ty)))
   \<and> (inputType (analyze rt text ty) \<noteq> str ''url'' \<and> inputType (analyze rt text ty) \<noteq> str ''phone'' \<longrightarrow>
        flags (analyze rt text ty) =
          keep_first {}
            (map (\<lambda>nr. rule_flag (snd nr)) (fired_rules (toLowerCase rt (normalizeInput text)))
             @ concat (map (\<lambda>u. flags (analyzeUrl rt u)) (take 2 (extractUrls (normalizeInput text))))
             @ concat (map (\<lambda>p. flags (analyzePhone p)) (take 2 (extractPhones (normalizeInput text))))))"
proof -
  let ?n = "normalizeInput text"
  let ?ty = "resolve_type ty ?n"
  have c4: "distinct (flags (analyze rt text ty))"
    using dispatch_cases [of rt ?ty ?n]
    by (auto simp: flags_distinct)
  have c7: "flags (analyzeMessage rt text) =
       keep_first {}
         (map (\<lambda>nr. rule_flag (snd nr)) (fired_rules (toLowerCase rt text))
          @ concat (map (\<lambda>u. flags (analyzeUrl rt u)) (take 2 (extractUrls text)))
          @ concat (map (\<lambda>p. flags (analyzePhone p)) (take 2 (extractPhones text))))"
    by (rule analyzeMessage_flags)
  have c8: "inputType (analyze rt text ty) = str ''url'' \<longrightarrow>
        flags (analyze rt text ty) = flags (analyzeUrl rt ?n)
        \<and> in_order URL_FLAG_ORDER (flags (analyze rt text ty))"
    by (simp add: dispatch_def analyzeUrl_in_order)
  have c9: "inputType (analyze rt text ty) \<noteq> str ''url'' \<and> inputType (analyze rt text ty) = str ''phone'' \<longrightarrow>
        flags (analyze rt text ty) = flags (analyzePhone ?n)
        \<and> in_order PHONE_FLAG_ORDER (flags (analyze rt text ty))"
    by (simp add: dispatch_def analyzePhone_in_order)
  have c10: "inputType (analyze rt text ty) \<noteq> str ''url'' \<and> inputType (analyze rt text ty) \<noteq> str ''phone'' \<longrightarrow>
        flags (analyze rt text ty) =
          keep_first {}
            (map (\<lambda>nr. rule_flag (snd nr)) (fired_rules (toLowerCase rt ?n))
             @ concat (map (\<lambda>u. flags (analyzeUrl rt u)) (take 2 (extractUrls ?n)))
             @ concat (map (\<lambda>p. flags (analyzePhone p)) (take 2 (extractPhones ?n))))"
    by (simp add: dispatch_def analyzeMessage_flags)
  note facts = flags_distinct(3) [of rt "text"] flags_distinct(1) [of rt "text"]
    flags_distinct(2) [of "text"] c4 analyzeUrl_in_order [of rt "text"]
    analyzePhone_in_order [of "text"] c7 c8 c9 c10
  show ?thesis
    by (intro conjI) (rule facts)+
qed

theorem C9_witness:
  "distinct [''no_https'', ''suspicious_tld'', ''brand_spoofing'', ''suspicious_path_token'']
   \<and> in_order URL_FLAG_ORDER [''no_https'', ''suspicious_tld'', ''brand_spoofing'', ''suspicious_path_token'']
   \<and> distinct (flags (analyzeMessage basic_runtime (str ''otp a.tk'')))
   \<and> inputType (analyze basic_runtime (str ''http://amaz0n-secure.xyz/login'') (Some (str ''url'')))
       = str ''url''
   \<and> flags (analyze basic_runtime (str ''http://amaz0n-secure.xyz/login'') (Some (str ''url'')))
       = [''no_https'', ''suspicious_tld'', ''brand_spoofing'', ''suspicious_path_token'']
   \<and> in_order URL_FLAG_ORDER
       (flags (analyze basic_runtime (str ''http://amaz0n-secure.xyz/login'') (Some (str ''url''))))
   \<and> inputType (analyze basic_runtime (str ''9999999999'') (Some (str ''phone''))) = str ''phone''
   \<and> flags (analyze basic_runtime (str ''9999999999'') (Some (str ''phone'')))
       = [''suspicious_repeated_digits'']
   \<and> inputType (analyze basic_runtime (str ''otp a.tk'') (Some (str ''message''))) = str ''message''
   \<and> flags (analyze basic_runtime (str ''otp a.tk'') (Some (str ''message'')))
       = keep_first {} ([''otp_kyc_request''] @ [''suspicious_tld''] @ [])"
proof -
  note url = C9_flags_distinct_in_order [of basic_runtime "str ''http://amaz0n-secure.xyz/login''" None]
  note msg = C9_flags_distinct_in_order [of basic_runtime "str ''otp a.tk''" None]
  note ana = C9_flags_distinct_in_order [of basic_runtime "str ''http://amaz0n-secure.xyz/login''"
      "Some (str ''url'')"]
  note anp = C9_flags_distinct_in_order [of basic_runtime "str ''9999999999''" "Some (str ''phone'')"]
  note anm = C9_flags_distinct_in_order [of basic_runtime "str ''otp a.tk''" "Some (str ''message'')"]
  from url have "distinct (flags (analyzeUrl basic_runtime (str ''http://amaz0n-secure.xyz/login'')))"
    and "in_order URL_FLAG_ORDER (flags (analyzeUrl basic_runtime (str ''http://amaz0n-secure.xyz/login'')))"
    by blast+
  then have w1: "distinct [''no_https'', ''suspicious_tld'', ''brand_spoofing'', ''suspicious_path_token'']"
    and w2: "in_order URL_FLAG_ORDER [''no_https'', ''suspicious_tld'', ''brand_spoofing'', ''suspicious_path_token'']"
    by (simp_all only: eval_url_amaz0n AnalysisResult.simps)
  from msg have w3: "distinct (flags (analyzeMessage basic_runtime (str ''otp a.tk'')))"
    by blast
  have w4: "inputType (analyze basic_runtime (str ''http://amaz0n-secure.xyz/login'') (Some (str ''url'')))
      = str ''url''"
    by (simp add: url_type_explicit)
  with ana have a: "flags (analyze basic_runtime (str ''http://amaz0n-secure.xyz/login'') (Some (str ''url'')))
        = flags (analyzeUrl basic_runtime (normalizeInput (str ''http://amaz0n-secure.xyz/login'')))"
    and w6: "in_order URL_FLAG_ORDER
        (flags (analyze basic_runtime (str ''http://amaz0n-secure.xyz/login'') (Some (str ''url''))))"
    by blast+
  from a have w5: "flags (analyze basic_runtime (str ''http://amaz0n-secure.xyz/login'') (Some (str ''url'')))
      = [''no_https'', ''suspicious_tld'', ''brand_spoofing'', ''suspicious_path_token'']"
    by (simp only: eval_url_normal eval_url_amaz0n AnalysisResult.simps)
  have w7: "inputType (analyze basic_runtime (str ''9999999999'') (Some (str ''phone''))) = str ''phone''"
    by (simp add: phone_type_explicit)
  with anp type_names_differ(1) have "flags (analyze basic_runtime (str ''9999999999'') (Some (str ''phone'')))
      = flags (analyzePhone (normalizeInput (str ''9999999999'')))"
    by metis
  then have w8: "flags (analyze basic_runtime (str ''9999999999'') (Some (str ''phone'')))
      = [''suspicious_repeated_digits'']"
    by (simp only: eval_nines_normal eval_phone_nines AnalysisResult.simps)
  have w9: "inputType (analyze basic_runtime (str ''otp a.tk'') (Some (str ''message''))) = str ''message''"
    by (simp add: message_type_explicit)
  with anm type_names_differ(2,3) have "flags (analyze basic_runtime (str ''otp a.tk'') (Some (str ''message''))) =
      keep_first {}
        (map (\<lambda>nr. rule_flag (snd nr))
           (fired_rules (toLowerCase basic_runtime (normalizeInput (str ''otp a.tk''))))
         @ concat (map (\<lambda>u. flags (analyzeUrl basic_runtime u))
             (take 2 (extractUrls (normalizeInput (str ''otp a.tk'')))))
         @ concat (map (\<lambda>p. flags (analyzePhone p))
             (take 2 (extractPhones (normalizeInput (str ''otp a.tk''))))))"
    by metis
  then have w10: "flags (analyze basic_runtime (str ''otp a.tk'') (Some (str ''message'')))
      = keep_first {} ([''otp_kyc_request''] @ [''suspicious_tld''] @ [])"
    unfolding msg_otp_normal msg_otp_lower
    by (simp add: msg_otp_fired msg_otp_urls msg_otp_phones eval_url_atk)
  show ?thesis
    using w1 w2 w3 w4 w5 w6 w7 w8 w9 w10 by blast
qed

text \<open>
  C10. Each of the three analyzers returns the score 0 exactly when it returns no flag,
  and so does \<open>analyze\<close>.
\<close>

theorem C10_zero_score_iff_no_flags:
  "(riskScore (analyzeMessage rt text) = 0) = (flags (analyzeMessage rt text) = [])
   \<and> (riskScore (analyzeUrl rt text) = 0) = (flags (analyzeUrl rt text) = [])
   \<and> (riskScore (analyzePhone text) = 0) = (flags (analyzePhone text) = [])
   \<and> (riskScore (analyze rt text ty) = 0) = (flags (analyze rt text ty) = [])"
proof -
  have "(riskScore (analyze rt text ty) = 0) = (flags (analyze rt text ty) = [])"
    using dispatch_cases [of rt "resolve_type ty (normalizeInput text)" "normalizeInput text"]
    by (auto simp: message_score_zero_iff url_score_zero_iff phone_score_zero_iff)
  then show ?thesis
    by (simp add: message_score_zero_iff url_score_zero_iff phone_score_zero_iff)
qed

theorem C10_witness:
  "flags (analyzeUrl basic_runtime (str ''https://amazon.in'')) = []
   \<and> riskScore (analyzeUrl basic_runtime (str ''https://amazon.in'')) = 0
   \<and> flags (analyzeMessage basic_runtime (str ''otp a.tk'')) \<noteq> []
   \<and> riskScore (analyzeMessage basic_runtime (str ''otp a.tk'')) \<noteq> 0"
  using C10_zero_score_iff_no_flags [of basic_runtime "str ''https://amazon.in''" None]
    C10_zero_score_iff_no_flags [of basic_runtime "str ''otp a.tk''" None]
    msg_otp_result
  by (simp add: eval_url_amazon_in)

end
